theory Spec2Isabelle
  imports Complex_Main "HOL-Library.Sublist"
begin

section \<open>JavaScript strings\<close>

text \<open>
  A JavaScript string is a sequence of UTF-16 code units, and \<open>length\<close>, \<open>slice\<close>,
  \<open>lastIndexOf\<close> and the regular expressions of the source (none has the \<open>u\<close> flag) all
  work on code units. A string is therefore a list of code units, each a natural number;
  \<open>js\<close> turns an ASCII literal into such a list.
\<close>

type_synonym jsstring = "nat list"

definition js :: "string \<Rightarrow> jsstring" where
  "js s = map of_char s"

text \<open>The line terminators of ECMAScript: what \<open>.\<close> refuses and where \<open>^\<close> and \<open>$\<close> anchor
  under the \<open>m\<close> flag.\<close>

definition isLineTerminator :: "nat \<Rightarrow> bool" where
  "isLineTerminator c \<longleftrightarrow> c = 0x0A \<or> c = 0x0D \<or> c = 0x2028 \<or> c = 0x2029"

text \<open>White space and line terminators: what \<open>\s\<close> matches and \<open>trim()\<close> removes.\<close>

definition isWhiteSpace :: "nat \<Rightarrow> bool" where
  "isWhiteSpace c \<longleftrightarrow>
     c = 0x09 \<or> c = 0x0A \<or> c = 0x0B \<or> c = 0x0C \<or> c = 0x0D \<or> c = 0x20 \<or> c = 0xA0 \<or>
     c = 0x1680 \<or> (0x2000 \<le> c \<and> c \<le> 0x200A) \<or> c = 0x2028 \<or> c = 0x2029 \<or>
     c = 0x202F \<or> c = 0x205F \<or> c = 0x3000 \<or> c = 0xFEFF"

definition trim :: "jsstring \<Rightarrow> jsstring" where
  "trim s = rev (dropWhile isWhiteSpace (rev (dropWhile isWhiteSpace s)))"

text \<open>\<open>s.lastIndexOf(pat, pos)\<close>: the largest \<open>k \<le> min pos (length s)\<close> at which \<open>pat\<close>
  occurs in \<open>s\<close>; \<open>None\<close> stands for the result \<open>-1\<close>.\<close>

definition matchesAt :: "jsstring \<Rightarrow> jsstring \<Rightarrow> nat \<Rightarrow> bool" where
  "matchesAt s pat k \<longleftrightarrow> k + length pat \<le> length s \<and> take (length pat) (drop k s) = pat"

fun lastIndexOfDown :: "jsstring \<Rightarrow> jsstring \<Rightarrow> nat \<Rightarrow> nat option" where
  "lastIndexOfDown s pat 0 = (if matchesAt s pat 0 then Some 0 else None)"
| "lastIndexOfDown s pat (Suc k) =
     (if matchesAt s pat (Suc k) then Some (Suc k) else lastIndexOfDown s pat k)"

definition lastIndexOf :: "jsstring \<Rightarrow> jsstring \<Rightarrow> nat \<Rightarrow> nat option" where
  "lastIndexOf s pat pos = lastIndexOfDown s pat (min pos (length s))"

section \<open>The chunker: \<open>splitResponse\<close>\<close>

text \<open>
  \<open>AgentManager.splitResponse\<close> (agent-manager.ts) and \<open>BaseIslamicAgent.splitResponse\<close>
  (islamic-agents.ts) are the same text. The \<open>while\<close> loop has no bound, so it is a partial
  function: \<open>None\<close> is a run that never returns.
\<close>

definition MAX_LENGTH :: nat where
  "MAX_LENGTH = 4000"

definition continuedMarker :: jsstring where
  "continuedMarker = js ''\<newline>\<newline><i>(continued...)</i>''"

definition continuationMarker :: jsstring where
  "continuationMarker = js ''<i>(continuation)</i>\<newline>\<newline>''"

definition findSplitIndex :: "jsstring \<Rightarrow> nat" where
  "findSplitIndex text =
     (case lastIndexOf text (js ''\<newline>\<newline>'') MAX_LENGTH of
        Some i \<Rightarrow> i
      | None \<Rightarrow>
          (case lastIndexOf text (js ''. '') MAX_LENGTH of
             Some i \<Rightarrow> i
           | None \<Rightarrow> MAX_LENGTH))"

partial_function (option) splitLoop :: "jsstring list \<Rightarrow> jsstring \<Rightarrow> jsstring list option" where
  "splitLoop chunks text =
     (if length text > 0 then
        if length text \<le> MAX_LENGTH then Some (chunks @ [text])
        else
          let splitIndex = findSplitIndex text;
              chunks1 = chunks @ [take splitIndex text];
              text1 = trim (drop splitIndex text)
          in if length text1 > 0
             then splitLoop (butlast chunks1 @ [last chunks1 @ continuedMarker])
                    (continuationMarker @ text1)
             else splitLoop chunks1 text1
      else Some chunks)"

definition splitResponse :: "jsstring \<Rightarrow> jsstring list option" where
  "splitResponse text = splitLoop [] text"

subsection \<open>Notions used to state the chunker's properties\<close>

text \<open>The text of a pass after the first: the reciprocal marker followed by a trimmed,
  non-empty remainder.\<close>

definition continuing :: "jsstring \<Rightarrow> bool" where
  "continuing t \<longleftrightarrow> (\<exists>r. t = continuationMarker @ r \<and> r \<noteq> [] \<and> trim r = r)"

text \<open>What is left of a chunk once its markers are taken off. The loop appends the
  continuation marker to every chunk but the last and prepends the reciprocal marker to every
  chunk but the first, so they are removed by position.\<close>

definition squash :: "jsstring \<Rightarrow> jsstring" where
  "squash s = filter (\<lambda>c. \<not> isWhiteSpace c) s"

definition stripContinued :: "jsstring \<Rightarrow> jsstring" where
  "stripContinued c = take (length c - length continuedMarker) c"

definition stripContinuation :: "jsstring \<Rightarrow> jsstring" where
  "stripContinuation c = drop (length continuationMarker) c"

fun coresRest :: "jsstring list \<Rightarrow> jsstring list" where
  "coresRest [] = []"
| "coresRest [c] = [stripContinuation c]"
| "coresRest (c # cs) = stripContinuation (stripContinued c) # coresRest cs"

fun cores :: "jsstring list \<Rightarrow> jsstring list" where
  "cores [] = []"
| "cores [c] = [c]"
| "cores (c # cs) = stripContinued c # coresRest cs"

text \<open>The chunk texts put back in order, each followed by a gap; and a gap of white space
  only.\<close>

fun weave :: "jsstring list \<Rightarrow> jsstring list \<Rightarrow> jsstring" where
  "weave [] gaps = []"
| "weave (c # cs) [] = c @ weave cs []"
| "weave (c # cs) (g # gaps) = c @ g @ weave cs gaps"

definition allWhiteSpace :: "jsstring \<Rightarrow> bool" where
  "allWhiteSpace s \<longleftrightarrow> (\<forall>c \<in> set s. isWhiteSpace c)"

text \<open>The shape of a returned chunk list.\<close>

definition chunkShape :: "jsstring list \<Rightarrow> bool" where
  "chunkShape new \<longleftrightarrow>
     (\<forall>c \<in> set (butlast new). \<exists>core. c = core @ continuedMarker \<and> length core \<le> MAX_LENGTH) \<and>
     (new \<noteq> [] \<longrightarrow> length (last new) \<le> MAX_LENGTH) \<and>
     (\<forall>c \<in> set (tl new). prefix continuationMarker c)"

text \<open>A 9000-character answer of three paragraphs separated by blank lines.\<close>

definition text9000 :: jsstring where
  "text9000 = replicate 3000 97 @ [10, 10] @ replicate 3000 98 @ [10, 10] @ replicate 2996 99"

section \<open>Regular expressions of the source\<close>

text \<open>
  Every regular expression of the source is written out as a matcher: given the code unit
  before the current position (\<open>None\<close> at the start of the input) and the input from the
  current position on, it returns the length of the match that starts there and the text that
  replaces it. One code unit of context is all that \<open>^\<close> (with the \<open>m\<close> flag) and \<open>\b\<close> look
  at.
\<close>

type_synonym matcher = "nat option \<Rightarrow> jsstring \<Rightarrow> (nat \<times> jsstring) option"

text \<open>\<open>s.replace(re, ...)\<close> for a regular expression with the \<open>g\<close> flag: matches are taken from
  left to right and do not overlap; after an empty match the search moves on by one code
  unit.\<close>

fun replaceScan :: "matcher \<Rightarrow> nat \<Rightarrow> nat option \<Rightarrow> jsstring \<Rightarrow> jsstring" where
  "replaceScan m skip prev [] =
     (if skip = 0 then (case m prev [] of Some (n, rep) \<Rightarrow> rep | None \<Rightarrow> []) else [])"
| "replaceScan m (Suc k) prev (c # cs) = replaceScan m k (Some c) cs"
| "replaceScan m 0 prev (c # cs) =
     (case m prev (c # cs) of
        None \<Rightarrow> c # replaceScan m 0 (Some c) cs
      | Some (0, rep) \<Rightarrow> rep @ c # replaceScan m 0 (Some c) cs
      | Some (Suc k, rep) \<Rightarrow> rep @ replaceScan m k (Some c) cs)"

definition replaceAll :: "matcher \<Rightarrow> jsstring \<Rightarrow> jsstring" where
  "replaceAll m s = replaceScan m 0 None s"

text \<open>\<open>\w\<close> is \<open>[A-Za-z0-9_]\<close>, \<open>\d\<close> is \<open>[0-9]\<close>; \<open>\b\<close> holds between a word character and
  anything else.\<close>

definition isWordChar :: "nat \<Rightarrow> bool" where
  "isWordChar c \<longleftrightarrow> (65 \<le> c \<and> c \<le> 90) \<or> (97 \<le> c \<and> c \<le> 122) \<or> (48 \<le> c \<and> c \<le> 57) \<or> c = 95"

definition isDigit :: "nat \<Rightarrow> bool" where
  "isDigit c \<longleftrightarrow> 48 \<le> c \<and> c \<le> 57"

definition isWordOpt :: "nat option \<Rightarrow> bool" where
  "isWordOpt x = (case x of None \<Rightarrow> False | Some c \<Rightarrow> isWordChar c)"

definition headOpt :: "jsstring \<Rightarrow> nat option" where
  "headOpt s = (case s of [] \<Rightarrow> None | c # _ \<Rightarrow> Some c)"

definition wordBoundary :: "nat option \<Rightarrow> jsstring \<Rightarrow> bool" where
  "wordBoundary prev s \<longleftrightarrow> isWordOpt prev \<noteq> isWordOpt (headOpt s)"

text \<open>The \<open>i\<close> flag without the \<open>u\<close> flag compares the upper-case forms of single code units,
  and never lets a code unit from 128 on stand for an ASCII one. All patterns of the source
  are ASCII, so a code unit matches a pattern character exactly when their ASCII upper-case
  forms are equal.\<close>

definition toUpperAscii :: "nat \<Rightarrow> nat" where
  "toUpperAscii c = (if 97 \<le> c \<and> c \<le> 122 then c - 32 else c)"

definition toLowerAscii :: "nat \<Rightarrow> nat" where
  "toLowerAscii c = (if 65 \<le> c \<and> c \<le> 90 then c + 32 else c)"

fun ciPrefix :: "jsstring \<Rightarrow> jsstring \<Rightarrow> bool" where
  "ciPrefix [] s = True"
| "ciPrefix (p # ps) [] = False"
| "ciPrefix (p # ps) (c # cs) = (toUpperAscii c = toUpperAscii p \<and> ciPrefix ps cs)"

text \<open>\<open>^\<close> with the \<open>m\<close> flag: at the start of the input or right after a line terminator.\<close>

definition lineStart :: "nat option \<Rightarrow> bool" where
  "lineStart prev = (case prev of None \<Rightarrow> True | Some c \<Rightarrow> isLineTerminator c)"

text \<open>\<open>s.includes(pat)\<close> (\<open>includes\<close> is a keyword of Isabelle).\<close>

fun includesStr :: "jsstring \<Rightarrow> jsstring \<Rightarrow> bool" where
  "includesStr [] pat = (pat = [])"
| "includesStr (c # cs) pat = (prefix pat (c # cs) \<or> includesStr cs pat)"

section \<open>\<open>String.prototype.toLowerCase\<close>\<close>

text \<open>
  \<open>s.toLowerCase()\<close> reads the code units as code points (a high surrogate followed by a low
  one is one code point, a surrogate on its own is itself), lowers them by the default case
  conversion of Unicode, which knows no locale, and writes the code points back as code
  units. The tables are those of Unicode 14.0.0. A code point is lowered by its simple
  mapping, but for two: \<open>U+0130\<close> becomes \<open>U+0069 U+0307\<close>, and \<open>U+03A3\<close> becomes the final
  sigma \<open>U+03C2\<close> when a cased letter comes before it and none comes after it, the code points
  that case ignores being passed over on both sides, and \<open>U+03C3\<close> otherwise.
\<close>

text \<open>The simple mappings from 128 on: the code points \<open>lo\<close>, \<open>lo + step\<close>, ... up to \<open>hi\<close> are
  mapped to \<open>target\<close>, \<open>target + step\<close>, ...; the entries are in ascending order.\<close>

definition lowerRanges :: "(nat \<times> nat \<times> nat \<times> nat) list" where
  "lowerRanges =
    [(192, 214, 1, 224), (216, 222, 1, 248), (256, 302, 2, 257), (306, 310, 2, 307),
     (313, 327, 2, 314), (330, 374, 2, 331), (376, 376, 1, 255), (377, 381, 2, 378),
     (385, 385, 1, 595), (386, 388, 2, 387), (390, 390, 1, 596), (391, 391, 1, 392),
     (393, 394, 1, 598), (395, 395, 1, 396), (398, 398, 1, 477), (399, 399, 1, 601),
     (400, 400, 1, 603), (401, 401, 1, 402), (403, 403, 1, 608), (404, 404, 1, 611),
     (406, 406, 1, 617), (407, 407, 1, 616), (408, 408, 1, 409), (412, 412, 1, 623),
     (413, 413, 1, 626), (415, 415, 1, 629), (416, 420, 2, 417), (422, 422, 1, 640),
     (423, 423, 1, 424), (425, 425, 1, 643), (428, 428, 1, 429), (430, 430, 1, 648),
     (431, 431, 1, 432), (433, 434, 1, 650), (435, 437, 2, 436), (439, 439, 1, 658),
     (440, 440, 1, 441), (444, 444, 1, 445), (452, 452, 1, 454), (453, 453, 1, 454),
     (455, 455, 1, 457), (456, 456, 1, 457), (458, 458, 1, 460), (459, 475, 2, 460),
     (478, 494, 2, 479), (497, 497, 1, 499), (498, 500, 2, 499), (502, 502, 1, 405),
     (503, 503, 1, 447), (504, 542, 2, 505), (544, 544, 1, 414), (546, 562, 2, 547),
     (570, 570, 1, 11365), (571, 571, 1, 572), (573, 573, 1, 410), (574, 574, 1, 11366),
     (577, 577, 1, 578), (579, 579, 1, 384), (580, 580, 1, 649), (581, 581, 1, 652),
     (582, 590, 2, 583), (880, 882, 2, 881), (886, 886, 1, 887), (895, 895, 1, 1011),
     (902, 902, 1, 940), (904, 906, 1, 941), (908, 908, 1, 972), (910, 911, 1, 973),
     (913, 929, 1, 945), (931, 939, 1, 963), (975, 975, 1, 983), (984, 1006, 2, 985),
     (1012, 1012, 1, 952), (1015, 1015, 1, 1016), (1017, 1017, 1, 1010), (1018, 1018, 1, 1019),
     (1021, 1023, 1, 891), (1024, 1039, 1, 1104), (1040, 1071, 1, 1072), (1120, 1152, 2, 1121),
     (1162, 1214, 2, 1163), (1216, 1216, 1, 1231), (1217, 1229, 2, 1218), (1232, 1326, 2, 1233),
     (1329, 1366, 1, 1377), (4256, 4293, 1, 11520), (4295, 4295, 1, 11559),
     (4301, 4301, 1, 11565), (5024, 5103, 1, 43888), (5104, 5109, 1, 5112),
     (7312, 7354, 1, 4304), (7357, 7359, 1, 4349), (7680, 7828, 2, 7681), (7838, 7838, 1, 223),
     (7840, 7934, 2, 7841), (7944, 7951, 1, 7936), (7960, 7965, 1, 7952), (7976, 7983, 1, 7968),
     (7992, 7999, 1, 7984), (8008, 8013, 1, 8000), (8025, 8031, 2, 8017), (8040, 8047, 1, 8032),
     (8072, 8079, 1, 8064), (8088, 8095, 1, 8080), (8104, 8111, 1, 8096), (8120, 8121, 1, 8112),
     (8122, 8123, 1, 8048), (8124, 8124, 1, 8115), (8136, 8139, 1, 8050), (8140, 8140, 1, 8131),
     (8152, 8153, 1, 8144), (8154, 8155, 1, 8054), (8168, 8169, 1, 8160), (8170, 8171, 1, 8058),
     (8172, 8172, 1, 8165), (8184, 8185, 1, 8056), (8186, 8187, 1, 8060), (8188, 8188, 1, 8179),
     (8486, 8486, 1, 969), (8490, 8490, 1, 107), (8491, 8491, 1, 229), (8498, 8498, 1, 8526),
     (8544, 8559, 1, 8560), (8579, 8579, 1, 8580), (9398, 9423, 1, 9424),
     (11264, 11311, 1, 11312), (11360, 11360, 1, 11361), (11362, 11362, 1, 619),
     (11363, 11363, 1, 7549), (11364, 11364, 1, 637), (11367, 11371, 2, 11368),
     (11373, 11373, 1, 593), (11374, 11374, 1, 625), (11375, 11375, 1, 592),
     (11376, 11376, 1, 594), (11378, 11378, 1, 11379), (11381, 11381, 1, 11382),
     (11390, 11391, 1, 575), (11392, 11490, 2, 11393), (11499, 11501, 2, 11500),
     (11506, 11506, 1, 11507), (42560, 42604, 2, 42561), (42624, 42650, 2, 42625),
     (42786, 42798, 2, 42787), (42802, 42862, 2, 42803), (42873, 42875, 2, 42874),
     (42877, 42877, 1, 7545), (42878, 42886, 2, 42879), (42891, 42891, 1, 42892),
     (42893, 42893, 1, 613), (42896, 42898, 2, 42897), (42902, 42920, 2, 42903),
     (42922, 42922, 1, 614), (42923, 42923, 1, 604), (42924, 42924, 1, 609),
     (42925, 42925, 1, 620), (42926, 42926, 1, 618), (42928, 42928, 1, 670),
     (42929, 42929, 1, 647), (42930, 42930, 1, 669), (42931, 42931, 1, 43859),
     (42932, 42946, 2, 42933), (42948, 42948, 1, 42900), (42949, 42949, 1, 642),
     (42950, 42950, 1, 7566), (42951, 42953, 2, 42952), (42960, 42960, 1, 42961),
     (42966, 42968, 2, 42967), (42997, 42997, 1, 42998), (65313, 65338, 1, 65345),
     (66560, 66599, 1, 66600), (66736, 66771, 1, 66776), (66928, 66938, 1, 66967),
     (66940, 66954, 1, 66979), (66956, 66962, 1, 66995), (66964, 66965, 1, 67003),
     (68736, 68786, 1, 68800), (71840, 71871, 1, 71872), (93760, 93791, 1, 93792),
     (125184, 125217, 1, 125218)]"

text \<open>The code points with the property \<open>Cased\<close>, as ranges in ascending order.\<close>

definition casedRanges :: "(nat \<times> nat) list" where
  "casedRanges =
    [(65, 90), (97, 122), (170, 170), (181, 181), (186, 186), (192, 214), (216, 246),
     (248, 442), (444, 447), (452, 659), (661, 696), (704, 705), (736, 740), (837, 837),
     (880, 883), (886, 887), (890, 893), (895, 895), (902, 902), (904, 906), (908, 908),
     (910, 929), (931, 1013), (1015, 1153), (1162, 1327), (1329, 1366), (1376, 1416),
     (4256, 4293), (4295, 4295), (4301, 4301), (4304, 4346), (4349, 4351), (5024, 5109),
     (5112, 5117), (7296, 7304), (7312, 7354), (7357, 7359), (7424, 7615), (7680, 7957),
     (7960, 7965), (7968, 8005), (8008, 8013), (8016, 8023), (8025, 8025), (8027, 8027),
     (8029, 8029), (8031, 8061), (8064, 8116), (8118, 8124), (8126, 8126), (8130, 8132),
     (8134, 8140), (8144, 8147), (8150, 8155), (8160, 8172), (8178, 8180), (8182, 8188),
     (8305, 8305), (8319, 8319), (8336, 8348), (8450, 8450), (8455, 8455), (8458, 8467),
     (8469, 8469), (8473, 8477), (8484, 8484), (8486, 8486), (8488, 8488), (8490, 8493),
     (8495, 8500), (8505, 8505), (8508, 8511), (8517, 8521), (8526, 8526), (8544, 8575),
     (8579, 8580), (9398, 9449), (11264, 11492), (11499, 11502), (11506, 11507), (11520, 11557),
     (11559, 11559), (11565, 11565), (42560, 42605), (42624, 42653), (42786, 42887),
     (42891, 42894), (42896, 42954), (42960, 42961), (42963, 42963), (42965, 42969),
     (42997, 42998), (43000, 43002), (43824, 43866), (43868, 43880), (43888, 43967),
     (64256, 64262), (64275, 64279), (65313, 65338), (65345, 65370), (66560, 66639),
     (66736, 66771), (66776, 66811), (66928, 66938), (66940, 66954), (66956, 66962),
     (66964, 66965), (66967, 66977), (66979, 66993), (66995, 67001), (67003, 67004),
     (67456, 67456), (67459, 67461), (67463, 67504), (67506, 67514), (68736, 68786),
     (68800, 68850), (71840, 71903), (93760, 93823), (119808, 119892), (119894, 119964),
     (119966, 119967), (119970, 119970), (119973, 119974), (119977, 119980), (119982, 119993),
     (119995, 119995), (119997, 120003), (120005, 120069), (120071, 120074), (120077, 120084),
     (120086, 120092), (120094, 120121), (120123, 120126), (120128, 120132), (120134, 120134),
     (120138, 120144), (120146, 120485), (120488, 120512), (120514, 120538), (120540, 120570),
     (120572, 120596), (120598, 120628), (120630, 120654), (120656, 120686), (120688, 120712),
     (120714, 120744), (120746, 120770), (120772, 120779), (122624, 122633), (122635, 122654),
     (125184, 125251), (127280, 127305), (127312, 127337), (127344, 127369)]"

text \<open>The code points with the property \<open>Case_Ignorable\<close>, as ranges in ascending order.\<close>

definition caseIgnorableRanges :: "(nat \<times> nat) list" where
  "caseIgnorableRanges =
    [(39, 39), (46, 46), (58, 58), (94, 94), (96, 96), (168, 168), (173, 173), (175, 175),
     (180, 180), (183, 184), (688, 879), (884, 885), (890, 890), (900, 901), (903, 903),
     (1155, 1161), (1369, 1369), (1375, 1375), (1425, 1469), (1471, 1471), (1473, 1474),
     (1476, 1477), (1479, 1479), (1524, 1524), (1536, 1541), (1552, 1562), (1564, 1564),
     (1600, 1600), (1611, 1631), (1648, 1648), (1750, 1757), (1759, 1768), (1770, 1773),
     (1807, 1807), (1809, 1809), (1840, 1866), (1958, 1968), (2027, 2037), (2042, 2042),
     (2045, 2045), (2070, 2093), (2137, 2139), (2184, 2184), (2192, 2193), (2200, 2207),
     (2249, 2306), (2362, 2362), (2364, 2364), (2369, 2376), (2381, 2381), (2385, 2391),
     (2402, 2403), (2417, 2417), (2433, 2433), (2492, 2492), (2497, 2500), (2509, 2509),
     (2530, 2531), (2558, 2558), (2561, 2562), (2620, 2620), (2625, 2626), (2631, 2632),
     (2635, 2637), (2641, 2641), (2672, 2673), (2677, 2677), (2689, 2690), (2748, 2748),
     (2753, 2757), (2759, 2760), (2765, 2765), (2786, 2787), (2810, 2815), (2817, 2817),
     (2876, 2876), (2879, 2879), (2881, 2884), (2893, 2893), (2901, 2902), (2914, 2915),
     (2946, 2946), (3008, 3008), (3021, 3021), (3072, 3072), (3076, 3076), (3132, 3132),
     (3134, 3136), (3142, 3144), (3146, 3149), (3157, 3158), (3170, 3171), (3201, 3201),
     (3260, 3260), (3263, 3263), (3270, 3270), (3276, 3277), (3298, 3299), (3328, 3329),
     (3387, 3388), (3393, 3396), (3405, 3405), (3426, 3427), (3457, 3457), (3530, 3530),
     (3538, 3540), (3542, 3542), (3633, 3633), (3636, 3642), (3654, 3662), (3761, 3761),
     (3764, 3772), (3782, 3782), (3784, 3789), (3864, 3865), (3893, 3893), (3895, 3895),
     (3897, 3897), (3953, 3966), (3968, 3972), (3974, 3975), (3981, 3991), (3993, 4028),
     (4038, 4038), (4141, 4144), (4146, 4151), (4153, 4154), (4157, 4158), (4184, 4185),
     (4190, 4192), (4209, 4212), (4226, 4226), (4229, 4230), (4237, 4237), (4253, 4253),
     (4348, 4348), (4957, 4959), (5906, 5908), (5938, 5939), (5970, 5971), (6002, 6003),
     (6068, 6069), (6071, 6077), (6086, 6086), (6089, 6099), (6103, 6103), (6109, 6109),
     (6155, 6159), (6211, 6211), (6277, 6278), (6313, 6313), (6432, 6434), (6439, 6440),
     (6450, 6450), (6457, 6459), (6679, 6680), (6683, 6683), (6742, 6742), (6744, 6750),
     (6752, 6752), (6754, 6754), (6757, 6764), (6771, 6780), (6783, 6783), (6823, 6823),
     (6832, 6862), (6912, 6915), (6964, 6964), (6966, 6970), (6972, 6972), (6978, 6978),
     (7019, 7027), (7040, 7041), (7074, 7077), (7080, 7081), (7083, 7085), (7142, 7142),
     (7144, 7145), (7149, 7149), (7151, 7153), (7212, 7219), (7222, 7223), (7288, 7293),
     (7376, 7378), (7380, 7392), (7394, 7400), (7405, 7405), (7412, 7412), (7416, 7417),
     (7468, 7530), (7544, 7544), (7579, 7679), (8125, 8125), (8127, 8129), (8141, 8143),
     (8157, 8159), (8173, 8175), (8189, 8190), (8203, 8207), (8216, 8217), (8228, 8228),
     (8231, 8231), (8234, 8238), (8288, 8292), (8294, 8303), (8305, 8305), (8319, 8319),
     (8336, 8348), (8400, 8432), (11388, 11389), (11503, 11505), (11631, 11631), (11647, 11647),
     (11744, 11775), (11823, 11823), (12293, 12293), (12330, 12333), (12337, 12341),
     (12347, 12347), (12441, 12446), (12540, 12542), (40981, 40981), (42232, 42237),
     (42508, 42508), (42607, 42610), (42612, 42621), (42623, 42623), (42652, 42655),
     (42736, 42737), (42752, 42785), (42864, 42864), (42888, 42890), (42994, 42996),
     (43000, 43001), (43010, 43010), (43014, 43014), (43019, 43019), (43045, 43046),
     (43052, 43052), (43204, 43205), (43232, 43249), (43263, 43263), (43302, 43309),
     (43335, 43345), (43392, 43394), (43443, 43443), (43446, 43449), (43452, 43453),
     (43471, 43471), (43493, 43494), (43561, 43566), (43569, 43570), (43573, 43574),
     (43587, 43587), (43596, 43596), (43632, 43632), (43644, 43644), (43696, 43696),
     (43698, 43700), (43703, 43704), (43710, 43711), (43713, 43713), (43741, 43741),
     (43756, 43757), (43763, 43764), (43766, 43766), (43867, 43871), (43881, 43883),
     (44005, 44005), (44008, 44008), (44013, 44013), (64286, 64286), (64434, 64450),
     (65024, 65039), (65043, 65043), (65056, 65071), (65106, 65106), (65109, 65109),
     (65279, 65279), (65287, 65287), (65294, 65294), (65306, 65306), (65342, 65342),
     (65344, 65344), (65392, 65392), (65438, 65439), (65507, 65507), (65529, 65531),
     (66045, 66045), (66272, 66272), (66422, 66426), (67456, 67461), (67463, 67504),
     (67506, 67514), (68097, 68099), (68101, 68102), (68108, 68111), (68152, 68154),
     (68159, 68159), (68325, 68326), (68900, 68903), (69291, 69292), (69446, 69456),
     (69506, 69509), (69633, 69633), (69688, 69702), (69744, 69744), (69747, 69748),
     (69759, 69761), (69811, 69814), (69817, 69818), (69821, 69821), (69826, 69826),
     (69837, 69837), (69888, 69890), (69927, 69931), (69933, 69940), (70003, 70003),
     (70016, 70017), (70070, 70078), (70089, 70092), (70095, 70095), (70191, 70193),
     (70196, 70196), (70198, 70199), (70206, 70206), (70367, 70367), (70371, 70378),
     (70400, 70401), (70459, 70460), (70464, 70464), (70502, 70508), (70512, 70516),
     (70712, 70719), (70722, 70724), (70726, 70726), (70750, 70750), (70835, 70840),
     (70842, 70842), (70847, 70848), (70850, 70851), (71090, 71093), (71100, 71101),
     (71103, 71104), (71132, 71133), (71219, 71226), (71229, 71229), (71231, 71232),
     (71339, 71339), (71341, 71341), (71344, 71349), (71351, 71351), (71453, 71455),
     (71458, 71461), (71463, 71467), (71727, 71735), (71737, 71738), (71995, 71996),
     (71998, 71998), (72003, 72003), (72148, 72151), (72154, 72155), (72160, 72160),
     (72193, 72202), (72243, 72248), (72251, 72254), (72263, 72263), (72273, 72278),
     (72281, 72283), (72330, 72342), (72344, 72345), (72752, 72758), (72760, 72765),
     (72767, 72767), (72850, 72871), (72874, 72880), (72882, 72883), (72885, 72886),
     (73009, 73014), (73018, 73018), (73020, 73021), (73023, 73029), (73031, 73031),
     (73104, 73105), (73109, 73109), (73111, 73111), (73459, 73460), (78896, 78904),
     (92912, 92916), (92976, 92982), (92992, 92995), (94031, 94031), (94095, 94111),
     (94176, 94177), (94179, 94180), (110576, 110579), (110581, 110587), (110589, 110590),
     (113821, 113822), (113824, 113827), (118528, 118573), (118576, 118598), (119143, 119145),
     (119155, 119170), (119173, 119179), (119210, 119213), (119362, 119364), (121344, 121398),
     (121403, 121452), (121461, 121461), (121476, 121476), (121499, 121503), (121505, 121519),
     (122880, 122886), (122888, 122904), (122907, 122913), (122915, 122916), (122918, 122922),
     (123184, 123197), (123566, 123566), (123628, 123631), (125136, 125142), (125252, 125259),
     (127995, 127999), (917505, 917505), (917536, 917631), (917760, 917999)]"

fun lookupLower :: "(nat \<times> nat \<times> nat \<times> nat) list \<Rightarrow> nat \<Rightarrow> nat" where
  "lookupLower [] c = c"
| "lookupLower ((lo, hi, step, target) # ranges) c =
     (if c < lo then c
      else if c \<le> hi \<and> (c - lo) mod step = 0 then target + (c - lo)
      else lookupLower ranges c)"

fun inRanges :: "(nat \<times> nat) list \<Rightarrow> nat \<Rightarrow> bool" where
  "inRanges [] c = False"
| "inRanges ((lo, hi) # ranges) c =
     (if c < lo then False else if c \<le> hi then True else inRanges ranges c)"

definition simpleLower :: "nat \<Rightarrow> nat" where
  "simpleLower c = (if c < 128 then toLowerAscii c else lookupLower lowerRanges c)"

text \<open>Whether the code points start with a cased letter, the ones that case ignores being
  passed over. The code points before a position are given from the nearest one on.\<close>

fun casedNext :: "nat list \<Rightarrow> bool" where
  "casedNext [] = False"
| "casedNext (c # cs) =
     (if inRanges caseIgnorableRanges c then casedNext cs else inRanges casedRanges c)"

fun toCodePoints :: "jsstring \<Rightarrow> nat list" where
  "toCodePoints (h # l # rest) =
     (if 0xD800 \<le> h \<and> h \<le> 0xDBFF \<and> 0xDC00 \<le> l \<and> l \<le> 0xDFFF
      then (0x10000 + (h - 0xD800) * 0x400 + (l - 0xDC00)) # toCodePoints rest
      else h # toCodePoints (l # rest))"
| "toCodePoints [c] = [c]"
| "toCodePoints [] = []"

definition fromCodePoint :: "nat \<Rightarrow> jsstring" where
  "fromCodePoint c =
     (if c < 0x10000 then [c]
      else [0xD800 + (c - 0x10000) div 0x400, 0xDC00 + (c - 0x10000) mod 0x400])"

fun lowerPoints :: "nat list \<Rightarrow> nat list \<Rightarrow> nat list" where
  "lowerPoints preceding [] = []"
| "lowerPoints preceding (c # rest) =
     (if c = 0x3A3 then [if casedNext preceding \<and> \<not> casedNext rest then 0x3C2 else 0x3C3]
      else if c = 0x130 then [0x69, 0x307]
      else [simpleLower c]) @ lowerPoints (c # preceding) rest"

definition toLowerCase :: "jsstring \<Rightarrow> jsstring" where
  "toLowerCase s = concat (map fromCodePoint (lowerPoints [] (toCodePoints s)))"

section \<open>The mention detector: \<open>isBotMentioned\<close> and \<open>removeBotMention\<close>\<close>

definition tokAyahVariations :: "jsstring list" where
  "tokAyahVariations =
     [js ''tok ayah'', js ''tokayah'', js ''tok ayoh'', js ''tokayoh'',
      js ''tok aya'', js ''tokaya'', js ''tokayahh'', js ''tok ayahh'']"

text \<open>\<open>botUsername\<close> is the empty string until the first message has been seen, then the
  bot's user name.\<close>

definition isBotMentioned :: "jsstring \<Rightarrow> jsstring \<Rightarrow> bool" where
  "isBotMentioned botUsername text =
     (let lowerText = toLowerCase text; lowerUsername = toLowerCase botUsername in
      if botUsername \<noteq> [] \<and>
         (includesStr lowerText (js ''@'' @ lowerUsername) \<or> includesStr lowerText lowerUsername)
      then True
      else list_ex (\<lambda>variation. includesStr lowerText variation) tokAyahVariations)"

text \<open>\<open>new RegExp(`${botUsername}\\s*`, 'gi')\<close>, and the same with \<open>@\<close> in front. A Telegram user
  name is made of letters, digits and underscores, so it stands for itself in the pattern.\<close>

definition usernameMatcher :: "jsstring \<Rightarrow> matcher" where
  "usernameMatcher name prev s =
     (if ciPrefix name s
      then Some (length name + length (takeWhile isWhiteSpace (drop (length name) s)), [])
      else None)"

text \<open>\<open>new RegExp(`\\b(tok ayah|tokayah|...)\\b[,\\s]*`, 'gi')\<close>: the first alternative, in the
  order of the list, that is followed by a word boundary; then every comma and white space
  character that follows.\<close>

definition aliasAt :: "jsstring \<Rightarrow> jsstring \<Rightarrow> bool" where
  "aliasAt s v \<longleftrightarrow>
     ciPrefix v s \<and> wordBoundary (headOpt (rev (take (length v) s))) (drop (length v) s)"

definition aliasMatcher :: matcher where
  "aliasMatcher prev s =
     (if wordBoundary prev s then
        (case find (aliasAt s) tokAyahVariations of
           None \<Rightarrow> None
         | Some v \<Rightarrow>
             Some (length v +
                   length (takeWhile (\<lambda>c. c = 44 \<or> isWhiteSpace c) (drop (length v) s)), []))
      else None)"

text \<open>\<open>cleaned.replace(/^[,\\s]+/, '')\<close>. In a regular expression literal \<open>\\\<close> is a backslash and
  the \<open>s\<close> after it is the letter, so the class holds the comma (44), the backslash (92) and
  the letter s (115).\<close>

definition stripLeadingPunctuation :: "jsstring \<Rightarrow> jsstring" where
  "stripLeadingPunctuation s = dropWhile (\<lambda>c. c = 44 \<or> c = 92 \<or> c = 115) s"

definition removeBotMention :: "jsstring \<Rightarrow> jsstring \<Rightarrow> jsstring" where
  "removeBotMention botUsername text =
     (let cleaned = text;
          cleaned = (if botUsername \<noteq> []
                     then replaceAll (usernameMatcher botUsername)
                            (replaceAll (usernameMatcher (js ''@'' @ botUsername)) cleaned)
                     else cleaned);
          cleaned = replaceAll aliasMatcher cleaned;
          cleaned = stripLeadingPunctuation cleaned
      in trim cleaned)"

section \<open>The output formatter: \<open>formatResponseForTelegram\<close> and \<open>simpleFormatting\<close>\<close>

text \<open>\<open>/</g\<close> and \<open>/>/g\<close>: one code unit.\<close>

definition charMatcher :: "nat \<Rightarrow> jsstring \<Rightarrow> matcher" where
  "charMatcher x rep prev s =
     (case s of [] \<Rightarrow> None | c # _ \<Rightarrow> if c = x then Some (1, rep) else None)"

text \<open>\<open>/^### (.*?)$/gm\<close> and its like: a line that starts with the prefix. \<open>.\<close> takes no line
  terminator and \<open>$\<close> holds only before one or at the end, so the group is the rest of the
  line; \<open>render\<close> makes the replacement from the group.\<close>

definition lineMatcher :: "jsstring \<Rightarrow> (jsstring \<Rightarrow> jsstring) \<Rightarrow> matcher" where
  "lineMatcher pre render prev s =
     (if lineStart prev \<and> prefix pre s
      then let body = takeWhile (\<lambda>c. \<not> isLineTerminator c) (drop (length pre) s)
           in Some (length pre + length body, render body)
      else None)"

text \<open>The group of \<open>(.*?)\<close> followed by the literal \<open>close\<close>: the shortest run of code units
  other than line terminators after which \<open>close\<close> stands.\<close>

fun lazyUntil :: "jsstring \<Rightarrow> jsstring \<Rightarrow> jsstring option" where
  "lazyUntil close [] = (if close = [] then Some [] else None)"
| "lazyUntil close (c # cs) =
     (if prefix close (c # cs) then Some []
      else if isLineTerminator c then None
      else map_option (\<lambda>body. c # body) (lazyUntil close cs))"

text \<open>\<open>/\*\*(.*?)\*\*/g\<close> and \<open>/\*(.*?)\*/g\<close>: the group between two delimiters; \<open>render\<close>
  makes the replacement from the group.\<close>

definition spanMatcher :: "jsstring \<Rightarrow> (jsstring \<Rightarrow> jsstring) \<Rightarrow> matcher" where
  "spanMatcher delim render prev s =
     (if prefix delim s
      then (case lazyUntil delim (drop (length delim) s) of
              None \<Rightarrow> None
            | Some body \<Rightarrow> Some (length delim + length body + length delim, render body))
      else None)"

text \<open>\<open>/^- /gm\<close>: the prefix at the start of a line.\<close>

definition linePrefixMatcher :: "jsstring \<Rightarrow> jsstring \<Rightarrow> matcher" where
  "linePrefixMatcher pre rep prev s =
     (if lineStart prev \<and> prefix pre s then Some (length pre, rep) else None)"

text \<open>\<open>/^\d\. /gm\<close>.\<close>

definition numberedMatcher :: "jsstring \<Rightarrow> matcher" where
  "numberedMatcher rep prev s =
     (if lineStart prev
      then (case s of
              d # p # b # _ \<Rightarrow> if isDigit d \<and> p = 46 \<and> b = 32 then Some (3, rep) else None
            | _ \<Rightarrow> None)
      else None)"

text \<open>\<open>/\n\s*\n/g\<close>: a line feed, then white space up to the last line feed of the run of white
  space that follows; no match when that run has no line feed.\<close>

definition blankLinesMatcher :: matcher where
  "blankLinesMatcher prev s =
     (case s of
        [] \<Rightarrow> None
      | c # cs \<Rightarrow>
          if c = 10
          then let n = length (dropWhile (\<lambda>x. x \<noteq> 10) (rev (takeWhile isWhiteSpace cs)))
               in if n = 0 then None else Some (1 + n, js ''\<newline>\<newline>'')
          else None)"

text \<open>\<open>/></g\<close>, \<open>/([^\s])<(b|i)>/g\<close> and \<open>/<\/(b|i)>([^\s])/g\<close>.\<close>

definition adjacentTagsMatcher :: matcher where
  "adjacentTagsMatcher prev s = (if prefix (js ''><'') s then Some (2, js ''> <'') else None)"

definition beforeTagMatcher :: matcher where
  "beforeTagMatcher prev s =
     (case s of
        c # lt # t # gt # _ \<Rightarrow>
          if \<not> isWhiteSpace c \<and> lt = 60 \<and> (t = 98 \<or> t = 105) \<and> gt = 62
          then Some (4, [c, 32, 60, t, 62]) else None
      | _ \<Rightarrow> None)"

definition afterTagMatcher :: matcher where
  "afterTagMatcher prev s =
     (case s of
        lt # sl # t # gt # c # _ \<Rightarrow>
          if lt = 60 \<and> sl = 47 \<and> (t = 98 \<or> t = 105) \<and> gt = 62 \<and> \<not> isWhiteSpace c
          then Some (5, [60, 47, t, 62, 32, c]) else None
      | _ \<Rightarrow> None)"

text \<open>The matches of \<open>/<\/?[bi]>/g\<close>, from left to right. A tag starts with \<open><\<close> and has no other
  \<open><\<close>, so two matches never overlap.\<close>

fun tagSequence :: "jsstring \<Rightarrow> jsstring list" where
  "tagSequence [] = []"
| "tagSequence (c # cs) =
     (if prefix (js ''<b>'') (c # cs) then js ''<b>'' # tagSequence cs
      else if prefix (js ''<i>'') (c # cs) then js ''<i>'' # tagSequence cs
      else if prefix (js ''</b>'') (c # cs) then js ''</b>'' # tagSequence cs
      else if prefix (js ''</i>'') (c # cs) then js ''</i>'' # tagSequence cs
      else tagSequence cs)"

text \<open>The validation loop: the stack (top first) and the tags still to come. The result is
  \<open>isValid && stack.length === 0\<close>.\<close>

fun validateTags :: "jsstring list \<Rightarrow> jsstring list \<Rightarrow> bool" where
  "validateTags stack [] = (stack = [])"
| "validateTags stack (tag # rest) =
     (if prefix (js ''</'') tag
      then (case stack of
              [] \<Rightarrow> False
            | expectedTag # stack' \<Rightarrow>
                if \<not> includesStr tag (butlast (tl expectedTag)) then False
                else validateTags stack' rest)
      else validateTags (tag # stack) rest)"

definition tagsValid :: "jsstring \<Rightarrow> bool" where
  "tagsValid formatted = validateTags [] (tagSequence formatted)"

text \<open>The markers of the plain rendering: U+25B6, U+25C0, U+2022 and U+00BB.\<close>

definition simpleFormatting :: "jsstring \<Rightarrow> jsstring" where
  "simpleFormatting text =
     trim
      (replaceAll blankLinesMatcher
      (replaceAll (linePrefixMatcher (js ''- '') ([0x2022] @ js '' ''))
      (replaceAll (numberedMatcher ([0x2022] @ js '' ''))
      (replaceAll (lineMatcher (js ''> '') (\<lambda>g. js ''  '' @ [0xBB] @ js '' '' @ g))
      (replaceAll (spanMatcher (js ''*'') (\<lambda>g. [0x2022] @ js '' '' @ g @ js '' '' @ [0x2022]))
      (replaceAll (spanMatcher (js ''**'') (\<lambda>g. [0x25B6] @ js '' '' @ g @ js '' '' @ [0x25C0]))
      (replaceAll (lineMatcher (js ''# '') (\<lambda>g. [0x25B6] @ js '' '' @ g))
      (replaceAll (lineMatcher (js ''## '') (\<lambda>g. [0x25B6] @ js '' '' @ g))
      (replaceAll (lineMatcher (js ''### '') (\<lambda>g. [0x25B6] @ js '' '' @ g)) text)))))))))"

definition escapeHtml :: "jsstring \<Rightarrow> jsstring" where
  "escapeHtml text = replaceAll (charMatcher 62 (js ''&gt;'')) (replaceAll (charMatcher 60 (js ''&lt;'')) text)"

definition applyFormatting :: "jsstring \<Rightarrow> jsstring" where
  "applyFormatting formatted =
     trim
      (replaceAll blankLinesMatcher
      (replaceAll (linePrefixMatcher (js ''- '') (js ''\<newline>'' @ [0x2022] @ js '' ''))
      (replaceAll (numberedMatcher (js ''\<newline>'' @ [0x2022] @ js '' ''))
      (replaceAll (lineMatcher (js ''> '') (\<lambda>g. js ''\<newline><i>'' @ g @ js ''</i>\<newline>''))
      (replaceAll (spanMatcher (js ''*'') (\<lambda>g. js ''<i>'' @ g @ js ''</i>''))
      (replaceAll (spanMatcher (js ''**'') (\<lambda>g. js ''<b>'' @ g @ js ''</b>''))
      (replaceAll (lineMatcher (js ''# '') (\<lambda>g. js ''<b>'' @ g @ js ''</b>''))
      (replaceAll (lineMatcher (js ''## '') (\<lambda>g. js ''<b>'' @ g @ js ''</b>''))
      (replaceAll (lineMatcher (js ''### '') (\<lambda>g. js ''<b>'' @ g @ js ''</b>'')) formatted)))))))))"

definition addSpacing :: "jsstring \<Rightarrow> jsstring" where
  "addSpacing formatted =
     replaceAll afterTagMatcher (replaceAll beforeTagMatcher (replaceAll adjacentTagsMatcher formatted))"

text \<open>Nothing inside the \<open>try\<close> block throws, so the \<open>catch\<close> branch is never taken.\<close>

definition formatResponseForTelegram :: "jsstring \<Rightarrow> jsstring" where
  "formatResponseForTelegram text =
     (let formatted = escapeHtml text;
          formatted = applyFormatting formatted;
          formatted = addSpacing formatted
      in if \<not> tagsValid formatted then simpleFormatting text else formatted)"

text \<open>The characters the plain rendering writes of its own: the three bullets, the guillemet,
  the space and the line feed.\<close>

definition plainMarks :: "nat set" where
  "plainMarks = {0x2022, 0x25B6, 0x25C0, 0xBB, 32, 10}"

section \<open>The responders: \<open>BaseIslamicAgent\<close>, its five specialists and \<open>OpinionAgent\<close>\<close>

subsection \<open>Numbers and values of JavaScript\<close>

text \<open>
  A number is a double: not a number, an infinity, or a rational. The literals of the source
  stand for the doubles they denote: \<open>0.1\<close> is \<open>0x1.999999999999ap-4\<close>, \<open>0.3\<close> is
  \<open>0x1.3333333333333p-2\<close> and \<open>0.7\<close> is \<open>0x1.6666666666666p-1\<close>. \<open>parseFloat\<close> is a primitive of
  the language; the functions that call it take it as a parameter.
\<close>

datatype jsnumber = NaN | NegInfinity | Finite rat | PosInfinity

fun num_ge :: "jsnumber \<Rightarrow> jsnumber \<Rightarrow> bool" where
  "num_ge NaN _ = False"
| "num_ge _ NaN = False"
| "num_ge PosInfinity _ = True"
| "num_ge _ NegInfinity = True"
| "num_ge (Finite a) (Finite b) = (b \<le> a)"
| "num_ge _ _ = False"

fun num_gt :: "jsnumber \<Rightarrow> jsnumber \<Rightarrow> bool" where
  "num_gt NaN _ = False"
| "num_gt _ NaN = False"
| "num_gt PosInfinity PosInfinity = False"
| "num_gt PosInfinity _ = True"
| "num_gt NegInfinity _ = False"
| "num_gt (Finite a) NegInfinity = True"
| "num_gt (Finite a) (Finite b) = (b < a)"
| "num_gt (Finite a) PosInfinity = False"

definition double_0_1 :: rat where
  "double_0_1 = 3602879701896397 / 36028797018963968"

definition double_0_3 :: rat where
  "double_0_3 = 5404319552844595 / 18014398509481984"

definition double_0_7 :: rat where
  "double_0_7 = 3152519739159347 / 4503599627370496"

text \<open>The values a call of \<open>shouldRespond\<close> can hand to the router, which asks for their
  \<open>typeof\<close>.\<close>

datatype jsvalue = JSBoolean bool | JSNumber jsnumber

text \<open>\<open>typeof v === 'number'\<close>, and the number a value stands for in a comparison.\<close>

definition typeofIsNumber :: "jsvalue \<Rightarrow> bool" where
  "typeofIsNumber v = (case v of JSNumber _ \<Rightarrow> True | JSBoolean _ \<Rightarrow> False)"

definition toNumber :: "jsvalue \<Rightarrow> jsnumber" where
  "toNumber v = (case v of JSNumber n \<Rightarrow> n | JSBoolean b \<Rightarrow> Finite (if b then 1 else 0))"

subsection \<open>The generation service\<close>

text \<open>
  A rejected promise or a thrown exception is an \<open>error\<close>: \<open>GenerationError\<close> when the HTTP
  request fails, \<open>TypeError\<close> when the reply has no \<open>choices\<close>. Every agent has an HTTP client of
  its own (\<open>axios.create\<close> in the constructor): a function from the request (messages,
  temperature, \<open>max_tokens\<close>) to the failure or to \<open>data.choices\<close> (\<open>None\<close> when the field is
  missing), each choice being its \<open>message?.content\<close> (\<open>None\<close> when missing).
  The first arguments of the calls of \<open>console.error\<close> are collected in a list; the calls of
  \<open>console.log\<close> are left out. Where calls run concurrently under \<open>Promise.all\<close>, the list has
  them in the order of the agents.
\<close>

datatype error = GenerationError | TypeError

datatype role = System | User | Assistant

type_synonym DeepseekMessage = "role \<times> jsstring"

type_synonym client = "DeepseekMessage list \<Rightarrow> rat \<Rightarrow> nat \<Rightarrow> error + jsstring option list option"

type_synonym console = "jsstring list"

definition createChatCompletion ::
  "client \<Rightarrow> DeepseekMessage list \<Rightarrow> rat \<Rightarrow> nat \<Rightarrow> (error + jsstring) \<times> console" where
  "createChatCompletion post messages temperature max_tokens =
     (case post messages temperature max_tokens of
        Inl e \<Rightarrow> (Inl e, [js ''Error calling DeepSeek API:''])
      | Inr None \<Rightarrow> (Inl TypeError, [js ''Error calling DeepSeek API:''])
      | Inr (Some choices) \<Rightarrow>
          (Inr (case choices of
                  [] \<Rightarrow> []
                | None # _ \<Rightarrow> []
                | Some content # _ \<Rightarrow> content), []))"

subsection \<open>The classes\<close>

text \<open>Of \<open>AgentConfig\<close>, the fields that the methods below read.\<close>

record AgentConfig =
  groupIds :: "jsstring list"
  responseThreshold :: rat

datatype agentClass =
  FatwaAgent | MazhabAgent | JakimAgent | MalaysianFatwaAgent | IbadhahAgent | OpinionAgent

text \<open>An instance: its class, its \<open>config\<close>, its \<open>deepseekClient\<close> and, for the \<open>OpinionAgent\<close>, its
  \<open>otherAgents\<close> (empty for the other classes).\<close>

datatype agent =
  Agent (agentClass: agentClass) (config: AgentConfig) (deepseekClient: client)
    (otherAgents: "agent list")

definition FatwaAgent_getKeywords :: "jsstring list" where
  "FatwaAgent_getKeywords =
     [js ''fatwa'', js ''ruling'', js ''halal'', js ''haram'', js ''permissible'',
      js ''forbidden'', js ''islamic law'', js ''shariah'', js ''syariah'', js ''hukum'',
      js ''dalil'', js ''quran'', js ''hadith'', js ''sunnah'', js ''islamic ruling'']"

definition MazhabAgent_getKeywords :: "jsstring list" where
  "MazhabAgent_getKeywords =
     [js ''mazhab'', js ''shafi'i'', js ''hanafi'', js ''maliki'', js ''hanbali'',
      js ''school of thought'', js ''imam shafi'i'', js ''fiqh'', js ''usul fiqh'',
      js ''comparative fiqh'', js ''ikhtilaf'', js ''difference of opinion'']"

definition JakimAgent_getKeywords :: "jsstring list" where
  "JakimAgent_getKeywords =
     [js ''jakim'', js ''halal certification'', js ''malaysian islamic development'',
      js ''jabatan kemajuan islam malaysia'', js ''halal logo'', js ''halal status'',
      js ''islamic administration'', js ''halal certificate'', js ''halal requirements'']"

definition MalaysianFatwaAgent_getKeywords :: "jsstring list" where
  "MalaysianFatwaAgent_getKeywords =
     [js ''malaysian fatwa'', js ''state fatwa'', js ''national fatwa council'',
      js ''majlis fatwa'', js ''mufti'', js ''malaysian islamic ruling'',
      js ''state islamic authority'', js ''fatwa committee'']"

definition IbadhahAgent_getKeywords :: "jsstring list" where
  "IbadhahAgent_getKeywords =
     [js ''ibadah'', js ''worship'', js ''prayer'', js ''solat'', js ''puasa'',
      js ''fasting'', js ''zakat'', js ''hajj'', js ''umrah'', js ''malaysian customs'',
      js ''adat'', js ''local practices'', js ''cultural islam'',
      js ''traditional practices'']"

definition OpinionAgent_getKeywords :: "jsstring list" where
  "OpinionAgent_getKeywords =
     [js ''opinion'', js ''view'', js ''perspective'', js ''think'', js ''consider'',
      js ''analysis'', js ''evaluate'', js ''assessment'', js ''stance'', js ''position'',
      js ''comprehensive'', js ''overall'', js ''complete'', js ''thorough'',
      js ''pendapat'', js ''pandangan'', js ''fikir'', js ''rasa'', js ''bagaimana'',
      js ''macam mana'', js ''apa kata'', js ''berkenaan'', js ''tentang'', js ''pasal'',
      js ''mengenai'', js ''berkaitan'', js ''fikiran'', js ''pertimbangan'',
      js ''pendirian'', js ''hukum'', js ''dalil'', js ''fatwa'']"

fun getKeywords :: "agentClass \<Rightarrow> jsstring list" where
  "getKeywords FatwaAgent = FatwaAgent_getKeywords"
| "getKeywords MazhabAgent = MazhabAgent_getKeywords"
| "getKeywords JakimAgent = JakimAgent_getKeywords"
| "getKeywords MalaysianFatwaAgent = MalaysianFatwaAgent_getKeywords"
| "getKeywords IbadhahAgent = IbadhahAgent_getKeywords"
| "getKeywords OpinionAgent = OpinionAgent_getKeywords"

definition FatwaAgent_getTopics :: "jsstring list" where
  "FatwaAgent_getTopics =
     [js ''General Islamic rulings'', js ''Malaysian Islamic context'',
      js ''Sharia compliance'', js ''Islamic guidance'', js ''Religious verdicts'',
      js ''Islamic principles'']"

definition MazhabAgent_getTopics :: "jsstring list" where
  "MazhabAgent_getTopics =
     [js ''Shafi'i school of thought'', js ''Comparative Islamic jurisprudence'',
      js ''Mazhab differences'', js ''Fiqh rulings'', js ''Islamic legal methodology'']"

definition JakimAgent_getTopics :: "jsstring list" where
  "JakimAgent_getTopics =
     [js ''JAKIM administration'', js ''Halal certification'',
      js ''Malaysian Islamic regulations'', js ''Official Islamic guidelines'',
      js ''Halal compliance'', js ''Islamic development in Malaysia'']"

definition MalaysianFatwaAgent_getTopics :: "jsstring list" where
  "MalaysianFatwaAgent_getTopics =
     [js ''Malaysian fatwa rulings'', js ''State-specific Islamic rulings'',
      js ''National Fatwa Council decisions'', js ''Malaysian Islamic legal opinions'',
      js ''State Mufti declarations'']"

definition IbadhahAgent_getTopics :: "jsstring list" where
  "IbadhahAgent_getTopics =
     [js ''Islamic worship practices'', js ''Malaysian Muslim customs'',
      js ''Local religious traditions'', js ''Cultural Islamic practices'',
      js ''Religious rituals in Malaysia'']"

definition OpinionAgent_getTopics :: "jsstring list" where
  "OpinionAgent_getTopics =
     [js ''Islamic opinions'', js ''Comprehensive analysis'', js ''Multiple perspectives'',
      js ''Balanced view'', js ''Thorough evaluation'', js ''Pandangan Islam'',
      js ''Analisis komprehensif'', js ''Pelbagai perspektif'', js ''Pandangan seimbang'',
      js ''Penilaian menyeluruh'']"

fun getTopics :: "agentClass \<Rightarrow> jsstring list" where
  "getTopics FatwaAgent = FatwaAgent_getTopics"
| "getTopics MazhabAgent = MazhabAgent_getTopics"
| "getTopics JakimAgent = JakimAgent_getTopics"
| "getTopics MalaysianFatwaAgent = MalaysianFatwaAgent_getTopics"
| "getTopics IbadhahAgent = IbadhahAgent_getTopics"
| "getTopics OpinionAgent = OpinionAgent_getTopics"

definition FatwaAgent_getSystemPrompt :: "jsstring" where
  "FatwaAgent_getSystemPrompt =
     js ''You are a knowledgeable Islamic scholar well-versed in Malaysian '' @
     js ''Islamic context.\<newline>'' @
     js ''Your role is to provide accurate Islamic guidance while:\<newline>'' @
     js ''- Primarily referencing Shafi'i mazhab rulings\<newline>'' @
     js ''- Considering Malaysian context and local customs\<newline>'' @
     js ''- Citing relevant Quran verses and Hadith (always in '' @ js ''italics)\<newline>'' @
     js ''- Mentioning relevant Malaysian fatwa when applicable\<newline>'' @
     js ''- Being respectful and clear in explanations\<newline>'' @
     js ''- Acknowledging when a question needs official fatwa ruling\<newline>'' @
     js ''\<newline>'' @
     js ''Format your responses using these rules:\<newline>'' @
     js ''1. Use ### for section headers\<newline>'' @
     js ''2. Use ** for bold text (important terms, rulings, '' @
     js ''conclusions)\<newline>'' @
     js ''3. Use * for italic text (quotes, Arabic terms)\<newline>'' @
     js ''4. Use > for Quran verses and Hadith\<newline>'' @
     js ''5. Use - or 1. for lists\<newline>'' @
     js ''6. Structure your response with clear sections:\<newline>'' @
     js ''   - Main ruling or answer\<newline>'' @
     js ''   - Evidence (Quran, Hadith, Scholarly opinions)\<newline>'' @
     js ''   - Malaysian context\<newline>'' @
     js ''   - Conclusion''"

definition MazhabAgent_getSystemPrompt :: "jsstring" where
  "MazhabAgent_getSystemPrompt =
     js ''You are an expert in Shafi'i mazhab, the predominant school of '' @
     js ''thought in Malaysia.\<newline>'' @
     js ''Your role is to:\<newline>'' @
     js ''- Explain Shafi'i rulings on various matters\<newline>'' @
     js ''- Compare with other mazhabs when relevant\<newline>'' @
     js ''- Provide evidence from authenticated sources\<newline>'' @
     js ''- Consider Malaysian context in explanations\<newline>'' @
     js ''- Highlight differences in rulings between mazhabs when '' @
     js ''applicable\<newline>'' @
     js ''\<newline>'' @
     js ''Format your responses using these rules:\<newline>'' @
     js ''1. Use ### for section headers\<newline>'' @
     js ''2. Use ** for bold text (important terms, rulings, '' @
     js ''conclusions)\<newline>'' @
     js ''3. Use * for italic text (quotes, Arabic terms)\<newline>'' @
     js ''4. Use > for Quran verses and Hadith\<newline>'' @
     js ''5. Use - or 1. for lists\<newline>'' @
     js ''6. Structure your response with clear sections:\<newline>'' @
     js ''   - Main ruling or answer\<newline>'' @
     js ''   - Evidence (Quran, Hadith, Scholarly opinions)\<newline>'' @
     js ''   - Malaysian context\<newline>'' @
     js ''   - Conclusion''"

definition JakimAgent_getSystemPrompt :: "jsstring" where
  "JakimAgent_getSystemPrompt =
     js ''You are a JAKIM (Jabatan Kemajuan Islam Malaysia) '' @ js ''specialist.\<newline>'' @
     js ''Your role is to:\<newline>'' @
     js ''- Provide information about JAKIM guidelines and regulations\<newline>'' @
     js ''- Explain halal certification processes\<newline>'' @
     js ''- Address questions about Malaysian Islamic administration\<newline>'' @
     js ''- Reference official JAKIM statements and documents\<newline>'' @
     js ''- Guide users to relevant JAKIM resources and services\<newline>'' @
     js ''\<newline>'' @
     js ''Format your responses using these rules:\<newline>'' @
     js ''1. Use ### for section headers\<newline>'' @
     js ''2. Use ** for bold text (important terms, rulings, '' @
     js ''conclusions)\<newline>'' @
     js ''3. Use * for italic text (quotes, Arabic terms)\<newline>'' @
     js ''4. Use > for Quran verses and Hadith\<newline>'' @
     js ''5. Use - or 1. for lists\<newline>'' @
     js ''6. Structure your response with clear sections:\<newline>'' @
     js ''   - Main guideline or answer\<newline>'' @
     js ''   - Official references\<newline>'' @
     js ''   - Practical steps\<newline>'' @
     js ''   - Additional resources''"

definition MalaysianFatwaAgent_getSystemPrompt :: "jsstring" where
  "MalaysianFatwaAgent_getSystemPrompt =
     js ''You are an expert in Malaysian Islamic fatwa.\<newline>'' @
     js ''Your role is to:\<newline>'' @
     js ''- Reference decisions by the National Fatwa Council\<newline>'' @
     js ''- Consider state-specific fatwa rulings\<newline>'' @
     js ''- Explain the context and reasoning behind fatwa decisions\<newline>'' @
     js ''- Highlight differences between state fatwa when applicable\<newline>'' @
     js ''- Guide users on finding official fatwa resources\<newline>'' @
     js ''\<newline>'' @
     js ''Format your responses using these rules:\<newline>'' @
     js ''1. Use ### for section headers\<newline>'' @
     js ''2. Use ** for bold text (important terms, rulings, '' @
     js ''conclusions)\<newline>'' @
     js ''3. Use * for italic text (quotes, Arabic terms)\<newline>'' @
     js ''4. Use > for Quran verses and Hadith\<newline>'' @
     js ''5. Use - or 1. for lists\<newline>'' @
     js ''6. Structure your response with clear sections:\<newline>'' @
     js ''   - Main fatwa ruling\<newline>'' @
     js ''   - Supporting evidence\<newline>'' @
     js ''   - State variations\<newline>'' @
     js ''   - Practical implementation''"

definition IbadhahAgent_getSystemPrompt :: "jsstring" where
  "IbadhahAgent_getSystemPrompt =
     js ''You are an expert in Malaysian Islamic customs and '' @ js ''practices.\<newline>'' @
     js ''Your role is to:\<newline>'' @
     js ''- Address questions about local Islamic practices\<newline>'' @
     js ''- Explain the permissibility of Malaysian customs\<newline>'' @
     js ''- Reference relevant fatwa on cultural practices\<newline>'' @
     js ''- Consider both Islamic principles and local context\<newline>'' @
     js ''- Guide on proper conduct of Islamic practices in Malaysian '' @
     js ''setting\<newline>'' @
     js ''\<newline>'' @
     js ''Format your responses using these rules:\<newline>'' @
     js ''1. Use ### for section headers\<newline>'' @
     js ''2. Use ** for bold text (important terms, rulings, '' @
     js ''conclusions)\<newline>'' @
     js ''3. Use * for italic text (quotes, Arabic terms)\<newline>'' @
     js ''4. Use > for Quran verses and Hadith\<newline>'' @
     js ''5. Use - or 1. for lists\<newline>'' @
     js ''6. Structure your response with clear sections:\<newline>'' @
     js ''   - Main practice explanation\<newline>'' @
     js ''   - Islamic basis\<newline>'' @
     js ''   - Local customs\<newline>'' @
     js ''   - Proper implementation''"

definition OpinionAgent_getSystemPrompt :: "jsstring" where
  "OpinionAgent_getSystemPrompt =
     js ''You are an expert Islamic scholar tasked with synthesizing multiple '' @
     js ''perspectives into a comprehensive opinion.\<newline>'' @
     js ''Your role is to:\<newline>'' @
     js ''- Analyze and combine different Islamic viewpoints\<newline>'' @
     js ''- Consider fatwa rulings, mazhab differences, and local '' @
     js ''context\<newline>'' @
     js ''- Highlight areas of agreement and disagreement\<newline>'' @
     js ''- Provide a balanced and well-reasoned conclusion\<newline>'' @
     js ''- Acknowledge complexity when present\<newline>'' @
     js ''- Maintain respect for differing opinions\<newline>'' @
     js ''\<newline>'' @
     js ''When synthesizing the perspectives:\<newline>'' @
     js ''- Give equal consideration to all viewpoints\<newline>'' @
     js ''- Identify common threads and principles\<newline>'' @
     js ''- Note any regional or contextual factors specific to '' @
     js ''Malaysia\<newline>'' @
     js ''- Provide practical guidance for implementation\<newline>'' @
     js ''- Reference relevant Quran verses and Hadith when applicable\<newline>'' @
     js ''- Acknowledge areas where further scholarly consultation may be '' @
     js ''needed\<newline>'' @
     js ''\<newline>'' @
     js ''Respond in the same language as the question (Malay or '' @
     js ''English).\<newline>'' @
     js ''For Malay questions, use appropriate Islamic terminology in '' @
     js ''Malay.\<newline>'' @
     js ''\<newline>'' @
     js ''Format your responses using these rules:\<newline>'' @
     js ''1. Use ### for section headers\<newline>'' @
     js ''2. Use ** for bold text (important terms, rulings, '' @
     js ''conclusions)\<newline>'' @
     js ''3. Use * for italic text (quotes, Arabic terms)\<newline>'' @
     js ''4. Use > for Quran verses and Hadith\<newline>'' @
     js ''5. Use - or 1. for lists\<newline>'' @
     js ''6. Structure your response with clear sections:\<newline>'' @
     js ''   ### Summary of Perspectives\<newline>'' @
     js ''   [Brief overview of all viewpoints]\<newline>'' @
     js ''\<newline>'' @
     js ''   ### Key Points of Agreement\<newline>'' @
     js ''   [Areas where all or most perspectives align]\<newline>'' @
     js ''\<newline>'' @
     js ''   ### Important Considerations\<newline>'' @
     js ''   [Critical factors and nuances to consider]\<newline>'' @
     js ''\<newline>'' @
     js ''   ### Malaysian Context\<newline>'' @
     js ''   [Specific relevance to Malaysian Muslims]\<newline>'' @
     js ''\<newline>'' @
     js ''   ### Practical Implementation\<newline>'' @
     js ''   [How to apply this guidance in daily life]\<newline>'' @
     js ''\<newline>'' @
     js ''   ### Comprehensive Conclusion\<newline>'' @
     js ''   [Final synthesized opinion with key recommendations]''"

fun getSystemPrompt :: "agentClass \<Rightarrow> jsstring" where
  "getSystemPrompt FatwaAgent = FatwaAgent_getSystemPrompt"
| "getSystemPrompt MazhabAgent = MazhabAgent_getSystemPrompt"
| "getSystemPrompt JakimAgent = JakimAgent_getSystemPrompt"
| "getSystemPrompt MalaysianFatwaAgent = MalaysianFatwaAgent_getSystemPrompt"
| "getSystemPrompt IbadhahAgent = IbadhahAgent_getSystemPrompt"
| "getSystemPrompt OpinionAgent = OpinionAgent_getSystemPrompt"

text \<open>\<open>xs.join(sep)\<close>.\<close>

fun join :: "jsstring \<Rightarrow> jsstring list \<Rightarrow> jsstring" where
  "join sep [] = []"
| "join sep [x] = x"
| "join sep (x # xs) = x @ sep @ join sep xs"

subsection \<open>\<open>shouldRespond\<close>\<close>

definition relevancePrompt :: "agentClass \<Rightarrow> jsstring" where
  "relevancePrompt c =
      js ''You are an expert in determining if a question matches specific '' @
      js ''Islamic topics.\<newline>'' @
      js ''Given the following specialization:\<newline>'' @
      js ''Topics: '' @
      join (js '', '') (getTopics c) @
      js ''\<newline>'' @
      js ''Keywords: '' @
      join (js '', '') (getKeywords c) @
      js ''\<newline>'' @
      js ''\<newline>'' @
      js ''Respond with a number between 0 and 1 indicating how relevant the '' @
      js ''question is to these topics.\<newline>'' @
      js ''Only respond with the number, nothing else.''"

text \<open>\<open>BaseIslamicAgent.shouldRespond\<close>, and the override of \<open>OpinionAgent\<close>, which returns
  \<open>true\<close> without a call.\<close>

definition shouldRespond ::
  "(jsstring \<Rightarrow> jsnumber) \<Rightarrow> agent \<Rightarrow> jsstring \<Rightarrow> (error + jsvalue) \<times> console" where
  "shouldRespond parseFloat a message =
     (if agentClass a = OpinionAgent then (Inr (JSBoolean True), [])
      else
        (case createChatCompletion (deepseekClient a)
                [(System, relevancePrompt (agentClass a)), (User, message)] double_0_1 10 of
           (Inr response, logs) \<Rightarrow>
             (let relevanceScore = parseFloat (if response = [] then js ''0'' else response)
              in (Inr (JSBoolean (num_ge relevanceScore (Finite (responseThreshold (config a))))),
                  logs))
         | (Inl e, logs) \<Rightarrow>
             (Inr (JSBoolean False), logs @ [js ''Error checking relevance:''])))"

subsection \<open>\<open>generateResponse\<close>\<close>

text \<open>The fixed texts an agent answers with when it has no answer.\<close>

definition apologyNoResponse :: jsstring where
  "apologyNoResponse =
     js ''I apologize, but I could not generate a response at this time.''"

definition apologyError :: jsstring where
  "apologyError =
     js ''I apologize, but I encountered an error while processing your '' @
     js ''question. Please try again later.''"

definition apologyNoOpinion :: jsstring where
  "apologyNoOpinion =
     js ''I apologize, but I could not generate a comprehensive opinion at this '' @
     js ''time.''"

definition baseGenerateResponse :: "agent \<Rightarrow> jsstring \<Rightarrow> (error + jsstring) \<times> console" where
  "baseGenerateResponse a question =
     (case createChatCompletion (deepseekClient a)
             [(System, getSystemPrompt (agentClass a)), (User, question)] double_0_7 1000 of
        (Inr response, logs) \<Rightarrow>
          (Inr (if response = []
                then apologyNoResponse
                else response), logs)
      | (Inl e, logs) \<Rightarrow>
          (Inr apologyError,
           logs @ [js ''Error generating response:'']))"

text \<open>\<open>getAgentType(index)\<close>: \<open>types[index] || 'Additional Perspective'\<close>.\<close>

definition agentTypes :: "jsstring list" where
  "agentTypes =
     [js ''Fatwa Perspective'', js ''Mazhab Analysis'', js ''JAKIM Guidelines'',
      js ''Malaysian Fatwa Council View'', js ''Islamic Practice Context'']"

definition getAgentType :: "nat \<Rightarrow> jsstring" where
  "getAgentType index =
     (if index < length agentTypes then agentTypes ! index else js ''Additional Perspective'')"

text \<open>\<open>Promise.all\<close> over promises that have all been started: every one runs to its end, and
  the result is the list of their values, or the rejection of the first that rejects.\<close>

fun promiseAll :: "((error + 'a) \<times> console) list \<Rightarrow> (error + 'a list) \<times> console" where
  "promiseAll [] = (Inr [], [])"
| "promiseAll ((r, logs) # ps) =
     (case promiseAll ps of
        (rs, logs') \<Rightarrow>
          ((case r of
              Inl e \<Rightarrow> Inl e
            | Inr v \<Rightarrow> (case rs of Inl e \<Rightarrow> Inl e | Inr vs \<Rightarrow> Inr (v # vs))),
           logs @ logs'))"

text \<open>\<open>s.split('\n')\<close>.\<close>

fun splitLines :: "jsstring \<Rightarrow> jsstring list" where
  "splitLines [] = [[]]"
| "splitLines (c # cs) =
     (if c = 10 then [] # splitLines cs
      else (case splitLines cs of [] \<Rightarrow> [[c]] | l # ls \<Rightarrow> (c # l) # ls))"

text \<open>\<open>/^###.*$/gm\<close> replaced by the empty string: a line that starts with \<open>###\<close> loses its
  text.\<close>

definition headerLineMatcher :: matcher where
  "headerLineMatcher = lineMatcher (js ''###'') (\<lambda>body. [])"

definition cleanResponse :: "jsstring \<Rightarrow> jsstring" where
  "cleanResponse response =
     join (js ''\<newline>'')
       (filter (\<lambda>line. length (trim line) > 0)
          (splitLines (replaceAll headerLineMatcher response)))"

definition perspectivesOf :: "(jsstring \<times> jsstring) list \<Rightarrow> jsstring" where
  "perspectivesOf agentResponses =
     join (js ''\<newline>\<newline>'')
       (map (\<lambda>(type, response). type @ js '':\<newline>'' @ cleanResponse response) agentResponses)"

definition synthesisRequest :: "jsstring \<Rightarrow> jsstring \<Rightarrow> jsstring" where
  "synthesisRequest question perspectives =
      js ''Analyze this question from multiple Islamic perspectives and provide '' @
      js ''a comprehensive response:\<newline>'' @
      js ''\<newline>'' @
      js ''Question: '' @
      question @
      js ''\<newline>'' @
      js ''\<newline>'' @
      js ''Here are the different perspectives to consider:\<newline>'' @
      js ''\<newline>'' @
      perspectives @
      js ''\<newline>'' @
      js ''\<newline>'' @
      js ''Please synthesize these viewpoints into a well-structured response '' @
      js ''that addresses all aspects of the question.''"

text \<open>The last step of \<open>OpinionAgent.generateResponse\<close>: the call that makes one answer of
  the collected ones. An error here is caught by the \<open>catch\<close> of \<open>generateResponse\<close>.\<close>

definition synthesize ::
  "client \<Rightarrow> jsstring \<Rightarrow> (jsstring \<times> jsstring) list \<Rightarrow> (error + jsstring) \<times> console" where
  "synthesize post question agentResponses =
     (case createChatCompletion post
             [(System, getSystemPrompt OpinionAgent),
              (User, synthesisRequest question (perspectivesOf agentResponses))]
             double_0_7 2000 of
        (Inr response, logs) \<Rightarrow>
          (Inr (if response = []
                then apologyNoOpinion
                else response), logs)
      | (Inl e, logs) \<Rightarrow>
          (Inr apologyError,
           logs @ [js ''Error generating comprehensive opinion:'']))"

text \<open>\<open>generateResponse\<close>: the method of \<open>BaseIslamicAgent\<close> for the specialists, the override
  for \<open>OpinionAgent\<close>, which calls \<open>generateResponse\<close> of each of its \<open>otherAgents\<close> and labels
  the answers by position.\<close>

function generateResponse :: "agent \<Rightarrow> jsstring \<Rightarrow> (error + jsstring) \<times> console" where
  "generateResponse (Agent cls cfg post others) question =
     (if cls \<noteq> OpinionAgent then baseGenerateResponse (Agent cls cfg post others) question
      else
        (case promiseAll
                (map (\<lambda>(index, agent).
                        (case generateResponse agent question of
                           (r, logs) \<Rightarrow>
                             (map_sum id (\<lambda>response. (getAgentType index, response)) r, logs)))
                   (enumerate 0 others)) of
           (Inl e, logs) \<Rightarrow>
             (Inr apologyError,
              logs @ [js ''Error generating comprehensive opinion:''])
         | (Inr agentResponses, logs) \<Rightarrow>
             (case synthesize post question agentResponses of
                (r, logs') \<Rightarrow> (r, logs @ logs'))))"
  by pat_completeness auto
termination
proof (relation "measure (\<lambda>p. size (fst p))")
  show "wf (measure (\<lambda>p. size (fst p)))" by simp
next
  fix cls :: agentClass and cfg :: AgentConfig and post :: client and others :: "agent list"
    and question :: jsstring and x :: "nat \<times> agent" and index :: nat and a :: agent
  assume "x \<in> set (enumerate 0 others)" and "(index, a) = x"
  then have "a \<in> set others" by (auto simp: in_set_enumerate_eq)
  then have "size a \<le> size_list size others" by (rule size_list_estimation') simp
  then show "((a, question), (Agent cls cfg post others, question)) \<in> measure (\<lambda>p. size (fst p))"
    by simp
qed

text \<open>The fan-out of \<open>OpinionAgent.generateResponse\<close> on its own: the labelled answers of
  \<open>otherAgents\<close>, as \<open>Promise.all\<close> gives them.\<close>

definition fanOut ::
  "agent list \<Rightarrow> jsstring \<Rightarrow> (error + (jsstring \<times> jsstring) list) \<times> console" where
  "fanOut others question =
     promiseAll
       (map (\<lambda>(index, agent).
               (case generateResponse agent question of
                  (r, logs) \<Rightarrow> (map_sum id (\<lambda>response. (getAgentType index, response)) r, logs)))
          (enumerate 0 others))"

section \<open>The router: \<open>AgentManager\<close>\<close>

subsection \<open>\<open>isSimpleInteraction\<close>\<close>

text \<open>\<open>/\bwho\s+(?:are|r)\s*(?:you|u)\b/\<close> at one position, and \<open>lowerText.match(...)\<close>: at some
  position.\<close>

definition youAt :: "jsstring \<Rightarrow> bool" where
  "youAt s \<longleftrightarrow>
     (prefix (js ''you'') s \<and> \<not> isWordOpt (headOpt (drop 3 s))) \<or>
     (prefix (js ''u'') s \<and> \<not> isWordOpt (headOpt (drop 1 s)))"

definition whoAreYouAt :: "nat option \<Rightarrow> jsstring \<Rightarrow> bool" where
  "whoAreYouAt prev s \<longleftrightarrow>
     wordBoundary prev s \<and> prefix (js ''who'') s \<and>
     (let r = drop 3 s; r' = dropWhile isWhiteSpace r in
        r' \<noteq> r \<and>
        ((prefix (js ''are'') r' \<and> youAt (dropWhile isWhiteSpace (drop 3 r'))) \<or>
         (prefix (js ''r'') r' \<and> youAt (dropWhile isWhiteSpace (drop 1 r')))))"

fun matchesSomewhere :: "(nat option \<Rightarrow> jsstring \<Rightarrow> bool) \<Rightarrow> nat option \<Rightarrow> jsstring \<Rightarrow> bool" where
  "matchesSomewhere m prev [] = m prev []"
| "matchesSomewhere m prev (c # cs) = (m prev (c # cs) \<or> matchesSomewhere m (Some c) cs)"

definition timeGreetings :: "(jsstring \<times> jsstring list) list" where
  "timeGreetings =
     [(js ''morning'', [js ''good morning'', js ''morning'', js ''selamat pagi'', js ''pagi'']),
      (js ''afternoon'', [js ''good afternoon'', js ''afternoon'', js ''selamat tengahari'', js ''tengahari'']),
      (js ''evening'', [js ''good evening'', js ''evening'', js ''selamat petang'', js ''petang'']),
      (js ''night'', [js ''good night'', js ''night'', js ''selamat malam'', js ''malam''])]"

definition greetings :: "jsstring list" where
  "greetings =
     [js ''hi'', js ''hello'', js ''hey'', js ''assalamualaikum'', js ''salam'',
      js ''apa khabar'', js ''apa kabar'', js ''apa macam'', js ''sihat?'',
      js ''sihat ke'', js ''sihat tak'', js ''macam mana'', js ''cemana'', js ''camne'',
      js ''hai'', js ''helo'', js ''oi'', js ''weh'']"

definition thanks :: "jsstring list" where
  "thanks =
     [js ''thank'', js ''thanks'', js ''terima kasih'', js ''tq'', js ''tenkiu'',
      js ''tq ye'', js ''thank you'', js ''thanks ye'', js ''terima kasih ye'']"

definition testMessages :: "jsstring list" where
  "testMessages =
     [js ''test'', js ''testing'', js ''check'', js ''cuba'', js ''try'']"

definition introPatterns :: "jsstring list" where
  "introPatterns =
     [js ''who are you'', js ''who r u'', js ''who are u'', js ''who r you'',
      js ''siapa kamu'', js ''siapa anda'', js ''siapa awak'', js ''intro'',
      js ''introduce'', js ''perkenal'', js ''kenalkan'', js ''intro sikit'',
      js ''cerita sikit'', js ''tell me about yourself'', js ''what is your name'',
      js ''apa nama'', js ''nama apa'', js ''what are you'', js ''apa kamu'',
      js ''apa awak'']"

definition capabilityPatterns :: "jsstring list" where
  "capabilityPatterns =
     [js ''what can you do'', js ''what do you do'', js ''apa you boleh buat'',
      js ''how to use'', js ''macam mana nak guna'', js ''cara guna'', js ''help'',
      js ''tolong'', js ''bantuan'', js ''command'', js ''arahan'',
      js ''how does this work'', js ''how do you work'', js ''what are your functions'',
      js ''apa fungsi'']"

definition statusChecks :: "jsstring list" where
  "statusChecks =
     [js ''are you there'', js ''you there'', js ''ada tak'', js ''ada ke'', js ''you ok'',
      js ''ok tak'', js ''working'', js ''can you hear'', js ''masih ada'',
      js ''masih hidup'', js ''tok ayah ada'', js ''tok ayah?'']"

definition introResponse :: jsstring where
  "introResponse =
     js ''Assalamualaikum! I am Tok Ayah, an Islamic knowledge assistant that '' @
     js ''specializes in Malaysian Islamic context. I can help you '' @
     js ''with:\<newline>'' @
     js ''\<newline>'' @
     [8226] @ js '' Questions about Islamic rulings (fatwa)\<newline>'' @
     [8226] @ js '' Understanding different mazhab perspectives\<newline>'' @
     [8226] @ js '' Information about JAKIM guidelines\<newline>'' @
     [8226] @ js '' Malaysian Islamic practices and customs\<newline>'' @
     [8226] @ js '' Comprehensive analysis of Islamic topics\<newline>'' @
     js ''\<newline>'' @
     js ''Feel free to ask me any questions about Islamic matters, and I'll do '' @
     js ''my best to help you understand them from various authentic '' @
     js ''perspectives.''"

definition capabilityResponse :: jsstring where
  "capabilityResponse =
     js ''I can help you in several ways:\<newline>'' @
     js ''\<newline>'' @
     js ''1. Direct commands:\<newline>'' @
     js ''/fatwa - Get fatwa rulings\<newline>'' @
     js ''/mazhab - Learn about different mazhab views\<newline>'' @
     js ''/jakim - Get JAKIM guidelines\<newline>'' @
     js ''/malaysianfatwa - Access Malaysian fatwa decisions\<newline>'' @
     js ''/ibadah - Learn about Islamic practices\<newline>'' @
     js ''\<newline>'' @
     js ''2. Natural conversations:\<newline>'' @
     js ''Just mention '' @ [34] @ js ''tok ayah'' @ [34] @
     js '' in your message and ask your question naturally in English or '' @
     js ''Malay.\<newline>'' @
     js ''\<newline>'' @
     js ''For example:\<newline>'' @
     [8226] @ js '' '' @ [34] @ js ''tok ayah, apa hukum...'' @ [34] @ js ''\<newline>'' @
     [8226] @ js '' '' @ [34] @ js ''tok ayah, what is the ruling on...'' @ [34] @
     js ''\<newline>'' @
     [8226] @ js '' '' @ [34] @ js ''tok ayah, boleh terangkan tentang...'' @ [34] @
     js ''\<newline>'' @
     js ''\<newline>'' @
     js ''I'll analyze your question and provide a comprehensive response '' @
     js ''considering various Islamic perspectives.''"

text \<open>The result is the \<open>response\<close> of a simple interaction, \<open>None\<close> for \<open>{ isSimple: false }\<close>.\<close>

definition isSimpleInteraction :: "jsstring \<Rightarrow> jsstring option" where
  "isSimpleInteraction text =
     (let lowerText = trim (toLowerCase text) in
      case find (\<lambda>(timeOfDay, gs). list_ex (\<lambda>g. includesStr lowerText g) gs) timeGreetings of
        Some (timeOfDay, gs) \<Rightarrow>
          Some (js ''Waalaikumussalam! '' @
                (if timeOfDay = js ''night'' then js ''Good night!''
                 else js ''How can I help you today?''))
      | None \<Rightarrow>
      if list_ex (\<lambda>greeting. includesStr lowerText greeting) greetings
      then Some (js ''Waalaikumussalam! Alhamdulillah, I'm doing well. How can I help you '' @
          js ''today?'')
      else if list_ex (\<lambda>t. includesStr lowerText t) thanks
      then Some (js ''You're welcome! Feel free to ask if you have any questions.'')
      else if list_ex (\<lambda>t. lowerText = t) testMessages
      then Some (js ''Yes, I'm here and working properly. How can I assist you?'')
      else if list_ex (\<lambda>pattern.
                  lowerText = pattern \<or> includesStr lowerText pattern \<or>
                  (prefix (js ''who are'') pattern \<and> matchesSomewhere whoAreYouAt None lowerText))
                introPatterns
      then Some introResponse
      else if list_ex (\<lambda>pattern. includesStr lowerText pattern) capabilityPatterns
      then Some capabilityResponse
      else if list_ex (\<lambda>check. includesStr lowerText check) statusChecks
      then Some (js ''Yes, I'm here and ready to help! What would you like to know?'')
      else None)"

subsection \<open>The constructor\<close>

text \<open>
  The constructor makes one \<open>config\<close> with \<open>responseThreshold: 0.7\<close> for the five specialists
  and a copy with \<open>responseThreshold: 0.3\<close> for the \<open>OpinionAgent\<close>, and fills the map \<open>agents\<close>
  in this order. \<open>clients\<close> gives every agent its HTTP client.
\<close>

definition specializedAgents :: "jsstring list \<Rightarrow> (agentClass \<Rightarrow> client) \<Rightarrow> agent list" where
  "specializedAgents ids clients =
     (let config = \<lparr> groupIds = ids, responseThreshold = double_0_7 \<rparr> in
      [Agent FatwaAgent config (clients FatwaAgent) [],
       Agent MazhabAgent config (clients MazhabAgent) [],
       Agent JakimAgent config (clients JakimAgent) [],
       Agent MalaysianFatwaAgent config (clients MalaysianFatwaAgent) [],
       Agent IbadhahAgent config (clients IbadhahAgent) []])"

definition opinionAgent :: "jsstring list \<Rightarrow> (agentClass \<Rightarrow> client) \<Rightarrow> agent" where
  "opinionAgent ids clients =
     (let config = \<lparr> groupIds = ids, responseThreshold = double_0_7 \<rparr>;
          opinionConfig = config \<lparr> responseThreshold := double_0_3 \<rparr>
      in Agent OpinionAgent opinionConfig (clients OpinionAgent) (specializedAgents ids clients))"

definition agentsMap :: "jsstring list \<Rightarrow> (agentClass \<Rightarrow> client) \<Rightarrow> (jsstring \<times> agent) list" where
  "agentsMap ids clients =
     [(js ''fatwa'', specializedAgents ids clients ! 0),
      (js ''mazhab'', specializedAgents ids clients ! 1),
      (js ''jakim'', specializedAgents ids clients ! 2),
      (js ''malaysianfatwa'', specializedAgents ids clients ! 3),
      (js ''ibadah'', specializedAgents ids clients ! 4),
      (js ''opinion'', opinionAgent ids clients)]"

subsection \<open>The handler of \<open>message:text\<close>\<close>

text \<open>
  What the handler reads of the update: the chat id as a decimal string (\<open>None\<close> without a
  chat), the bot's own id and user name (\<open>ctx.me\<close>), the text, and of the message replied to, if
  any, its sender's id and its text. What it does: nothing, the registration of the command
  handlers, a list of replies (plain, or with \<open>parse_mode: 'HTML'\<close>), or the rejection of a call
  it does not catch. The replies are taken to be delivered. \<open>None\<close> is a run that never
  returns.
\<close>

record RepliedMessage =
  fromId :: "nat option"
  repliedText :: "jsstring option"

record Ctx =
  chatId :: "jsstring option"
  meId :: nat
  meUsername :: jsstring
  messageText :: jsstring
  replyToMessage :: "RepliedMessage option"

datatype reply = Reply jsstring | ReplyHTML jsstring

datatype outcome = Ignored | CommandHandlersSet | Replied "reply list" | Rejected error

definition replyWithFormattedResponse :: "jsstring \<Rightarrow> outcome option" where
  "replyWithFormattedResponse response =
     (case splitResponse (formatResponseForTelegram response) of
        None \<Rightarrow> None
      | Some chunks \<Rightarrow> Some (Replied (map ReplyHTML chunks)))"

text \<open>The loop over \<open>this.agents\<close> that looks for the most relevant specialist: \<open>bestAgent\<close> and
  \<open>highestRelevance\<close> are the state. The call of \<open>shouldRespond\<close> is outside every \<open>try\<close>, so its
  rejection would be the handler's.\<close>

fun findBestAgent ::
  "(jsstring \<Rightarrow> jsnumber) \<Rightarrow> jsstring \<Rightarrow> (jsstring \<times> agent) list \<Rightarrow> agent option \<times> jsnumber \<Rightarrow>
   error + agent option \<times> jsnumber" where
  "findBestAgent parseFloat question [] (bestAgent, highestRelevance) =
     Inr (bestAgent, highestRelevance)"
| "findBestAgent parseFloat question ((name, agent) # rest) (bestAgent, highestRelevance) =
     (if name = js ''opinion''
      then findBestAgent parseFloat question rest (bestAgent, highestRelevance)
      else
        (case fst (shouldRespond parseFloat agent question) of
           Inl e \<Rightarrow> Inl e
         | Inr relevanceScore \<Rightarrow>
             if typeofIsNumber relevanceScore \<and> num_gt (toNumber relevanceScore) highestRelevance
             then findBestAgent parseFloat question rest (Some agent, toNumber relevanceScore)
             else findBestAgent parseFloat question rest (bestAgent, highestRelevance)))"

definition apologyReply :: jsstring where
  "apologyReply =
     js ''I apologize, but I encountered an error while processing your '' @
          js ''question. Please try again later.''"

definition fallbackReply :: jsstring where
  "fallbackReply =
     js ''I'm not sure I understand your question. Could you please rephrase it '' @
          js ''or use one of my commands?\<newline>'' @
          js ''\<newline>'' @
          js ''Use /help to see available commands.''"

text \<open>The handler: \<open>botUsername\<close> before the message, and the outcome with \<open>botUsername\<close> after
  it.\<close>

definition onMessageText ::
  "(jsstring \<Rightarrow> jsnumber) \<Rightarrow> jsstring list \<Rightarrow> (jsstring \<times> agent) list \<Rightarrow> jsstring \<Rightarrow> Ctx \<Rightarrow>
   (outcome \<times> jsstring) option" where
  "onMessageText parseFloat ids agents botUsername0 ctx =
     (if (case chatId ctx of None \<Rightarrow> False | Some cid \<Rightarrow> cid \<in> set ids) then
        (let botUsername = (if botUsername0 = [] then meUsername ctx else botUsername0);
             isReply = (replyToMessage ctx \<noteq> None);
             questionText = messageText ctx
         in
         (case (case replyToMessage ctx of
                  None \<Rightarrow> Some questionText
                | Some repliedMessage \<Rightarrow>
                    if fromId repliedMessage = Some (meId ctx) \<or>
                       isBotMentioned botUsername questionText
                    then (case repliedText repliedMessage of
                            Some t \<Rightarrow>
                              if t \<noteq> []
                              then Some (js ''Context: '' @ t @ js ''\<newline>'' @
          js ''\<newline>'' @
          js ''Follow-up: '' @ questionText)
                              else Some questionText
                          | None \<Rightarrow> Some questionText)
                    else None) of
            None \<Rightarrow> Some (Ignored, botUsername)
          | Some questionText \<Rightarrow>
              (let isMentioned = isBotMentioned botUsername questionText;
                   isCommand = prefix (js ''/'') questionText;
                   isGetKeywords = includesStr (toLowerCase questionText) (js ''getkeywords'')
               in
               if isCommand then Some (CommandHandlersSet, botUsername)
               else if isMentioned \<or> isReply then
                 (let question = (if isMentioned then removeBotMention botUsername questionText
                                  else questionText)
                  in
                  if trim question = []
                  then Some (Replied [Reply (js ''Yes? How can I help you?'')], botUsername)
                  else
                    (case isSimpleInteraction question of
                       Some response \<Rightarrow> Some (Replied [Reply response], botUsername)
                     | None \<Rightarrow>
                         if isGetKeywords then
                           (case map_of agents (js ''opinion'') of
                              None \<Rightarrow> Some (Ignored, botUsername)
                            | Some opinion \<Rightarrow>
                                (case fst (generateResponse opinion question) of
                                   Inl e \<Rightarrow> Some (Replied [Reply apologyReply], botUsername)
                                 | Inr response \<Rightarrow>
                                     map_option (\<lambda>out. (out, botUsername))
                                       (replyWithFormattedResponse response)))
                         else
                           (case findBestAgent parseFloat question agents (None, Finite 0) of
                              Inl e \<Rightarrow> Some (Rejected e, botUsername)
                            | Inr (bestAgent, highestRelevance) \<Rightarrow>
                                (case bestAgent of
                                   Some best \<Rightarrow>
                                     (case fst (generateResponse best question) of
                                        Inl e \<Rightarrow> Some (Replied [Reply apologyReply], botUsername)
                                      | Inr response \<Rightarrow>
                                          map_option (\<lambda>out. (out, botUsername))
                                            (replyWithFormattedResponse response))
                                 | None \<Rightarrow> Some (Replied [Reply fallbackReply], botUsername)))))
               else Some (Ignored, botUsername))))
      else Some (Ignored, botUsername0))"

section \<open>A scenario\<close>

text \<open>
  The message \<open>tok ayah, apa hukum solat jumaat\<close> in an allowed group, the first message the
  bot sees; a client that fails and one that answers with a fixed text.
\<close>

definition scenarioText :: jsstring where
  "scenarioText = js ''tok ayah, apa hukum solat jumaat''"

definition scenarioCtx :: Ctx where
  "scenarioCtx = \<lparr> chatId = Some (js ''-1001234567890''), meId = 7000000001,
      meUsername = js ''TokAyahBot'', messageText = scenarioText, replyToMessage = None \<rparr>"

definition failingClient :: client where
  "failingClient messages temperature max_tokens = Inl GenerationError"

definition answeringClient :: "jsstring \<Rightarrow> client" where
  "answeringClient content messages temperature max_tokens = Inr (Some [Some content])"


definition scenarioIds :: "jsstring list" where
  "scenarioIds = [js ''-1001234567890'']"


text \<open>A client whose reply has no \<open>choices\<close> field, one whose reply has an empty list of
  choices, and one that answers with the text of the last message it is sent.\<close>

definition noChoicesClient :: client where
  "noChoicesClient messages temperature max_tokens = Inr None"

definition emptyChoicesClient :: client where
  "emptyChoicesClient messages temperature max_tokens = Inr (Some [])"

definition echoClient :: client where
  "echoClient messages temperature max_tokens = Inr (Some [Some (snd (last messages))])"

text \<open>An assignment of clients in which the one of the \<open>FatwaAgent\<close> fails, the one of the
  \<open>OpinionAgent\<close> answers with the request it is sent, and the others answer \<open>Wajib.\<close> under a
  header line.\<close>

definition scenarioClients :: "agentClass \<Rightarrow> client" where
  "scenarioClients c =
     (if c = FatwaAgent then failingClient
      else if c = OpinionAgent then echoClient
      else answeringClient (js ''### Hukum\<newline>\<newline>Wajib.''))"

text \<open>A table that stands for \<open>parseFloat\<close> on the replies used below: the doubles \<open>0\<close> and
  \<open>0.9\<close> (\<open>0x1.ccccccccccccdp-1\<close>) for their decimal forms; the other replies used below start
  with no number and give \<open>NaN\<close>.\<close>

definition scenarioParseFloat :: "jsstring \<Rightarrow> jsnumber" where
  "scenarioParseFloat s =
     (if s = js ''0'' then Finite 0
      else if s = js ''0.9'' then Finite (8106479329266893 / 9007199254740992)
      else NaN)"





section \<open>Notions of the statements\<close>

text \<open>The text that \<open>shouldRespond\<close> parses, given the \<open>choices\<close> of the reply: the content of
  the first choice, and \<open>0\<close> when there is no first choice, when it has no content or when
  the content is empty.\<close>

definition scoredText :: "jsstring option list \<Rightarrow> jsstring" where
  "scoredText choices =
     (case choices of
        Some content # _ \<Rightarrow> (if content = [] then js ''0'' else content)
      | _ \<Rightarrow> js ''0'')"

section \<open>Properties of the chunker\<close>

lemma continuedMarker_eq:
  "continuedMarker = [10,10,60,105,62,40,99,111,110,116,105,110,117,101,100,46,46,46,41,60,47,105,62]"
  by (simp add: continuedMarker_def js_def)

lemma continuationMarker_eq:
  "continuationMarker = [60,105,62,40,99,111,110,116,105,110,117,97,116,105,111,110,41,60,47,105,62,10,10]"
  by (simp add: continuationMarker_def js_def)

lemma length_continuedMarker: "length continuedMarker = 23"
  by (simp add: continuedMarker_eq)

lemma length_continuationMarker: "length continuationMarker = 23"
  by (simp add: continuationMarker_eq)

lemma lastIndexOfDown_Some:
  "lastIndexOfDown s pat n = Some k \<Longrightarrow> k \<le> n \<and> matchesAt s pat k \<and> (\<forall>j. k < j \<and> j \<le> n \<longrightarrow> \<not> matchesAt s pat j)"
proof (induction n)
  case 0
  then show ?case by (auto split: if_splits)
next
  case (Suc n)
  show ?case
  proof (cases "matchesAt s pat (Suc n)")
    case True
    with Suc.prems show ?thesis by auto
  next
    case False
    with Suc.prems have "lastIndexOfDown s pat n = Some k" by simp
    from Suc.IH[OF this] False show ?thesis
      by (auto simp: le_Suc_eq)
  qed
qed

lemma lastIndexOfDown_None:
  "lastIndexOfDown s pat n = None \<Longrightarrow> j \<le> n \<Longrightarrow> \<not> matchesAt s pat j"
  by (induction n) (auto split: if_splits simp: le_Suc_eq)

lemma lastIndexOfDown_eqI:
  "matchesAt s pat k \<Longrightarrow> k \<le> n \<Longrightarrow> (\<And>j. k < j \<Longrightarrow> j \<le> n \<Longrightarrow> \<not> matchesAt s pat j)
   \<Longrightarrow> lastIndexOfDown s pat n = Some k"
proof (induction n)
  case 0
  then show ?case by simp
next
  case (Suc n)
  show ?case
  proof (cases "k = Suc n")
    case True
    with Suc.prems show ?thesis by simp
  next
    case False
    with Suc.prems have "k \<le> n" by simp
    moreover have "\<not> matchesAt s pat (Suc n)" using Suc.prems False by auto
    ultimately show ?thesis using Suc by simp
  qed
qed

lemma lastIndexOfDown_NoneI:
  "(\<And>j. j \<le> n \<Longrightarrow> \<not> matchesAt s pat j) \<Longrightarrow> lastIndexOfDown s pat n = None"
  by (induction n) auto

lemma matchesAt_imp_le: "matchesAt s pat k \<Longrightarrow> k \<le> length s"
  by (simp add: matchesAt_def)

lemma lastIndexOf_Some:
  "lastIndexOf s pat pos = Some k \<Longrightarrow> k \<le> pos \<and> matchesAt s pat k \<and> (\<forall>j. k < j \<and> j \<le> pos \<longrightarrow> \<not> matchesAt s pat j)"
  unfolding lastIndexOf_def
  by (auto dest!: lastIndexOfDown_Some) (meson matchesAt_imp_le)

lemma lastIndexOf_None:
  "lastIndexOf s pat pos = None \<Longrightarrow> j \<le> pos \<Longrightarrow> \<not> matchesAt s pat j"
  unfolding lastIndexOf_def
  by (metis lastIndexOfDown_None matchesAt_imp_le min.bounded_iff)

lemma lastIndexOf_eqI:
  "matchesAt s pat k \<Longrightarrow> k \<le> pos \<Longrightarrow> (\<And>j. k < j \<Longrightarrow> j \<le> pos \<Longrightarrow> \<not> matchesAt s pat j)
   \<Longrightarrow> lastIndexOf s pat pos = Some k"
  unfolding lastIndexOf_def
  by (rule lastIndexOfDown_eqI) (auto dest: matchesAt_imp_le)

lemma lastIndexOf_NoneI:
  "(\<And>j. j \<le> pos \<Longrightarrow> \<not> matchesAt s pat j) \<Longrightarrow> lastIndexOf s pat pos = None"
  unfolding lastIndexOf_def
  by (rule lastIndexOfDown_NoneI) auto

lemma findSplitIndex_le: "findSplitIndex text \<le> MAX_LENGTH"
  by (auto simp: findSplitIndex_def split: option.splits dest: lastIndexOf_Some)

lemma matchesAt2: "matchesAt s [x, y] k \<longleftrightarrow> Suc k < length s \<and> s ! k = x \<and> s ! Suc k = y"
proof -
  have "take (length [x, y]) (drop k s) = [x, y] \<longleftrightarrow> Suc k < length s \<and> s ! k = x \<and> s ! Suc k = y"
  proof (cases "drop k s")
    case Nil
    then show ?thesis by auto
  next
    case (Cons a as)
    note c1 = this
    then have k: "k < length s" by (metis drop_eq_Nil2 list.distinct(1) not_le)
    have a: "a = s ! k" using c1 k by (metis nth_via_drop)
    show ?thesis
    proof (cases as)
      case Nil
      with c1 have "length s - k = 1" by (metis length_drop length_Cons list.size(3) One_nat_def)
      with c1 Nil show ?thesis by auto
    next
      case (Cons b bs)
      with c1 have d: "drop (Suc k) s = b # bs" by (metis drop_Suc tl_drop list.sel(3))
      then have k2: "Suc k < length s" by (metis drop_eq_Nil2 list.distinct(1) not_le)
      have b: "b = s ! Suc k" using d k2 by (metis nth_via_drop)
      show ?thesis using c1 Cons a b k2 by auto
    qed
  qed
  then show ?thesis unfolding matchesAt_def by auto
qed

lemma splitLoop_short: "text \<noteq> [] \<Longrightarrow> length text \<le> MAX_LENGTH \<Longrightarrow> splitLoop chunks text = Some (chunks @ [text])"
  by (subst splitLoop.simps) simp

lemma splitLoop_empty: "splitLoop chunks [] = Some chunks"
  by (subst splitLoop.simps) simp

lemma splitLoop_long:
  "length text > MAX_LENGTH \<Longrightarrow> splitLoop chunks text =
     (if trim (drop (findSplitIndex text) text) \<noteq> []
      then splitLoop (chunks @ [take (findSplitIndex text) text @ continuedMarker])
                    (continuationMarker @ trim (drop (findSplitIndex text) text))
      else Some (chunks @ [take (findSplitIndex text) text]))"
  by (subst splitLoop.simps) (auto simp: Let_def splitLoop_empty)

lemma splitLoop_induct [consumes 1, case_names empty short last more]:
  assumes ret: "splitLoop chunks text = Some out"
    and empty: "\<And>chunks. P chunks [] chunks"
    and short: "\<And>chunks text. text \<noteq> [] \<Longrightarrow> length text \<le> MAX_LENGTH \<Longrightarrow> P chunks text (chunks @ [text])"
    and last: "\<And>chunks text. MAX_LENGTH < length text \<Longrightarrow> trim (drop (findSplitIndex text) text) = [] \<Longrightarrow>
                 P chunks text (chunks @ [take (findSplitIndex text) text])"
    and more: "\<And>chunks text out. MAX_LENGTH < length text \<Longrightarrow> trim (drop (findSplitIndex text) text) \<noteq> [] \<Longrightarrow>
                 splitLoop chunks text = Some out \<Longrightarrow>
                 splitLoop (chunks @ [take (findSplitIndex text) text @ continuedMarker])
                    (continuationMarker @ trim (drop (findSplitIndex text) text)) = Some out \<Longrightarrow>
                 P (chunks @ [take (findSplitIndex text) text @ continuedMarker])
                    (continuationMarker @ trim (drop (findSplitIndex text) text)) out \<Longrightarrow>
                 P chunks text out"
  shows "P chunks text out"
proof -
  have "splitLoop chunks text = Some out \<longrightarrow> P chunks text out"
  proof (rule splitLoop.raw_induct[where P = "\<lambda>c t out. splitLoop c t = Some out \<longrightarrow> P c t out", OF _ ret])
    fix f :: "jsstring list \<Rightarrow> jsstring \<Rightarrow> jsstring list option" and c t out
    assume IH: "\<And>c t out. f c t = Some out \<Longrightarrow> splitLoop c t = Some out \<longrightarrow> P c t out"
    assume step: "(if 0 < length t
         then if length t \<le> MAX_LENGTH then Some (c @ [t])
              else let splitIndex = findSplitIndex t; chunks1 = c @ [take splitIndex t];
                       text1 = trim (drop splitIndex t)
                   in if 0 < length text1
                      then f (butlast chunks1 @ [last chunks1 @ continuedMarker])
                            (continuationMarker @ text1)
                      else f chunks1 text1
         else Some c) = Some out"
    show "splitLoop c t = Some out \<longrightarrow> P c t out"
    proof
      assume real: "splitLoop c t = Some out"
      consider (e) "t = []" | (s) "t \<noteq> []" "length t \<le> MAX_LENGTH"
        | (l) "MAX_LENGTH < length t" "trim (drop (findSplitIndex t) t) = []"
        | (m) "MAX_LENGTH < length t" "trim (drop (findSplitIndex t) t) \<noteq> []"
        by fastforce
      then show "P c t out"
      proof cases
        case e
        with real show ?thesis using empty by (auto simp: splitLoop_empty)
      next
        case s
        with real show ?thesis using short by (auto simp: splitLoop_short)
      next
        case l
        with real show ?thesis using last by (auto simp: splitLoop_long)
      next
        case m
        from m have ne: "t \<noteq> []" "\<not> length t \<le> MAX_LENGTH" by auto
        from m have pos: "0 < length t" by auto
        from step pos ne(2) have "(let splitIndex = findSplitIndex t; chunks1 = c @ [take splitIndex t];
                       text1 = trim (drop splitIndex t)
                   in if 0 < length text1
                      then f (butlast chunks1 @ [last chunks1 @ continuedMarker])
                            (continuationMarker @ text1)
                      else f chunks1 text1) = Some out"
          by (simp only: if_True if_False)
        with m(2) have f: "f (c @ [take (findSplitIndex t) t @ continuedMarker])
                    (continuationMarker @ trim (drop (findSplitIndex t) t)) = Some out"
          by (simp add: Let_def)
        from m real have r: "splitLoop (c @ [take (findSplitIndex t) t @ continuedMarker])
                    (continuationMarker @ trim (drop (findSplitIndex t) t)) = Some out"
          by (simp add: splitLoop_long)
        from IH[OF f] r have p: "P (c @ [take (findSplitIndex t) t @ continuedMarker])
                    (continuationMarker @ trim (drop (findSplitIndex t) t)) out" by simp
        show ?thesis by (rule more[OF m real r p])
      qed
    qed
  qed
  with ret show ?thesis by simp
qed

lemma trim_fix_hd: "trim r = r \<Longrightarrow> r \<noteq> [] \<Longrightarrow> \<not> isWhiteSpace (hd r)"
proof -
  assume a: "trim r = r" "r \<noteq> []"
  show ?thesis
  proof
    assume w: "isWhiteSpace (hd r)"
    have "length (dropWhile isWhiteSpace (rev (dropWhile isWhiteSpace r)))
            \<le> length (rev (dropWhile isWhiteSpace r))"
      by (rule length_dropWhile_le)
    then have "length (trim r) \<le> length (dropWhile isWhiteSpace r)"
      unfolding trim_def by simp
    moreover have "length (dropWhile isWhiteSpace r) < length r"
      using a(2) w by (cases r) (auto simp: length_dropWhile_le le_imp_less_Suc)
    ultimately show False using a(1) by simp
  qed
qed

lemma trim_ws_prefix: "\<forall>c \<in> set w. isWhiteSpace c \<Longrightarrow> trim (w @ r) = trim r"
  unfolding trim_def by (simp add: dropWhile_append2)

lemma ws10: "isWhiteSpace 10"
  by (simp add: isWhiteSpace_def)

lemma nlnl_eq: "js ''\<newline>\<newline>'' = [10, 10]"
  by (simp add: js_def)

lemma matchesAt_cont_21: "matchesAt (continuationMarker @ r) [10, 10] 21"
  by (simp add: matchesAt_def continuationMarker_eq)

lemma findSplitIndex_cont_ge:
  "21 \<le> findSplitIndex (continuationMarker @ r)"
proof -
  have m: "matchesAt (continuationMarker @ r) [10, 10] 21" by (rule matchesAt_cont_21)
  show ?thesis
  proof (cases "lastIndexOf (continuationMarker @ r) [10, 10] MAX_LENGTH")
    case None
    from lastIndexOf_None[OF None, of 21] m show ?thesis by (simp add: MAX_LENGTH_def)
  next
    case (Some k)
    from lastIndexOf_Some[OF Some] m have "\<not> k < 21" by (auto simp: MAX_LENGTH_def)
    with Some show ?thesis by (simp add: findSplitIndex_def nlnl_eq)
  qed
qed

lemma drop_cont_low:
  assumes "21 \<le> i" "i < 23"
  shows "\<exists>w. drop i (continuationMarker @ r) = w @ r \<and> (\<forall>c \<in> set w. isWhiteSpace c)"
proof -
  from assms have "i = 21 \<or> i = 22" by auto
  then show ?thesis
  proof
    assume "i = 21"
    then have "drop i (continuationMarker @ r) = [10, 10] @ r" by (simp add: continuationMarker_eq)
    then show ?thesis using ws10 by (intro exI[of _ "[10, 10]"]) simp
  next
    assume "i = 22"
    then have "drop i (continuationMarker @ r) = [10] @ r" by (simp add: continuationMarker_eq)
    then show ?thesis using ws10 by (intro exI[of _ "[10]"]) simp
  qed
qed

lemma trim_drop_cont_low:
  assumes "21 \<le> i" "i < 23" 
  shows "trim (drop i (continuationMarker @ r)) = trim r"
  using drop_cont_low[OF assms, of r] trim_ws_prefix by auto

text \<open>A state the loop never leaves.\<close>

lemma splitLoop_stuck_aux:
  assumes "splitLoop chunks text = Some out"
  shows "\<not> (continuing text \<and> MAX_LENGTH < length text \<and> findSplitIndex text < 23)"
  using assms
proof (induction rule: splitLoop_induct)
  case (empty chunks)
  then show ?case by simp
next
  case (short chunks t)
  then show ?case by simp
next
  case (last chunks t)
  show ?case
  proof
    assume a: "continuing t \<and> MAX_LENGTH < length t \<and> findSplitIndex t < 23"
    then obtain r where r: "t = continuationMarker @ r" "r \<noteq> []" "trim r = r"
      by (auto simp: continuing_def)
    from a r have lt: "findSplitIndex (continuationMarker @ r) < 23" by simp
    have "trim (drop (findSplitIndex t) t) = r"
      using trim_drop_cont_low[OF findSplitIndex_cont_ge lt] r by (simp only:)
    with last r show False by simp
  qed
next
  case (more chunks t out)
  show ?case
  proof
    assume a: "continuing t \<and> MAX_LENGTH < length t \<and> findSplitIndex t < 23"
    then obtain r where r: "t = continuationMarker @ r" "r \<noteq> []" "trim r = r"
      by (auto simp: continuing_def)
    from a r have lt: "findSplitIndex (continuationMarker @ r) < 23" by simp
    have "trim (drop (findSplitIndex t) t) = r"
      using trim_drop_cont_low[OF findSplitIndex_cont_ge lt] r by (simp only:)
    with r have "continuationMarker @ trim (drop (findSplitIndex t) t) = t" by simp
    with more.IH a show False by simp
  qed
qed

lemma splitLoop_stuck:
  "continuing text \<Longrightarrow> MAX_LENGTH < length text \<Longrightarrow> findSplitIndex text < 23 \<Longrightarrow>
   splitLoop chunks text = None"
  using splitLoop_stuck_aux[of chunks "text"] by (cases "splitLoop chunks text") auto

lemma squash_append: "squash (a @ b) = squash a @ squash b"
  by (simp add: squash_def)

lemma squash_dropWhile: "squash (dropWhile isWhiteSpace s) = squash s"
  by (induction s) (auto simp: squash_def)

lemma squash_rev: "squash (rev s) = rev (squash s)"
  by (simp add: squash_def rev_filter)

lemma squash_trim: "squash (trim s) = squash s"
  by (simp add: trim_def squash_rev squash_dropWhile)

lemma trim_prefix_of_dropWhile:
  "\<exists>w. dropWhile isWhiteSpace s = trim s @ w"
proof -
  let ?y = "dropWhile isWhiteSpace s"
  have "trim s @ rev (takeWhile isWhiteSpace (rev ?y))
        = rev (takeWhile isWhiteSpace (rev ?y) @ dropWhile isWhiteSpace (rev ?y))"
    by (simp only: rev_append trim_def)
  also have "\<dots> = rev (rev ?y)" by (simp only: takeWhile_dropWhile_id)
  also have "\<dots> = ?y" by simp
  finally have "?y = trim s @ rev (takeWhile isWhiteSpace (rev ?y))" by (rule sym)
  then show ?thesis ..
qed

lemma trim_hd: "trim s \<noteq> [] \<Longrightarrow> \<not> isWhiteSpace (hd (trim s))"
proof -
  assume ne: "trim s \<noteq> []"
  obtain w where w: "dropWhile isWhiteSpace s = trim s @ w" using trim_prefix_of_dropWhile by blast
  with ne have "dropWhile isWhiteSpace s \<noteq> []" by auto
  then have "\<not> isWhiteSpace (hd (dropWhile isWhiteSpace s))" by (rule hd_dropWhile)
  with w ne show ?thesis by simp
qed

lemma trim_idem: "trim (trim s) = trim s"
proof (cases "trim s = []")
  case True
  have "trim [] = []" by (simp add: trim_def)
  with True show ?thesis by simp
next
  case False
  let ?u = "dropWhile isWhiteSpace (rev (dropWhile isWhiteSpace s))"
  have t: "trim s = rev ?u" by (simp add: trim_def)
  from False trim_hd have "\<not> isWhiteSpace (hd (trim s))" by blast
  with False have d: "dropWhile isWhiteSpace (trim s) = trim s"
    by (cases "trim s") auto
  have "trim (trim s) = rev (dropWhile isWhiteSpace (rev (trim s)))"
    by (subst (1) trim_def) (simp only: d)
  also have "\<dots> = rev (dropWhile isWhiteSpace ?u)" by (simp add: t)
  also have "\<dots> = rev ?u" by (simp only: dropWhile_idem)
  finally show ?thesis by (simp add: t)
qed

lemma continuing_next: "trim x \<noteq> [] \<Longrightarrow> continuing (continuationMarker @ trim x)"
  unfolding continuing_def using trim_idem by blast

lemma continuing_prefix_take:
  assumes "continuing t" "23 \<le> i"
  shows "prefix continuationMarker (take i t)"
proof -
  from assms obtain r where "t = continuationMarker @ r" by (auto simp: continuing_def)
  with assms(2) show ?thesis by (simp add: length_continuationMarker prefix_def)
qed

lemma continuing_last_ge:
  assumes c: "continuing t" and e: "trim (drop (findSplitIndex t) t) = []"
  shows "23 \<le> findSplitIndex t"
proof (rule ccontr)
  assume "\<not> 23 \<le> findSplitIndex t"
  then have lt: "findSplitIndex t < 23" by simp
  from c obtain r where r: "t = continuationMarker @ r" "r \<noteq> []" "trim r = r"
    by (auto simp: continuing_def)
  from lt r have lt': "findSplitIndex (continuationMarker @ r) < 23" by simp
  have "trim (drop (findSplitIndex t) t) = r"
    using trim_drop_cont_low[OF findSplitIndex_cont_ge lt'] r by (simp only:)
  with e r show False by simp
qed

lemma prefix_cont_take_marker:
  assumes c: "continuing t" and ge: "23 \<le> i"
  shows "prefix continuationMarker (take i t @ m)"
  using continuing_prefix_take[OF c ge] by (rule prefix_prefix)

lemma splitLoop_shape_aux:
  assumes "splitLoop chunks text = Some out"
  shows "\<exists>new. out = chunks @ new \<and> chunkShape new \<and>
           (continuing text \<longrightarrow> new \<noteq> [] \<and> prefix continuationMarker (hd new))"
  using assms
proof (induction rule: splitLoop_induct)
  case (empty chunks)
  show ?case by (simp add: chunkShape_def continuing_def)
next
  case (short chunks t)
  then have "chunkShape [t]" by (simp add: chunkShape_def)
  moreover have "continuing t \<longrightarrow> prefix continuationMarker t"
    by (auto simp: continuing_def)
  ultimately show ?case by simp
next
  case (last chunks t)
  let ?i = "findSplitIndex t"
  have "length (take ?i t) \<le> MAX_LENGTH" using findSplitIndex_le[of t] by simp
  then have "chunkShape [take ?i t]" by (simp add: chunkShape_def)
  moreover have "continuing t \<longrightarrow> prefix continuationMarker (take ?i t)"
    using continuing_last_ge[OF _ last(2)] continuing_prefix_take by blast
  ultimately show ?case by simp
next
  case (more chunks t out)
  let ?i = "findSplitIndex t"
  let ?c = "take ?i t @ continuedMarker"
  let ?t' = "continuationMarker @ trim (drop ?i t)"
  from more.IH obtain new' where n: "out = (chunks @ [?c]) @ new'" "chunkShape new'"
      "continuing ?t' \<longrightarrow> new' \<noteq> [] \<and> prefix continuationMarker (hd new')" by blast
  from continuing_next[OF more(2)] n(3)
  have ne: "new' \<noteq> []" and pre: "prefix continuationMarker (hd new')" by auto
  have len: "length (take ?i t) \<le> MAX_LENGTH" using findSplitIndex_le[of t] by simp
  have tl: "\<forall>c \<in> set new'. prefix continuationMarker c"
  proof
    fix c assume "c \<in> set new'"
    with ne have "c = hd new' \<or> c \<in> set (tl new')" by (cases new') auto
    with pre n(2) show "prefix continuationMarker c" unfolding chunkShape_def by blast
  qed
  have shape: "chunkShape (?c # new')"
    unfolding chunkShape_def
  proof (intro conjI ballI impI)
    fix c assume "c \<in> set (butlast (?c # new'))"
    with ne have "c = ?c \<or> c \<in> set (butlast new')" by simp
    then show "\<exists>core. c = core @ continuedMarker \<and> length core \<le> MAX_LENGTH"
    proof
      assume "c = ?c"
      with len show ?thesis by blast
    next
      assume "c \<in> set (butlast new')"
      with n(2) show ?thesis unfolding chunkShape_def by blast
    qed
  next
    from n(2) ne have "length (last new') \<le> MAX_LENGTH" unfolding chunkShape_def by blast
    with ne show "length (last (?c # new')) \<le> MAX_LENGTH" by simp
  next
    fix c assume "c \<in> set (tl (?c # new'))"
    with tl show "prefix continuationMarker c" by simp
  qed
  have "continuing t \<longrightarrow> prefix continuationMarker ?c"
  proof
    assume c: "continuing t"
    have "23 \<le> ?i"
    proof (rule ccontr)
      assume "\<not> 23 \<le> ?i"
      then have "findSplitIndex t < 23" by simp
      with c more(1) have "splitLoop chunks t = None" by (intro splitLoop_stuck)
      with more(3) show False by simp
    qed
    with c show "prefix continuationMarker ?c" by (rule prefix_cont_take_marker)
  qed
  with shape n(1) show ?case by (intro exI[of _ "?c # new'"]) simp
qed

lemma chunkShape_length:
  assumes "chunkShape new" "c \<in> set new"
  shows "length c \<le> MAX_LENGTH + length continuedMarker"
proof -
  from assms(2) have ne: "new \<noteq> []" by auto
  have "set new = set (butlast new @ [last new])"
    by (simp only: append_butlast_last_id[OF ne])
  with assms(2) have "c \<in> set (butlast new) \<or> c = last new" by auto
  then show ?thesis
  proof
    assume "c \<in> set (butlast new)"
    with assms(1) obtain core where "c = core @ continuedMarker" "length core \<le> MAX_LENGTH"
      unfolding chunkShape_def by blast
    then show ?thesis by simp
  next
    assume "c = last new"
    with assms(1) ne have "length c \<le> MAX_LENGTH" unfolding chunkShape_def by blast
    then show ?thesis by simp
  qed
qed

lemma cores_Cons: "cs \<noteq> [] \<Longrightarrow> cores (c # cs) = stripContinued c # coresRest cs"
  by (cases cs) auto

lemma coresRest_cores:
  "cs \<noteq> [] \<Longrightarrow> cores cs \<noteq> [] \<and> coresRest cs = stripContinuation (hd (cores cs)) # tl (cores cs)"
proof (cases cs)
  case Nil
  assume "cs \<noteq> []" with Nil show ?thesis by simp
next
  case (Cons a as)
  then show ?thesis by (cases as) auto
qed

lemma stripContinued_marker: "stripContinued (c @ continuedMarker) = c"
  by (simp add: stripContinued_def)

lemma trim_empty_squash: "trim s = [] \<Longrightarrow> squash s = []"
  using squash_trim[of s] by (simp add: squash_def)

lemma splitLoop_roundtrip_aux:
  assumes "splitLoop chunks text = Some out"
  shows "\<exists>new. out = chunks @ new \<and> (text = [] \<longleftrightarrow> new = []) \<and>
           squash (concat (cores new)) = squash text \<and>
           (continuing text \<longrightarrow> prefix continuationMarker (hd (cores new)))"
  using assms
proof (induction rule: splitLoop_induct)
  case (empty chunks)
  show ?case by (simp add: continuing_def)
next
  case (short chunks t)
  have "continuing t \<longrightarrow> prefix continuationMarker t"
    by (auto simp: continuing_def)
  with short show ?case by simp
next
  case (last chunks t)
  let ?i = "findSplitIndex t"
  have "squash t = squash (take ?i t @ drop ?i t)" by simp
  also have "\<dots> = squash (take ?i t)"
    using trim_empty_squash[OF last(2)] by (simp only: squash_append append_Nil2)
  finally have sq: "squash (take ?i t) = squash t" by (rule sym)
  have "continuing t \<longrightarrow> prefix continuationMarker (take ?i t)"
    using continuing_last_ge[OF _ last(2)] continuing_prefix_take by blast
  moreover from last(1) have "t \<noteq> []" by auto
  ultimately show ?case using sq by simp
next
  case (more chunks t out)
  let ?i = "findSplitIndex t"
  let ?c = "take ?i t @ continuedMarker"
  let ?r = "trim (drop ?i t)"
  let ?t' = "continuationMarker @ ?r"
  from more.IH obtain new' where n: "out = (chunks @ [?c]) @ new'" "(?t' = []) = (new' = [])"
      "squash (concat (cores new')) = squash ?t'"
      "continuing ?t' \<longrightarrow> prefix continuationMarker (hd (cores new'))" by blast
  from n(2) more(2) have ne: "new' \<noteq> []" by simp
  from continuing_next[OF more(2)] n(4)
  obtain h where h: "hd (cores new') = continuationMarker @ h" by (auto simp: prefix_def)
  from coresRest_cores[OF ne] have cr: "cores new' \<noteq> []"
      "coresRest new' = stripContinuation (hd (cores new')) # tl (cores new')" by auto
  from cr(1) have "cores new' = hd (cores new') # tl (cores new')" by simp
  then have "concat (cores new') = hd (cores new') @ concat (tl (cores new'))"
    by (metis concat.simps(2))
  then have c1: "concat (cores new') = continuationMarker @ h @ concat (tl (cores new'))"
    by (simp only: h append_assoc)
  have c2: "concat (coresRest new') = h @ concat (tl (cores new'))"
    using cr(2) h by (simp add: stripContinuation_def)
  from n(3) c1 c2 have "squash continuationMarker @ squash (concat (coresRest new'))
        = squash continuationMarker @ squash ?r"
    by (simp add: squash_append)
  then have "squash (concat (coresRest new')) = squash (drop ?i t)"
    by (simp add: squash_trim)
  then have "squash (concat (cores (?c # new'))) = squash (take ?i t @ drop ?i t)"
    by (simp only: cores_Cons[OF ne] concat.simps squash_append stripContinued_marker)
  then have sq: "squash (concat (cores (?c # new'))) = squash t" by simp
  have "continuing t \<longrightarrow> prefix continuationMarker (hd (cores (?c # new')))"
  proof
    assume c: "continuing t"
    have "23 \<le> ?i"
    proof (rule ccontr)
      assume "\<not> 23 \<le> ?i"
      then have "findSplitIndex t < 23" by simp
      with c more(1) have "splitLoop chunks t = None" by (intro splitLoop_stuck)
      with more(3) show False by simp
    qed
    with c have "prefix continuationMarker (take ?i t)" by (rule continuing_prefix_take)
    then show "prefix continuationMarker (hd (cores (?c # new')))"
      by (simp only: cores_Cons[OF ne] list.sel stripContinued_marker)
  qed
  moreover from more(1) have "t \<noteq> []" by auto
  ultimately show ?case using sq n(1) by (intro exI[of _ "?c # new'"]) simp
qed

lemma weave_snoc_gap:
  "length gaps = length cs \<Longrightarrow> cs \<noteq> [] \<Longrightarrow>
   weave cs (butlast gaps @ [last gaps @ w]) = weave cs gaps @ w"
proof (induction cs gaps rule: weave.induct)
  case (1 gaps)
  then show ?case by simp
next
  case (2 c cs)
  then show ?case by simp
next
  case (3 c cs g gaps)
  show ?case
  proof (cases "cs = []")
    case True
    with 3 show ?thesis by simp
  next
    case False
    with 3 have "gaps \<noteq> []" by auto
    with 3 False show ?thesis by simp
  qed
qed

lemma trim_decompose:
  "\<exists>wa wb. s = wa @ trim s @ wb \<and> allWhiteSpace wa \<and> allWhiteSpace wb"
proof -
  let ?y = "dropWhile isWhiteSpace s"
  have 1: "s = takeWhile isWhiteSpace s @ ?y" by simp
  have "rev ?y = takeWhile isWhiteSpace (rev ?y) @ dropWhile isWhiteSpace (rev ?y)" by simp
  then have "rev (rev ?y) = rev (takeWhile isWhiteSpace (rev ?y) @ dropWhile isWhiteSpace (rev ?y))"
    by (rule arg_cong)
  then have 2: "?y = trim s @ rev (takeWhile isWhiteSpace (rev ?y))"
    by (simp only: rev_rev_ident rev_append trim_def)
  have a: "allWhiteSpace (takeWhile isWhiteSpace s)"
    unfolding allWhiteSpace_def by (meson set_takeWhileD)
  have b: "allWhiteSpace (rev (takeWhile isWhiteSpace (rev ?y)))"
    unfolding allWhiteSpace_def by (metis set_rev set_takeWhileD)
  from 1 2 have "s = takeWhile isWhiteSpace s @ trim s @ rev (takeWhile isWhiteSpace (rev ?y))"
    by (metis)
  with a b show ?thesis by blast
qed

lemma allWhiteSpace_trim_empty: "trim s = [] \<Longrightarrow> allWhiteSpace s"
proof -
  assume e: "trim s = []"
  from trim_decompose[of s] obtain wa wb where
    "s = wa @ trim s @ wb" "allWhiteSpace wa" "allWhiteSpace wb" by blast
  with e show ?thesis by (auto simp: allWhiteSpace_def)
qed

lemma length_coresRest: "length (coresRest cs) = length cs"
  by (induction cs rule: coresRest.induct) simp_all

lemma splitLoop_weave_aux:
  assumes "splitLoop chunks text = Some out"
  shows "\<exists>new gaps. out = chunks @ new \<and> length gaps = length new \<and>
           (\<forall>g \<in> set gaps. allWhiteSpace g) \<and> text = weave (cores new) gaps \<and>
           (continuing text \<longrightarrow> prefix continuationMarker (hd (cores new)))"
  using assms
proof (induction rule: splitLoop_induct)
  case (empty chunks)
  show ?case by (simp add: continuing_def)
next
  case (short chunks t)
  have "continuing t \<longrightarrow> prefix continuationMarker t"
    by (auto simp: continuing_def)
  then show ?case
    by (intro exI[of _ "[t]"] exI[of _ "[[]]"]) (simp add: allWhiteSpace_def)
next
  case (last chunks t)
  let ?i = "findSplitIndex t"
  have w: "allWhiteSpace (drop ?i t)" by (rule allWhiteSpace_trim_empty[OF last(2)])
  have "continuing t \<longrightarrow> prefix continuationMarker (take ?i t)"
    using continuing_last_ge[OF _ last(2)] continuing_prefix_take by blast
  with w show ?case
    by (intro exI[of _ "[take ?i t]"] exI[of _ "[drop ?i t]"]) simp
next
  case (more chunks t out)
  let ?i = "findSplitIndex t"
  let ?c = "take ?i t @ continuedMarker"
  let ?r = "trim (drop ?i t)"
  let ?t' = "continuationMarker @ ?r"
  from more.IH obtain new' gaps' where n: "out = (chunks @ [?c]) @ new'"
      "length gaps' = length new'" "\<forall>g \<in> set gaps'. allWhiteSpace g"
      "?t' = weave (cores new') gaps'"
      "continuing ?t' \<longrightarrow> prefix continuationMarker (hd (cores new'))" by blast
  have ne: "new' \<noteq> []"
  proof
    assume "new' = []"
    with n(4) have "?t' = []" by simp
    then show False by (simp add: continuationMarker_eq)
  qed
  from continuing_next[OF more(2)] n(5)
  obtain h where h: "hd (cores new') = continuationMarker @ h" by (auto simp: prefix_def)
  from coresRest_cores[OF ne] have cr: "cores new' \<noteq> []"
      "coresRest new' = stripContinuation (hd (cores new')) # tl (cores new')" by auto
  from cr(1) have cn: "cores new' = (continuationMarker @ h) # tl (cores new')"
    using h by (metis list.collapse)
  from ne n(2) obtain g gs where g: "gaps' = g # gs" by (cases gaps') auto
  have cr': "coresRest new' = h # tl (cores new')"
    using cr(2) h by (simp add: stripContinuation_def)
  have "?t' = continuationMarker @ weave (coresRest new') gaps'"
    using n(4) by (subst (asm) cn) (simp add: g cr')
  then have r: "?r = weave (coresRest new') gaps'" by simp
  from trim_decompose[of "drop ?i t"] obtain wa wb where
    d: "drop ?i t = wa @ ?r @ wb" "allWhiteSpace wa" "allWhiteSpace wb" by blast
  let ?gaps = "wa # (butlast gaps' @ [last gaps' @ wb])"
  have len_cr: "length gaps' = length (coresRest new')"
    using n(2) by (simp add: length_coresRest)
  have crne: "coresRest new' \<noteq> []" using cr' by simp
  have "t = take ?i t @ drop ?i t" by simp
  also have "\<dots> = take ?i t @ wa @ weave (coresRest new') gaps' @ wb"
    using d(1) r by simp
  also have "\<dots> = take ?i t @ wa @ weave (coresRest new') (butlast gaps' @ [last gaps' @ wb])"
    by (simp only: weave_snoc_gap[OF len_cr crne])
  also have "\<dots> = weave (cores (?c # new')) ?gaps"
    by (simp only: cores_Cons[OF ne] stripContinued_marker weave.simps)
  finally have tw: "t = weave (cores (?c # new')) ?gaps" .
  have gl: "length ?gaps = length (?c # new')"
    using n(2) ne by simp
  have gne: "gaps' \<noteq> []" using g by simp
  have gw: "\<forall>x \<in> set ?gaps. allWhiteSpace x"
  proof
    fix x assume "x \<in> set ?gaps"
    then consider "x = wa" | "x \<in> set (butlast gaps')" | "x = last gaps' @ wb" by auto
    then show "allWhiteSpace x"
    proof cases
      case 1
      with d(2) show ?thesis by simp
    next
      case 2
      then have "x \<in> set gaps'" by (rule in_set_butlastD)
      with n(3) show ?thesis by simp
    next
      case 3
      from gne have "last gaps' \<in> set gaps'" by simp
      with n(3) have "allWhiteSpace (last gaps')" by simp
      with d(3) 3 show ?thesis by (auto simp: allWhiteSpace_def)
    qed
  qed
  have "continuing t \<longrightarrow> prefix continuationMarker (hd (cores (?c # new')))"
  proof
    assume c: "continuing t"
    have "23 \<le> ?i"
    proof (rule ccontr)
      assume "\<not> 23 \<le> ?i"
      then have "findSplitIndex t < 23" by simp
      with c more(1) have "splitLoop chunks t = None" by (intro splitLoop_stuck)
      with more(3) show False by simp
    qed
    with c have "prefix continuationMarker (take ?i t)" by (rule continuing_prefix_take)
    then show "prefix continuationMarker (hd (cores (?c # new')))"
      by (simp only: cores_Cons[OF ne] list.sel stripContinued_marker)
  qed
  with tw gl gw n(1) show ?case
    by (intro exI[of _ "?c # new'"] exI[of _ ?gaps]) simp
qed

lemma no_match_notin: "x \<notin> set s \<Longrightarrow> \<not> matchesAt s [x, y] j"
  by (auto simp: matchesAt2)

lemma dotsp_eq: "js ''. '' = [46, 32]"
  by (simp add: js_def)

lemma findSplitIndex_hardcut:
  assumes "10 \<notin> set s" "46 \<notin> set s"
  shows "findSplitIndex s = MAX_LENGTH"
proof -
  have "lastIndexOf s [10, 10] MAX_LENGTH = None"
    by (rule lastIndexOf_NoneI) (rule no_match_notin[OF assms(1)])
  moreover have "lastIndexOf s [46, 32] MAX_LENGTH = None"
    by (rule lastIndexOf_NoneI) (rule no_match_notin[OF assms(2)])
  ultimately show ?thesis by (simp add: findSplitIndex_def nlnl_eq dotsp_eq)
qed

lemma findSplitIndex_cont_only:
  assumes "10 \<notin> set r"
  shows "findSplitIndex (continuationMarker @ r) = 21"
proof -
  have "lastIndexOf (continuationMarker @ r) [10, 10] MAX_LENGTH = Some 21"
  proof (rule lastIndexOf_eqI)
    show "matchesAt (continuationMarker @ r) [10, 10] 21" by (rule matchesAt_cont_21)
    show "21 \<le> MAX_LENGTH" by (simp add: MAX_LENGTH_def)
  next
    fix j :: nat assume j: "21 < j"
    show "\<not> matchesAt (continuationMarker @ r) [10, 10] j"
    proof
      assume "matchesAt (continuationMarker @ r) [10, 10] j"
      then have m: "Suc j < length (continuationMarker @ r)" "(continuationMarker @ r) ! Suc j = 10"
        by (simp_all add: matchesAt2)
      from j have "Suc j \<ge> length continuationMarker" by (simp add: length_continuationMarker)
      then have "(continuationMarker @ r) ! Suc j = r ! (Suc j - length continuationMarker)"
        by (simp add: nth_append)
      moreover from m(1) j have "Suc j - length continuationMarker < length r"
        by (simp add: length_continuationMarker)
      ultimately have "10 \<in> set r" using m(2) by (metis nth_mem)
      with assms show False by simp
    qed
  qed
  then show ?thesis by (simp add: findSplitIndex_def nlnl_eq)
qed

lemma trim_no_ws: "\<forall>c \<in> set s. \<not> isWhiteSpace c \<Longrightarrow> trim s = s"
proof -
  assume a: "\<forall>c \<in> set s. \<not> isWhiteSpace c"
  then have 1: "dropWhile isWhiteSpace s = s" by (cases s) auto
  from a have "\<forall>c \<in> set (rev s). \<not> isWhiteSpace c" by simp
  then have 2: "dropWhile isWhiteSpace (rev s) = rev s" by (cases "rev s") auto
  show ?thesis by (simp add: trim_def 1 2)
qed

text \<open>A text without white space and without a period never gets past its second chunk when
  what is left after the first cut does not fit into one chunk.\<close>

lemma splitResponse_never_returns:
  assumes nows: "\<forall>c \<in> set text. \<not> isWhiteSpace c" and nodot: "46 \<notin> set text"
    and long: "2 * MAX_LENGTH - length continuationMarker < length text"
  shows "splitResponse text = None"
proof -
  let ?r = "drop MAX_LENGTH text"
  from nows ws10 have n10: "10 \<notin> set text" by auto
  have fsi: "findSplitIndex text = MAX_LENGTH" by (rule findSplitIndex_hardcut[OF n10 nodot])
  from long have len: "MAX_LENGTH < length text" by (simp add: length_continuationMarker MAX_LENGTH_def)
  from nows have nows': "\<forall>c \<in> set ?r. \<not> isWhiteSpace c" by (meson in_set_dropD)
  then have tr: "trim ?r = ?r" by (rule trim_no_ws)
  from len have ne: "?r \<noteq> []" by simp
  have step: "splitLoop [] text = splitLoop ([] @ [take MAX_LENGTH text @ continuedMarker]) (continuationMarker @ ?r)"
    using len ne by (subst splitLoop_long) (simp_all add: fsi tr)
  have c: "continuing (continuationMarker @ ?r)"
    unfolding continuing_def using ne tr by blast
  from n10 have "10 \<notin> set ?r" by (meson in_set_dropD)
  then have "findSplitIndex (continuationMarker @ ?r) = 21" by (rule findSplitIndex_cont_only)
  then have lt: "findSplitIndex (continuationMarker @ ?r) < 23" by simp
  from long have "MAX_LENGTH < length (continuationMarker @ ?r)"
    by (simp add: length_continuationMarker MAX_LENGTH_def)
  from splitLoop_stuck[OF c this lt] step show ?thesis by (simp add: splitResponse_def)
qed

lemma splitResponse_within_budget:
  "length text \<le> MAX_LENGTH \<Longrightarrow> splitResponse text = Some (if text = [] then [] else [text])"
  by (simp add: splitResponse_def splitLoop_empty splitLoop_short)

text \<open>One cut, nothing but a hard cut available.\<close>

lemma splitResponse_one_hard_cut:
  assumes n10: "10 \<notin> set text" and nodot: "46 \<notin> set text"
    and len: "MAX_LENGTH < length text"
    and r: "trim (drop MAX_LENGTH text) = r" "r \<noteq> []" "length r + length continuationMarker \<le> MAX_LENGTH"
  shows "splitResponse text = Some [take MAX_LENGTH text @ continuedMarker, continuationMarker @ r]"
proof -
  have fsi: "findSplitIndex text = MAX_LENGTH" by (rule findSplitIndex_hardcut[OF n10 nodot])
  have "splitLoop [] text = splitLoop ([] @ [take MAX_LENGTH text @ continuedMarker]) (continuationMarker @ r)"
    using len r by (subst splitLoop_long) (simp_all add: fsi)
  also have "\<dots> = Some (([] @ [take MAX_LENGTH text @ continuedMarker]) @ [continuationMarker @ r])"
    using r by (intro splitLoop_short) auto
  finally show ?thesis by (simp add: splitResponse_def)
qed

lemma ex_4001:
  "splitResponse (replicate 4001 97)
     = Some [replicate 4000 97 @ continuedMarker, continuationMarker @ [97]]"
proof -
  have d: "drop MAX_LENGTH (replicate 4001 (97::nat)) = [97]" by (simp add: MAX_LENGTH_def)
  have t: "trim [97] = [97]" by (rule trim_no_ws) (simp add: isWhiteSpace_def)
  have "splitResponse (replicate 4001 97)
     = Some [take MAX_LENGTH (replicate 4001 97) @ continuedMarker, continuationMarker @ [97]]"
    by (rule splitResponse_one_hard_cut)
       (simp_all add: d t MAX_LENGTH_def length_continuationMarker)
  then show ?thesis by (simp add: MAX_LENGTH_def)
qed

lemma ex_4002:
  "splitResponse (replicate 4000 97 @ [32, 98])
     = Some [replicate 4000 97 @ continuedMarker, continuationMarker @ [98]]"
proof -
  have d: "drop MAX_LENGTH (replicate 4000 (97::nat) @ [32, 98]) = [32, 98]" by (simp add: MAX_LENGTH_def)
  have t: "trim [32, 98] = [98]" by (simp add: trim_def isWhiteSpace_def)
  have "splitResponse (replicate 4000 97 @ [32, 98])
     = Some [take MAX_LENGTH (replicate 4000 97 @ [32, 98]) @ continuedMarker, continuationMarker @ [98]]"
    by (rule splitResponse_one_hard_cut)
       (simp_all add: d t MAX_LENGTH_def length_continuationMarker)
  then show ?thesis by (simp add: MAX_LENGTH_def)
qed

lemma findSplitIndex_blank_line:
  assumes la: "length a \<le> MAX_LENGTH" and b1: "10 \<notin> set b1"
    and far: "MAX_LENGTH < length a + 1 + length b1"
  shows "findSplitIndex (a @ [10, 10] @ b1 @ b2) = length a"
proof -
  let ?s = "a @ [10, 10] @ b1 @ b2"
  have "lastIndexOf ?s [10, 10] MAX_LENGTH = Some (length a)"
  proof (rule lastIndexOf_eqI)
    show "matchesAt ?s [10, 10] (length a)" by (simp add: matchesAt_def)
    show "length a \<le> MAX_LENGTH" by (rule la)
  next
    fix j assume j: "length a < j" "j \<le> MAX_LENGTH"
    show "\<not> matchesAt ?s [10, 10] j"
    proof
      assume "matchesAt ?s [10, 10] j"
      then have m: "?s ! Suc j = 10" by (simp add: matchesAt2)
      let ?k = "Suc j - (length a + 2)"
      from j far have k: "?k < length b1" by simp
      have "?s = (a @ [10, 10]) @ (b1 @ b2)" by simp
      moreover from j have "length (a @ [10, 10]) \<le> Suc j" by simp
      ultimately have "?s ! Suc j = (b1 @ b2) ! (Suc j - length (a @ [10, 10]))"
        by (metis nth_append not_less)
      also have "\<dots> = b1 ! ?k" using k by (simp add: nth_append)
      finally have "b1 ! ?k = 10" using m by simp
      with k have "10 \<in> set b1" by (metis nth_mem)
      with b1 show False by simp
    qed
  qed
  then show ?thesis by (simp add: findSplitIndex_def nlnl_eq)
qed

lemma trim_ends:
  assumes "s \<noteq> []" "\<not> isWhiteSpace (hd s)" "\<not> isWhiteSpace (last s)"
  shows "trim s = s"
proof -
  from assms have 1: "dropWhile isWhiteSpace s = s" by (cases s) auto
  from assms have "rev s \<noteq> []" "\<not> isWhiteSpace (hd (rev s))" by (simp_all add: hd_rev)
  then have 2: "dropWhile isWhiteSpace (rev s) = rev s" by (cases "rev s") auto
  show ?thesis by (simp add: trim_def 1 2)
qed

lemma splitLoop_step:
  assumes "MAX_LENGTH < length t" "findSplitIndex t = i" "take i t = c" "trim (drop i t) = r" "r \<noteq> []"
  shows "splitLoop chunks t = splitLoop (chunks @ [c @ continuedMarker]) (continuationMarker @ r)"
  using assms by (subst splitLoop_long) auto

lemma length_text9000: "length text9000 = 9000"
  by (simp add: text9000_def)

lemma ex_9000:
  "splitResponse text9000
     = Some [replicate 3000 97 @ continuedMarker,
             continuationMarker @ replicate 3000 98 @ continuedMarker,
             continuationMarker @ replicate 2996 99]"
proof -
  let ?A = "replicate 3000 (97::nat)"
  let ?B = "replicate 3000 (98::nat)"
  let ?C = "replicate 2996 (99::nat)"
  let ?R1 = "?B @ [10, 10] @ ?C"
  have tC: "trim ?C = ?C" by (rule trim_no_ws) (simp add: isWhiteSpace_def)
  have tR1: "trim ?R1 = ?R1" by (rule trim_ends) (simp_all add: isWhiteSpace_def hd_append)
  have w: "\<forall>c \<in> set [10, 10::nat]. isWhiteSpace c" by (simp add: isWhiteSpace_def)
  \<comment> \<open>first pass\<close>
  have f1: "findSplitIndex (?A @ [10, 10] @ ?B @ ([10, 10] @ ?C)) = length ?A"
    by (rule findSplitIndex_blank_line) (simp_all add: MAX_LENGTH_def)
  then have f1': "findSplitIndex text9000 = 3000" by (simp add: text9000_def)
  have d1: "drop 3000 text9000 = [10, 10] @ ?R1" by (simp add: text9000_def)
  have t1: "trim (drop 3000 text9000) = ?R1"
    unfolding d1 using trim_ws_prefix[OF w, of ?R1] tR1 by simp
  have k1: "take 3000 text9000 = ?A" by (simp add: text9000_def)
  have s1: "splitLoop [] text9000
      = splitLoop ([] @ [?A @ continuedMarker]) (continuationMarker @ ?R1)"
  proof (rule splitLoop_step[OF _ f1' k1 t1])
    show "MAX_LENGTH < length text9000" by (simp add: length_text9000 MAX_LENGTH_def)
    show "?R1 \<noteq> []" by simp
  qed
  \<comment> \<open>second pass\<close>
  let ?T2 = "continuationMarker @ ?R1"
  have f2: "findSplitIndex ((continuationMarker @ ?B) @ [10, 10] @ ?C @ []) = length (continuationMarker @ ?B)"
    by (rule findSplitIndex_blank_line) (simp_all add: MAX_LENGTH_def length_continuationMarker)
  then have f2': "findSplitIndex ?T2 = 3023" by (simp add: length_continuationMarker)
  have d2: "drop 3023 ?T2 = [10, 10] @ ?C" by (simp add: length_continuationMarker)
  have t2: "trim (drop 3023 ?T2) = ?C"
    unfolding d2 using trim_ws_prefix[OF w, of ?C] tC by simp
  have k2: "take 3023 ?T2 = continuationMarker @ ?B" by (simp add: length_continuationMarker)
  have s2: "splitLoop [?A @ continuedMarker] ?T2
      = splitLoop ([?A @ continuedMarker] @ [(continuationMarker @ ?B) @ continuedMarker]) (continuationMarker @ ?C)"
  proof (rule splitLoop_step[OF _ f2' k2 t2])
    show "MAX_LENGTH < length ?T2" by (simp add: length_continuationMarker MAX_LENGTH_def)
    show "?C \<noteq> []" by simp
  qed
  \<comment> \<open>third pass\<close>
  have s3: "splitLoop ([?A @ continuedMarker] @ [(continuationMarker @ ?B) @ continuedMarker]) (continuationMarker @ ?C)
      = Some (([?A @ continuedMarker] @ [(continuationMarker @ ?B) @ continuedMarker]) @ [continuationMarker @ ?C])"
    by (rule splitLoop_short) (simp_all add: MAX_LENGTH_def length_continuationMarker)
  from s1 s2 s3 show ?thesis by (simp add: splitResponse_def)
qed

section \<open>Claims about the chunker\<close>

text \<open>
  Claim C4, as the code has it. A cut is made at index 4000 at the latest and the continuation
  marker (23 code units) is appended after the cut, so a chunk may exceed the budget by the
  marker. Whenever \<open>splitResponse\<close> returns: every chunk has at most 4023 code units; every
  chunk but the last is at most 4000 code units followed by the continuation marker; the last
  chunk has at most 4000 code units; every chunk but the first starts with the reciprocal
  marker.
\<close>

theorem splitResponse_chunk_bound:
  assumes "splitResponse text = Some chunks"
  shows "(\<forall>c \<in> set chunks. length c \<le> 4023) \<and>
         (\<forall>c \<in> set (butlast chunks). \<exists>core. c = core @ continuedMarker \<and> length core \<le> 4000) \<and>
         (chunks \<noteq> [] \<longrightarrow> length (last chunks) \<le> 4000) \<and>
         (\<forall>c \<in> set (tl chunks). prefix continuationMarker c)"
proof -
  from assms have "splitLoop [] text = Some chunks" by (simp add: splitResponse_def)
  from splitLoop_shape_aux[OF this] have shape: "chunkShape chunks" by auto
  have "\<forall>c \<in> set chunks. length c \<le> 4023"
    using chunkShape_length[OF shape] by (simp add: MAX_LENGTH_def length_continuedMarker)
  with shape show ?thesis unfolding chunkShape_def MAX_LENGTH_def by blast
qed

text \<open>The 9000-character answer \<open>text9000\<close> comes back as three chunks of that shape: the first
  ends with the continuation marker and the second starts with the reciprocal marker.\<close>

theorem splitResponse_chunk_bound_witness:
  "length text9000 = 9000 \<and>
   splitResponse text9000
     = Some [replicate 3000 97 @ continuedMarker,
             continuationMarker @ replicate 3000 98 @ continuedMarker,
             continuationMarker @ replicate 2996 99] \<and>
   length (replicate 3000 97 @ continuedMarker) \<le> 4023 \<and>
   length (continuationMarker @ replicate 3000 98 @ continuedMarker) \<le> 4023 \<and>
   length (continuationMarker @ replicate 2996 99) \<le> 4000 \<and>
   suffix continuedMarker (replicate 3000 97 @ continuedMarker) \<and>
   prefix continuationMarker (continuationMarker @ replicate 3000 98 @ continuedMarker)"
  using splitResponse_chunk_bound[OF ex_9000] ex_9000 length_text9000
  by (simp add: suffix_def)

text \<open>The claim as stated fails on 4001 characters without a break point: the first chunk is
  the first 4000 characters and the marker, 4023 code units.\<close>

theorem splitResponse_chunk_over_budget:
  "splitResponse (replicate 4001 97)
     = Some [replicate 4000 97 @ continuedMarker, continuationMarker @ [97]] \<and>
   length (replicate 4000 97 @ continuedMarker) = 4023 \<and>
   \<not> length (replicate 4000 97 @ continuedMarker) \<le> MAX_LENGTH"
  using ex_4001 by (simp add: length_continuedMarker MAX_LENGTH_def)

text \<open>
  Claim C5, as the code has it. An input within the budget comes back as it is: no chunk when
  it is empty, otherwise one chunk equal to the input. Whenever \<open>splitResponse\<close> returns, a
  non-empty input has at least one chunk, and the input is the chunks without their markers,
  in order, each followed by a run of white space that may be empty: \<open>trim\<close> drops the white
  space around every cut. So the chunks without their markers, concatenated, are the input up
  to white space.
\<close>

theorem splitResponse_roundtrip:
  "(length text \<le> MAX_LENGTH \<longrightarrow> splitResponse text = Some (if text = [] then [] else [text])) \<and>
   (splitResponse text = Some chunks \<longrightarrow>
      (text \<noteq> [] \<longrightarrow> chunks \<noteq> []) \<and>
      (\<exists>gaps. length gaps = length chunks \<and> (\<forall>g \<in> set gaps. allWhiteSpace g) \<and>
          text = weave (cores chunks) gaps) \<and>
      squash (concat (cores chunks)) = squash text)"
proof (intro conjI impI)
  assume "length text \<le> MAX_LENGTH"
  then show "splitResponse text = Some (if text = [] then [] else [text])"
    by (rule splitResponse_within_budget)
next
  assume "splitResponse text = Some chunks"
  then have r: "splitLoop [] text = Some chunks" by (simp add: splitResponse_def)
  from splitLoop_roundtrip_aux[OF r] show "squash (concat (cores chunks)) = squash text" by auto
  from splitLoop_weave_aux[OF r]
  show "\<exists>gaps. length gaps = length chunks \<and> (\<forall>g \<in> set gaps. allWhiteSpace g) \<and>
          text = weave (cores chunks) gaps" by auto
  assume "text \<noteq> []"
  with splitLoop_roundtrip_aux[OF r] show "chunks \<noteq> []" by auto
qed

theorem splitResponse_roundtrip_witness:
  "length (js ''salam'') \<le> MAX_LENGTH \<and> js ''salam'' \<noteq> [] \<and>
   splitResponse (js ''salam'') = Some [js ''salam''] \<and>
   squash (concat (cores [js ''salam''])) = squash (js ''salam'') \<and>
   splitResponse (replicate 4000 97 @ [32, 98])
     = Some [replicate 4000 97 @ continuedMarker, continuationMarker @ [98]] \<and>
   (\<exists>gaps. length gaps = 2 \<and>
      replicate 4000 97 @ [32, 98]
        = weave (cores [replicate 4000 97 @ continuedMarker, continuationMarker @ [98]]) gaps) \<and>
   squash (concat (cores [replicate 4000 97 @ continuedMarker, continuationMarker @ [98]]))
     = squash (replicate 4000 97 @ [32, 98])"
proof -
  have l: "length (js ''salam'') \<le> MAX_LENGTH" and n: "js ''salam'' \<noteq> []"
    by (simp_all add: js_def MAX_LENGTH_def)
  from splitResponse_roundtrip[of "js ''salam''" "[js ''salam'']"] l n
  have a: "splitResponse (js ''salam'') = Some [js ''salam'']"
    and b: "squash (concat (cores [js ''salam''])) = squash (js ''salam'')" by simp_all
  from splitResponse_roundtrip[of "replicate 4000 97 @ [32, 98]"
      "[replicate 4000 97 @ continuedMarker, continuationMarker @ [98]]"] ex_4002
  have c: "squash (concat (cores [replicate 4000 97 @ continuedMarker, continuationMarker @ [98]]))
     = squash (replicate 4000 97 @ [32, 98])"
    and d: "\<exists>gaps. length gaps = length [replicate 4000 97 @ continuedMarker, continuationMarker @ [98]] \<and>
      (\<forall>g \<in> set gaps. allWhiteSpace g) \<and>
      replicate 4000 97 @ [32, 98]
        = weave (cores [replicate 4000 97 @ continuedMarker, continuationMarker @ [98]]) gaps"
    by blast+
  from d obtain gaps where
    g: "length gaps = length [replicate 4000 97 @ continuedMarker, continuationMarker @ [98]]"
       "replicate 4000 97 @ [32, 98]
        = weave (cores [replicate 4000 97 @ continuedMarker, continuationMarker @ [98]]) gaps"
    by blast
  from g(1) have "length gaps = 2" by simp
  with g(2) have d': "\<exists>gaps. length gaps = 2 \<and>
      replicate 4000 97 @ [32, 98]
        = weave (cores [replicate 4000 97 @ continuedMarker, continuationMarker @ [98]]) gaps"
    by blast
  from l n a b c d' ex_4002 show ?thesis by blast
qed

text \<open>The claim as stated fails when white space stands at a cut: of 4000 letters, a space
  and one more letter, the space is lost.\<close>

theorem splitResponse_roundtrip_loses_space:
  "splitResponse (replicate 4000 97 @ [32, 98])
     = Some [replicate 4000 97 @ continuedMarker, continuationMarker @ [98]] \<and>
   concat (cores [replicate 4000 97 @ continuedMarker, continuationMarker @ [98]])
     = replicate 4000 97 @ [98] \<and>
   concat (cores [replicate 4000 97 @ continuedMarker, continuationMarker @ [98]])
     \<noteq> replicate 4000 97 @ [32, 98]"
  using ex_4002 by (simp add: stripContinued_def stripContinuation_def)

text \<open>
  Claim C10 says that \<open>splitResponse\<close> returns on every input. On 9000 letters without a blank
  line, a period or white space it does not: after the first cut the text is the reciprocal
  marker and 5000 letters, the only blank line at or before index 4000 is the one that ends
  the marker, at index 21, and the cut there leaves the same 5000 letters for the next pass.
\<close>

theorem splitResponse_does_not_return:
  "splitResponse (replicate 9000 97) = None"
  by (rule splitResponse_never_returns)
     (simp_all add: isWhiteSpace_def MAX_LENGTH_def length_continuationMarker)

section \<open>Lower case\<close>

lemma toCodePoints_ascii: "\<forall>c \<in> set s. c < 128 \<Longrightarrow> toCodePoints s = s"
  by (induction s rule: toCodePoints.induct) auto

lemma lowerPoints_ascii:
  "\<forall>c \<in> set s. c < 128 \<Longrightarrow> lowerPoints preceding s = map toLowerAscii s"
  by (induction s arbitrary: preceding) (auto simp: simpleLower_def)

lemma concat_fromCodePoint: "\<forall>c \<in> set s. c < 0x10000 \<Longrightarrow> concat (map fromCodePoint s) = s"
  by (induction s) (auto simp: fromCodePoint_def)

text \<open>On ASCII texts only the letters \<open>A\<close> to \<open>Z\<close> change.\<close>

lemma toLowerCase_ascii:
  assumes "\<forall>c \<in> set s. c < 128"
  shows "toLowerCase s = map toLowerAscii s"
proof -
  have "\<forall>c \<in> set (map toLowerAscii s). c < 0x10000"
    using assms by (auto simp: toLowerAscii_def)
  then show ?thesis
    unfolding toLowerCase_def toCodePoints_ascii[OF assms] lowerPoints_ascii[OF assms]
    by (rule concat_fromCodePoint)
qed

lemma toLowerCase_kelvin: "toLowerCase [0x212A] = [0x6B]"
  by (simp add: toLowerCase_def simpleLower_def lowerRanges_def fromCodePoint_def)

lemma toLowerCase_dotted_I: "toLowerCase [0x130] = [0x69, 0x307]"
  by (simp add: toLowerCase_def fromCodePoint_def)

lemma toLowerCase_final_sigma:
  "toLowerCase [0x39F, 0x394, 0x39F, 0x3A3] = [0x3BF, 0x3B4, 0x3BF, 0x3C2]"
  "toLowerCase [0x3A3, 0x39F] = [0x3C3, 0x3BF]"
  by (simp_all add: toLowerCase_def simpleLower_def lowerRanges_def casedRanges_def
      caseIgnorableRanges_def fromCodePoint_def)

lemma toLowerCase_deseret: "toLowerCase [0xD801, 0xDC00] = [0xD801, 0xDC28]"
  by (simp add: toLowerCase_def simpleLower_def lowerRanges_def fromCodePoint_def)

section \<open>Evaluation\<close>

text \<open>The definitions a concrete text is evaluated with.\<close>

lemmas char_defs = isWhiteSpace_def isLineTerminator_def isWordChar_def isDigit_def
  toUpperAscii_def toLowerAscii_def isWordOpt_def headOpt_def wordBoundary_def lineStart_def

lemmas mention_defs = removeBotMention_def isBotMentioned_def replaceAll_def usernameMatcher_def
  aliasMatcher_def aliasAt_def tokAyahVariations_def stripLeadingPunctuation_def trim_def
  toLowerCase_ascii


lemmas simple_defs = isSimpleInteraction_def timeGreetings_def greetings_def thanks_def
  testMessages_def introPatterns_def capabilityPatterns_def statusChecks_def
  whoAreYouAt_def youAt_def trim_def toLowerCase_ascii

text \<open>The formatter returns its markup only when the validator accepts it.\<close>

lemma formatResponseForTelegram_cases:
  "(formatResponseForTelegram text = addSpacing (applyFormatting (escapeHtml text)) \<and>
      tagsValid (formatResponseForTelegram text)) \<or>
   formatResponseForTelegram text = simpleFormatting text"
  by (simp add: formatResponseForTelegram_def Let_def)

section \<open>The plain rendering adds no markup\<close>

text \<open>A global replacement whose replacements are made of code units of the matched text and of
  a set \<open>A\<close> yields a text made of code units of the input and of \<open>A\<close>.\<close>

lemma replaceScan_subset:
  "\<forall>prev s n rep. m prev s = Some (n, rep) \<longrightarrow> set rep \<subseteq> set s \<union> A \<Longrightarrow>
   set (replaceScan m k prev s) \<subseteq> set s \<union> A"
proof (induction m k prev s rule: replaceScan.induct)
  case (1 m skip prev)
  show ?case
  proof (cases "m prev []")
    case None
    then show ?thesis by (cases skip) simp_all
  next
    case (Some p)
    obtain n rep where p: "p = (n, rep)" by (cases p)
    from "1.prems" Some p have "set rep \<subseteq> set [] \<union> A" by blast
    with Some p show ?thesis by (cases skip) simp_all
  qed
next
  case (2 m k prev c cs)
  then have "set (replaceScan m k (Some c) cs) \<subseteq> set cs \<union> A" by blast
  then show ?case by auto
next
  case (3 m prev c cs)
  note mm = "3.prems"
  show ?case
  proof (cases "m prev (c # cs)")
    case None
    with 3 have "set (replaceScan m 0 (Some c) cs) \<subseteq> set cs \<union> A" by blast
    with None show ?thesis by auto
  next
    case (Some p)
    obtain n rep where p: "p = (n, rep)" by (cases p)
    from mm Some p have r: "set rep \<subseteq> set (c # cs) \<union> A" by blast
    show ?thesis
    proof (cases n)
      case 0
      have "set (replaceScan m 0 (Some c) cs) \<subseteq> set cs \<union> A"
        using "3.IH"(2)[of p n rep] Some p 0 mm by blast
      with Some p 0 r show ?thesis by auto
    next
      case (Suc k)
      have "set (replaceScan m k (Some c) cs) \<subseteq> set cs \<union> A"
        using "3.IH"(3)[of p n rep k] Some p Suc mm by blast
      with Some p Suc r show ?thesis by auto
    qed
  qed
qed

lemma replaceAll_subset:
  assumes "\<And>prev s n rep. m prev s = Some (n, rep) \<Longrightarrow> set rep \<subseteq> set s \<union> A"
  shows "set (replaceAll m s) \<subseteq> set s \<union> A"
  unfolding replaceAll_def using assms by (intro replaceScan_subset) blast

text \<open>The bodies the matchers capture are pieces of the input.\<close>

lemma lazyUntil_subset: "lazyUntil close s = Some body \<Longrightarrow> set body \<subseteq> set s"
proof (induction close s arbitrary: body rule: lazyUntil.induct)
  case (1 close)
  then show ?case by (simp split: if_splits)
next
  case (2 close c cs)
  show ?case
  proof (cases "prefix close (c # cs)")
    case True
    with 2 show ?thesis by simp
  next
    case False
    note np = this
    show ?thesis
    proof (cases "isLineTerminator c")
      case True
      with np 2 show ?thesis by simp
    next
      case False
      with np "2.prems" obtain b where b: "lazyUntil close cs = Some b" "body = c # b" by auto
      from "2.IH"[OF np False b(1)] b(2) show ?thesis by auto
    qed
  qed
qed


lemma lineMatcher_subset:
  assumes "\<And>g. set (render g) \<subseteq> set g \<union> A" and "lineMatcher pre render prev s = Some (n, rep)"
  shows "set rep \<subseteq> set s \<union> A"
proof -
  let ?body = "takeWhile (\<lambda>c. \<not> isLineTerminator c) (drop (length pre) s)"
  from assms(2) have "rep = render ?body"
    by (auto simp: lineMatcher_def Let_def split: if_splits)
  moreover have "set ?body \<subseteq> set s" by (meson in_set_dropD set_takeWhileD subsetI)
  ultimately show ?thesis using assms(1)[of ?body] by auto
qed

lemma spanMatcher_subset:
  assumes "\<And>g. set (render g) \<subseteq> set g \<union> A" and "spanMatcher delim render prev s = Some (n, rep)"
  shows "set rep \<subseteq> set s \<union> A"
proof -
  from assms(2) obtain body where b: "lazyUntil delim (drop (length delim) s) = Some body" "rep = render body"
    by (auto simp: spanMatcher_def split: if_splits option.splits)
  from lazyUntil_subset[OF b(1)] have "set body \<subseteq> set s" by (meson in_set_dropD subsetD subsetI)
  with b(2) assms(1)[of body] show ?thesis by auto
qed

lemma const_matchers_subset:
  "linePrefixMatcher pre rep0 prev s = Some (n, rep) \<Longrightarrow> rep = rep0"
  "numberedMatcher rep0 prev s = Some (n, rep) \<Longrightarrow> rep = rep0"
  "blankLinesMatcher prev s = Some (n, rep) \<Longrightarrow> rep = [10, 10]"
  by (auto simp: linePrefixMatcher_def numberedMatcher_def blankLinesMatcher_def js_def Let_def
      split: if_splits list.splits)

lemma set_trim_subset: "set (trim s) \<subseteq> set s"
  unfolding trim_def by (metis set_dropWhileD set_rev subsetI)

lemma lineMatcher_replace_subset:
  assumes "\<And>g. set (render g) \<subseteq> set g \<union> A"
  shows "set (replaceAll (lineMatcher pre render) s) \<subseteq> set s \<union> A"
  by (rule replaceAll_subset) (rule lineMatcher_subset[OF assms])

lemma spanMatcher_replace_subset:
  assumes "\<And>g. set (render g) \<subseteq> set g \<union> A"
  shows "set (replaceAll (spanMatcher delim render) s) \<subseteq> set s \<union> A"
  by (rule replaceAll_subset) (rule spanMatcher_subset[OF assms])

lemma const_replace_subset:
  assumes "set rep0 \<subseteq> A"
  shows "set (replaceAll (linePrefixMatcher pre rep0) s) \<subseteq> set s \<union> A"
    and "set (replaceAll (numberedMatcher rep0) s) \<subseteq> set s \<union> A"
  using assms by (auto intro!: replaceAll_subset dest!: const_matchers_subset)

lemma blankLines_replace_subset:
  assumes "10 \<in> A"
  shows "set (replaceAll blankLinesMatcher s) \<subseteq> set s \<union> A"
  using assms by (auto intro!: replaceAll_subset dest!: const_matchers_subset)

text \<open>The plain rendering is made of code units of its input and of its own marks; none of the
  marks is an angle bracket.\<close>

lemma simpleFormatting_subset: "set (simpleFormatting text) \<subseteq> set text \<union> plainMarks"
proof -
  let ?s1 = "replaceAll (lineMatcher (js ''### '') (\<lambda>g. [0x25B6] @ js '' '' @ g)) text"
  let ?s2 = "replaceAll (lineMatcher (js ''## '') (\<lambda>g. [0x25B6] @ js '' '' @ g)) ?s1"
  let ?s3 = "replaceAll (lineMatcher (js ''# '') (\<lambda>g. [0x25B6] @ js '' '' @ g)) ?s2"
  let ?s4 = "replaceAll (spanMatcher (js ''**'') (\<lambda>g. [0x25B6] @ js '' '' @ g @ js '' '' @ [0x25C0])) ?s3"
  let ?s5 = "replaceAll (spanMatcher (js ''*'') (\<lambda>g. [0x2022] @ js '' '' @ g @ js '' '' @ [0x2022])) ?s4"
  let ?s6 = "replaceAll (lineMatcher (js ''> '') (\<lambda>g. js ''  '' @ [0xBB] @ js '' '' @ g)) ?s5"
  let ?s7 = "replaceAll (numberedMatcher ([0x2022] @ js '' '')) ?s6"
  let ?s8 = "replaceAll (linePrefixMatcher (js ''- '') ([0x2022] @ js '' '')) ?s7"
  let ?s9 = "replaceAll blankLinesMatcher ?s8"
  have 1: "set ?s1 \<subseteq> set text \<union> plainMarks"
    by (rule lineMatcher_replace_subset) (auto simp: js_def plainMarks_def)
  have 2: "set ?s2 \<subseteq> set ?s1 \<union> plainMarks"
    by (rule lineMatcher_replace_subset) (auto simp: js_def plainMarks_def)
  have 3: "set ?s3 \<subseteq> set ?s2 \<union> plainMarks"
    by (rule lineMatcher_replace_subset) (auto simp: js_def plainMarks_def)
  have 4: "set ?s4 \<subseteq> set ?s3 \<union> plainMarks"
    by (rule spanMatcher_replace_subset) (auto simp: js_def plainMarks_def)
  have 5: "set ?s5 \<subseteq> set ?s4 \<union> plainMarks"
    by (rule spanMatcher_replace_subset) (auto simp: js_def plainMarks_def)
  have 6: "set ?s6 \<subseteq> set ?s5 \<union> plainMarks"
    by (rule lineMatcher_replace_subset) (auto simp: js_def plainMarks_def)
  have 7: "set ?s7 \<subseteq> set ?s6 \<union> plainMarks"
    by (rule const_replace_subset) (auto simp: js_def plainMarks_def)
  have 8: "set ?s8 \<subseteq> set ?s7 \<union> plainMarks"
    by (rule const_replace_subset) (auto simp: js_def plainMarks_def)
  have 9: "set ?s9 \<subseteq> set ?s8 \<union> plainMarks"
    by (rule blankLines_replace_subset) (simp add: plainMarks_def)
  have 10: "set (trim ?s9) \<subseteq> set ?s9" by (rule set_trim_subset)
  have "set (trim ?s9) \<subseteq> set text \<union> plainMarks"
    using 1 2 3 4 5 6 7 8 9 10 by blast
  then show ?thesis by (simp only: simpleFormatting_def)
qed

lemma tagSequence_no_lt: "60 \<notin> set s \<Longrightarrow> tagSequence s = []"
  by (induction s) (auto simp: js_def)

lemma simpleFormatting_adds_no_tag:
  "60 \<notin> set text \<Longrightarrow> 60 \<notin> set (simpleFormatting text) \<and> tagsValid (simpleFormatting text)"
proof -
  assume a: "60 \<notin> set text"
  have "60 \<notin> plainMarks" by (simp add: plainMarks_def)
  with a simpleFormatting_subset[of "text"] have n: "60 \<notin> set (simpleFormatting text)" by blast
  then show ?thesis by (simp add: tagsValid_def tagSequence_no_lt)
qed

text \<open>A text without \<open><\<close> is formatted into valid markup, whichever path is taken.\<close>

lemma formatResponseForTelegram_safe_without_lt:
  "60 \<notin> set text \<Longrightarrow> tagsValid (formatResponseForTelegram text)"
  using simpleFormatting_adds_no_tag[of "text"]
  by (auto simp: formatResponseForTelegram_def Let_def)

section \<open>Claims about the mention detector and the formatter\<close>

text \<open>
  Claim C9 says that \<open>removeBotMention\<close> is idempotent once its result holds no alias. The
  character class of \<open>/^[,\\s]+/\<close>, written as a literal, holds the comma, the backslash and
  the letter \<open>s\<close>, not white space. On \<open>tok ayah s sah tak?\<close> the alias and the space after it go,
  then the leading \<open>s\<close>, and \<open>trim\<close> leaves \<open>sah tak?\<close>, which mentions the bot no more; a
  second application takes the \<open>s\<close> of \<open>sah\<close>.
\<close>

theorem removeBotMention_not_idempotent:
  "removeBotMention (js ''TokAyahBot'') (js ''tok ayah s sah tak?'') = js ''sah tak?'' \<and>
   removeBotMention (js ''TokAyahBot'') (js ''sah tak?'') = js ''ah tak?'' \<and>
   \<not> isBotMentioned (js ''TokAyahBot'') (js ''sah tak?'') \<and>
   js ''ah tak?'' \<noteq> js ''sah tak?''"
proof -
  let ?bot = "js ''TokAyahBot''"
  \<comment> \<open>first application\<close>
  have u1: "replaceAll (usernameMatcher ?bot)
              (replaceAll (usernameMatcher (js ''@'' @ ?bot)) (js ''tok ayah s sah tak?''))
            = js ''tok ayah s sah tak?''"
    by (simp add: js_def replaceAll_def usernameMatcher_def char_defs)
  have a1: "replaceAll aliasMatcher (js ''tok ayah s sah tak?'') = js ''s sah tak?''"
    by (simp add: js_def replaceAll_def aliasMatcher_def aliasAt_def tokAyahVariations_def char_defs)
  have p1: "stripLeadingPunctuation (js ''s sah tak?'') = js '' sah tak?''"
    by (simp add: js_def stripLeadingPunctuation_def)
  have t1: "trim (js '' sah tak?'') = js ''sah tak?''"
    by (simp add: js_def trim_def char_defs)
  have ne: "?bot \<noteq> []" by (simp add: js_def)
  have first: "removeBotMention ?bot (js ''tok ayah s sah tak?'') = js ''sah tak?''"
    unfolding removeBotMention_def Let_def by (simp only: ne if_True not_False_eq_True u1 a1 p1 t1)
  \<comment> \<open>second application\<close>
  have u2: "replaceAll (usernameMatcher ?bot)
              (replaceAll (usernameMatcher (js ''@'' @ ?bot)) (js ''sah tak?''))
            = js ''sah tak?''"
    by (simp add: js_def replaceAll_def usernameMatcher_def char_defs)
  have a2: "replaceAll aliasMatcher (js ''sah tak?'') = js ''sah tak?''"
    by (simp add: js_def replaceAll_def aliasMatcher_def aliasAt_def tokAyahVariations_def char_defs)
  have p2: "stripLeadingPunctuation (js ''sah tak?'') = js ''ah tak?''"
    by (simp add: js_def stripLeadingPunctuation_def)
  have t2: "trim (js ''ah tak?'') = js ''ah tak?''"
    by (simp add: js_def trim_def char_defs)
  have second: "removeBotMention ?bot (js ''sah tak?'') = js ''ah tak?''"
    unfolding removeBotMention_def Let_def by (simp only: ne if_True not_False_eq_True u2 a2 p2 t2)
  have nm: "\<not> isBotMentioned ?bot (js ''sah tak?'')"
    by (simp add: js_def isBotMentioned_def tokAyahVariations_def toLowerCase_ascii char_defs)
  have d: "js ''ah tak?'' \<noteq> js ''sah tak?''" by (simp add: js_def)
  from first second nm d show ?thesis by blast
qed

text \<open>
  Claim C3 says that the formatter never emits unmatched tags. When the validator rejects the
  markup, the fallback renders the text as it came in, without the escaping of angle
  brackets that the markup path starts with. On \<open><b> **a *b** c*\<close> the markup is
  \<open>&lt;b&gt; <b>a <i>b</b> c</i>\<close>, which the validator rejects, and the output is the plain
  rendering, with the unclosed \<open><b>\<close> of the input in it.
\<close>

theorem formatResponseForTelegram_unmatched_tag:
  "addSpacing (applyFormatting (escapeHtml (js ''<b> **a *b** c*'')))
     = js ''&lt;b&gt; <b>a <i>b</b> c</i>'' \<and>
   \<not> tagsValid (js ''&lt;b&gt; <b>a <i>b</b> c</i>'') \<and>
   formatResponseForTelegram (js ''<b> **a *b** c*'')
     = js ''<b> '' @ [0x25B6] @ js '' a '' @ [0x2022] @ js '' b '' @ [0x25C0] @ js '' c '' @ [0x2022] \<and>
   tagSequence (js ''<b> '' @ [0x25B6] @ js '' a '' @ [0x2022] @ js '' b '' @ [0x25C0] @ js '' c '' @ [0x2022])
     = [js ''<b>''] \<and>
   \<not> tagsValid (js ''<b> '' @ [0x25B6] @ js '' a '' @ [0x2022] @ js '' b '' @ [0x25C0] @ js '' c '' @ [0x2022])"
proof -
  let ?text = "js ''<b> **a *b** c*''"
  let ?markup = "js ''&lt;b&gt; <b>a <i>b</b> c</i>''"
  let ?plain = "js ''<b> '' @ [0x25B6] @ js '' a '' @ [0x2022] @ js '' b '' @ [0x25C0] @ js '' c '' @ [0x2022]"
  have e: "escapeHtml ?text = js ''&lt;b&gt; **a *b** c*''"
    by (simp add: js_def escapeHtml_def replaceAll_def charMatcher_def)
  have f: "applyFormatting (js ''&lt;b&gt; **a *b** c*'') = ?markup"
    by (simp add: js_def applyFormatting_def replaceAll_def lineMatcher_def spanMatcher_def
        linePrefixMatcher_def numberedMatcher_def blankLinesMatcher_def trim_def char_defs)
  have s: "addSpacing ?markup = ?markup"
    by (simp add: js_def addSpacing_def replaceAll_def adjacentTagsMatcher_def beforeTagMatcher_def
        afterTagMatcher_def char_defs)
  have t: "tagSequence ?markup = [js ''<b>'', js ''<i>'', js ''</b>'', js ''</i>'']"
    by (simp add: js_def)
  have v: "\<not> tagsValid ?markup"
    unfolding tagsValid_def t by (simp add: js_def)
  have p: "simpleFormatting ?text = ?plain"
    by (simp add: js_def simpleFormatting_def replaceAll_def lineMatcher_def spanMatcher_def
        linePrefixMatcher_def numberedMatcher_def blankLinesMatcher_def trim_def char_defs)
  have r: "formatResponseForTelegram ?text = ?plain"
    unfolding formatResponseForTelegram_def Let_def by (simp only: e f s v p not_False_eq_True if_True)
  have tp: "tagSequence ?plain = [js ''<b>'']" by (simp add: js_def)
  have vp: "\<not> tagsValid ?plain" unfolding tagsValid_def tp by (simp add: js_def)
  from e f s have "addSpacing (applyFormatting (escapeHtml ?text)) = ?markup" by simp
  with v r tp vp show ?thesis by blast
qed

text \<open>
  Claim C7 says that the output of \<open>simpleFormatting\<close> is never invalid markup, also for inputs
  with angle brackets in them. \<open>simpleFormatting\<close> puts no tag of its own into the text, but it
  keeps the ones that are there: \<open>**a *b** c* <i>\<close>, which the formatter hands to it because the
  validator rejects its markup, comes out with the unclosed \<open><i>\<close>.
\<close>

theorem simpleFormatting_keeps_tags:
  "addSpacing (applyFormatting (escapeHtml (js ''**a *b** c* <i>'')))
     = js ''<b>a <i>b</b> c</i> &lt;i&gt;'' \<and>
   \<not> tagsValid (js ''<b>a <i>b</b> c</i> &lt;i&gt;'') \<and>
   simpleFormatting (js ''**a *b** c* <i>'')
     = [0x25B6] @ js '' a '' @ [0x2022] @ js '' b '' @ [0x25C0] @ js '' c '' @ [0x2022] @ js '' <i>'' \<and>
   tagSequence ([0x25B6] @ js '' a '' @ [0x2022] @ js '' b '' @ [0x25C0] @ js '' c '' @ [0x2022] @ js '' <i>'')
     = [js ''<i>''] \<and>
   \<not> tagsValid ([0x25B6] @ js '' a '' @ [0x2022] @ js '' b '' @ [0x25C0] @ js '' c '' @ [0x2022] @ js '' <i>'')"
proof -
  let ?text = "js ''**a *b** c* <i>''"
  let ?markup = "js ''<b>a <i>b</b> c</i> &lt;i&gt;''"
  let ?plain = "[0x25B6] @ js '' a '' @ [0x2022] @ js '' b '' @ [0x25C0] @ js '' c '' @ [0x2022] @ js '' <i>''"
  have e: "escapeHtml ?text = js ''**a *b** c* &lt;i&gt;''"
    by (simp add: js_def escapeHtml_def replaceAll_def charMatcher_def)
  have f: "applyFormatting (js ''**a *b** c* &lt;i&gt;'') = ?markup"
    by (simp add: js_def applyFormatting_def replaceAll_def lineMatcher_def spanMatcher_def
        linePrefixMatcher_def numberedMatcher_def blankLinesMatcher_def trim_def char_defs)
  have s: "addSpacing ?markup = ?markup"
    by (simp add: js_def addSpacing_def replaceAll_def adjacentTagsMatcher_def beforeTagMatcher_def
        afterTagMatcher_def char_defs)
  have t: "tagSequence ?markup = [js ''<b>'', js ''<i>'', js ''</b>'', js ''</i>'']"
    by (simp add: js_def)
  have v: "\<not> tagsValid ?markup"
    unfolding tagsValid_def t by (simp add: js_def)
  have p: "simpleFormatting ?text = ?plain"
    by (simp add: js_def simpleFormatting_def replaceAll_def lineMatcher_def spanMatcher_def
        linePrefixMatcher_def numberedMatcher_def blankLinesMatcher_def trim_def char_defs)
  have tp: "tagSequence ?plain = [js ''<i>'']" by (simp add: js_def)
  have vp: "\<not> tagsValid ?plain" unfolding tagsValid_def tp by (simp add: js_def)
  from e f s have "addSpacing (applyFormatting (escapeHtml ?text)) = ?markup" by simp
  with v p tp vp show ?thesis by blast
qed

section \<open>Properties of the responders and of the router\<close>

lemma shouldRespond_boolean:
  "\<exists>b. fst (shouldRespond parseFloat a message) = Inr (JSBoolean b)"
  by (auto simp: shouldRespond_def Let_def split: prod.splits sum.splits)

lemma findBestAgent_keeps:
  "findBestAgent parseFloat question agents (bestAgent, highestRelevance)
     = Inr (bestAgent, highestRelevance)"
proof (induction agents)
  case Nil
  show ?case by simp
next
  case (Cons entry agents)
  obtain name agent where e: "entry = (name, agent)" by (cases entry)
  obtain b where "fst (shouldRespond parseFloat agent question) = Inr (JSBoolean b)"
    using shouldRespond_boolean by blast
  with Cons e show ?case by (simp add: typeofIsNumber_def)
qed

lemma apology_nonempty:
  "apologyNoResponse \<noteq> []" "apologyError \<noteq> []" "apologyNoOpinion \<noteq> []"
  by (simp_all add: apologyNoResponse_def apologyError_def apologyNoOpinion_def js_def)

lemma baseGenerateResponse_ok:
  "\<exists>s. fst (baseGenerateResponse a question) = Inr s \<and> s \<noteq> []"
  using apology_nonempty
  by (auto simp: baseGenerateResponse_def split: prod.splits sum.splits)

lemma synthesize_ok:
  "\<exists>s. fst (synthesize post question agentResponses) = Inr s \<and> s \<noteq> []"
  using apology_nonempty
  by (auto simp: synthesize_def split: prod.splits sum.splits)

lemma promiseAll_all_fulfilled:
  assumes "\<forall>p \<in> set ps. \<exists>v. fst p = Inr v"
  shows "\<exists>vs. fst (promiseAll ps) = Inr vs \<and> map (\<lambda>p. fst p) ps = map Inr vs"
  using assms
proof (induction ps)
  case Nil
  show ?case by simp
next
  case (Cons p ps)
  obtain r logs where p: "p = (r, logs)" by (cases p)
  from Cons.prems p obtain v where v: "r = Inr v" by auto
  from Cons obtain vs where vs: "fst (promiseAll ps) = Inr vs" "map (\<lambda>p. fst p) ps = map Inr vs"
    by auto
  obtain rs logs' where pa: "promiseAll ps = (rs, logs')" by (cases "promiseAll ps")
  with vs have "rs = Inr vs" by simp
  with p v pa vs(2) have "fst (promiseAll (p # ps)) = Inr (v # vs) \<and>
      map (\<lambda>p. fst p) (p # ps) = map Inr (v # vs)" by simp
  then show ?case by blast
qed

lemma generateResponse_opinion:
  "generateResponse (Agent OpinionAgent cfg post others) question =
     (case fanOut others question of
        (Inl e, logs) \<Rightarrow>
          (Inr apologyError, logs @ [js ''Error generating comprehensive opinion:''])
      | (Inr agentResponses, logs) \<Rightarrow>
          (case synthesize post question agentResponses of (r, logs') \<Rightarrow> (r, logs @ logs')))"
  by (simp add: fanOut_def)

lemma generateResponse_specialist:
  "cls \<noteq> OpinionAgent \<Longrightarrow>
   generateResponse (Agent cls cfg post others) question
     = baseGenerateResponse (Agent cls cfg post others) question"
  by simp

lemma generateResponse_ok:
  "\<exists>s. fst (generateResponse a question) = Inr s \<and> s \<noteq> []"
proof (induction a question rule: generateResponse.induct)
  case (1 cls cfg post others question)
  show ?case
  proof (cases "cls = OpinionAgent")
    case False
    then show ?thesis using baseGenerateResponse_ok by (simp del: generateResponse.simps add: generateResponse_specialist)
  next
    case True
    obtain r logs where f: "fanOut others question = (r, logs)" by (cases "fanOut others question")
    show ?thesis
    proof (cases r)
      case (Inl e)
      with f True show ?thesis using apology_nonempty
        by (simp del: generateResponse.simps add: generateResponse_opinion)
    next
      case (Inr agentResponses)
      obtain r' logs' where s: "synthesize post question agentResponses = (r', logs')"
        by (cases "synthesize post question agentResponses")
      with synthesize_ok[of post question agentResponses]
      have "\<exists>s. r' = Inr s \<and> s \<noteq> []" by simp
      with f True Inr s show ?thesis
        by (simp del: generateResponse.simps add: generateResponse_opinion)
    qed
  qed
qed

text \<open>The fan-out never rejects: one labelled answer for every agent, in order.\<close>

lemma fanOut_all:
  "\<exists>responses. fst (fanOut others question) = Inr responses \<and>
     length responses = length others \<and>
     (\<forall>i < length others.
        responses ! i = (getAgentType i, projr (fst (generateResponse (others ! i) question))))"
proof -
  let ?f = "\<lambda>(index, agent).
               (case generateResponse agent question of
                  (r, logs) \<Rightarrow> (map_sum id (\<lambda>response. (getAgentType index, response)) r, logs))"
  let ?ps = "map ?f (enumerate 0 others)"
  have each: "\<And>i. i < length others \<Longrightarrow>
      fst (?ps ! i) = Inr (getAgentType i, projr (fst (generateResponse (others ! i) question)))"
  proof -
    fix i assume i: "i < length others"
    obtain s where s: "fst (generateResponse (others ! i) question) = Inr s"
      using generateResponse_ok by blast
    obtain r logs where g: "generateResponse (others ! i) question = (r, logs)"
      by (cases "generateResponse (others ! i) question")
    with s have "r = Inr s" by simp
    with i g show "fst (?ps ! i) = Inr (getAgentType i, projr (fst (generateResponse (others ! i) question)))"
      by (simp add: nth_enumerate_eq)
  qed
  have "\<forall>p \<in> set ?ps. \<exists>v. fst p = Inr v"
  proof
    fix p assume "p \<in> set ?ps"
    then obtain i where "i < length ?ps" "p = ?ps ! i" by (metis in_set_conv_nth)
    with each[of i] show "\<exists>v. fst p = Inr v" by simp
  qed
  from promiseAll_all_fulfilled[OF this] obtain vs where
    vs: "fst (promiseAll ?ps) = Inr vs" "map (\<lambda>p. fst p) ?ps = map Inr vs" by blast
  from vs(2) have len: "length vs = length others"
    by (metis length_map length_enumerate)
  have "\<forall>i < length others.
        vs ! i = (getAgentType i, projr (fst (generateResponse (others ! i) question)))"
  proof (intro allI impI)
    fix i assume i: "i < length others"
    then have "map (\<lambda>p. fst p) ?ps ! i = fst (?ps ! i)" by simp
    moreover from i len have "map Inr vs ! i = (Inr (vs ! i) :: error + jsstring \<times> jsstring)" by simp
    ultimately have "fst (?ps ! i) = Inr (vs ! i)" using vs(2) by simp
    with each[OF i] show "vs ! i = (getAgentType i, projr (fst (generateResponse (others ! i) question)))"
      by simp
  qed
  with vs(1) len show ?thesis unfolding fanOut_def by blast
qed

lemma createChatCompletion_fail:
  "post messages temperature max_tokens = Inl e \<Longrightarrow>
   createChatCompletion post messages temperature max_tokens
     = (Inl e, [js ''Error calling DeepSeek API:''])"
  by (simp add: createChatCompletion_def)

lemma createChatCompletion_content:
  "post messages temperature max_tokens = Inr (Some (Some content # rest)) \<Longrightarrow>
   createChatCompletion post messages temperature max_tokens = (Inr content, [])"
  by (simp add: createChatCompletion_def)

lemma length_specializedAgents: "length (specializedAgents ids clients) = 5"
  by (simp add: specializedAgents_def Let_def)


lemma baseGenerateResponse_fail:
  assumes "deepseekClient a [(System, getSystemPrompt (agentClass a)), (User, question)] double_0_7 1000 = Inl e"
  shows "fst (baseGenerateResponse a question) = Inr apologyError"
  using assms by (simp add: baseGenerateResponse_def createChatCompletion_fail)

lemma generateResponse_specialist_fail:
  assumes "agentClass a \<noteq> OpinionAgent"
    and "deepseekClient a [(System, getSystemPrompt (agentClass a)), (User, question)] double_0_7 1000 = Inl e"
  shows "fst (generateResponse a question) = Inr apologyError"
proof (cases a)
  case (Agent cls cfg post others)
  with assms(1) have "generateResponse a question = baseGenerateResponse a question"
    by (simp del: generateResponse.simps add: generateResponse_specialist)
  with baseGenerateResponse_fail[OF assms(2)] show ?thesis by simp
qed

lemma scenario_mentioned: "isBotMentioned (js ''TokAyahBot'') scenarioText"
  by (simp add: scenarioText_def js_def mention_defs char_defs)

lemma scenario_residual:
  "removeBotMention (js ''TokAyahBot'') scenarioText = js ''apa hukum solat jumaat''"
  by (simp add: scenarioText_def js_def mention_defs char_defs)

lemma scenario_not_simple: "isSimpleInteraction (js ''apa hukum solat jumaat'') = None"
  by (simp add: js_def simple_defs char_defs)

lemma scenario_flags:
  "\<not> prefix (js ''/'') scenarioText"
  "\<not> includesStr (toLowerCase scenarioText) (js ''getkeywords'')"
  "trim (js ''apa hukum solat jumaat'') \<noteq> []"
  by (simp_all add: scenarioText_def js_def toLowerCase_ascii char_defs trim_def)

text \<open>Every message that reaches the search for the best specialist gets the fallback reply:
  a message of an allowed group that is no reply and no command, mentions the bot, does not
  ask for \<open>getkeywords\<close>, and whose question is neither empty nor a simple interaction.\<close>

lemma scoring_branch_falls_back:
  assumes chat: "chatId ctx = Some cid" "cid \<in> set ids"
    and noreply: "replyToMessage ctx = None"
    and name: "botUsername = (if botUsername0 = [] then meUsername ctx else botUsername0)"
    and mentioned: "isBotMentioned botUsername (messageText ctx)"
    and nocommand: "\<not> prefix (js ''/'') (messageText ctx)"
    and nokeywords: "\<not> includesStr (toLowerCase (messageText ctx)) (js ''getkeywords'')"
    and question: "question = removeBotMention botUsername (messageText ctx)"
    and nonempty: "trim question \<noteq> []"
    and notsimple: "isSimpleInteraction question = None"
  shows "onMessageText parseFloat ids agents botUsername0 ctx
           = Some (Replied [Reply fallbackReply], botUsername)"
proof -
  from name mentioned have m: "isBotMentioned (if botUsername0 = [] then meUsername ctx else botUsername0)
      (messageText ctx)" by simp
  from name question nonempty have q: "trim (removeBotMention
      (if botUsername0 = [] then meUsername ctx else botUsername0) (messageText ctx)) \<noteq> []" by simp
  from name question notsimple have s: "isSimpleInteraction (removeBotMention
      (if botUsername0 = [] then meUsername ctx else botUsername0) (messageText ctx)) = None" by simp
  show ?thesis
    unfolding onMessageText_def Let_def name
    using chat noreply m nocommand nokeywords q s
    by (simp add: findBestAgent_keeps)
qed

lemma createChatCompletion_no_choices:
  "post messages temperature max_tokens = Inr None \<Longrightarrow>
   createChatCompletion post messages temperature max_tokens
     = (Inl TypeError, [js ''Error calling DeepSeek API:''])"
  by (simp add: createChatCompletion_def)

lemma createChatCompletion_choices:
  "post messages temperature max_tokens = Inr (Some choices) \<Longrightarrow>
   createChatCompletion post messages temperature max_tokens
     = (Inr (case choices of Some content # _ \<Rightarrow> content | _ \<Rightarrow> []), [])"
  by (simp add: createChatCompletion_def split: list.splits option.splits)

lemma scoredText_alt:
  "scoredText choices =
     (let response = (case choices of Some content # _ \<Rightarrow> content | _ \<Rightarrow> [])
      in if response = [] then js ''0'' else response)"
  by (simp add: scoredText_def split: list.splits option.splits)

lemma sublist_join: "x \<in> set xs \<Longrightarrow> sublist x (join sep xs)"
proof (induction sep xs rule: join.induct)
  case (1 sep)
  then show ?case by simp
next
  case (2 sep y)
  then show ?case by simp
next
  case (3 sep y v va)
  show ?case
  proof (cases "x = y")
    case True
    then show ?thesis by simp
  next
    case False
    with 3 have "sublist x (join sep (v # va))" by simp
    then obtain ps ss where "join sep (v # va) = ps @ x @ ss" by (auto simp: sublist_def)
    then have "join sep (y # v # va) = (y @ sep @ ps) @ x @ ss" by simp
    then show ?thesis unfolding sublist_def by blast
  qed
qed

lemma sublist_perspectivesOf:
  assumes "j < length responses"
  shows "sublist (fst (responses ! j) @ js '':\<newline>'' @ cleanResponse (snd (responses ! j)))
           (perspectivesOf responses)"
proof -
  let ?f = "\<lambda>(type, response). type @ js '':\<newline>'' @ cleanResponse response"
  have "?f (responses ! j) \<in> set (map ?f responses)" using assms by simp
  then have "sublist (?f (responses ! j)) (perspectivesOf responses)"
    unfolding perspectivesOf_def by (rule sublist_join)
  then show ?thesis by (simp add: case_prod_beta)
qed

lemma sublist_skip: "sublist x ys \<Longrightarrow> sublist x (zs @ ys)"
  by (auto simp: sublist_def) (metis append.assoc)

lemma sublist_synthesisRequest:
  "sublist question (synthesisRequest question perspectives)"
  "sublist perspectives (synthesisRequest question perspectives)"
  unfolding synthesisRequest_def
  by ((rule sublist_append_rightI | rule sublist_skip)+)

lemma cleanResponse_apologyError: "cleanResponse apologyError = apologyError"
  by (simp add: cleanResponse_def apologyError_def js_def replaceAll_def headerLineMatcher_def
      lineMatcher_def trim_def char_defs)

lemma synthesize_cases:
  "synthesize post question agentResponses =
     (case post [(System, getSystemPrompt OpinionAgent),
                 (User, synthesisRequest question (perspectivesOf agentResponses))] double_0_7 2000 of
        Inl e \<Rightarrow>
          (Inr apologyError,
           [js ''Error calling DeepSeek API:'', js ''Error generating comprehensive opinion:''])
      | Inr None \<Rightarrow>
          (Inr apologyError,
           [js ''Error calling DeepSeek API:'', js ''Error generating comprehensive opinion:''])
      | Inr (Some choices) \<Rightarrow>
          (Inr (case choices of
                  Some content # _ \<Rightarrow> if content = [] then apologyNoOpinion else content
                | _ \<Rightarrow> apologyNoOpinion), []))"
  by (simp add: synthesize_def createChatCompletion_def split: sum.splits option.splits list.splits)

lemma list5_eq:
  assumes "length xs = 5"
  shows "xs = [xs ! 0, xs ! 1, xs ! 2, xs ! 3, xs ! 4]"
proof (rule nth_equalityI)
  show "length xs = length [xs ! 0, xs ! 1, xs ! 2, xs ! 3, xs ! 4]" using assms by simp
next
  fix k assume "k < length xs"
  with assms have "k = 0 \<or> k = 1 \<or> k = 2 \<or> k = 3 \<or> k = 4" by auto
  then show "xs ! k = [xs ! 0, xs ! 1, xs ! 2, xs ! 3, xs ! 4] ! k" by auto
qed

lemma scenario_specialists:
  "fst (generateResponse (specializedAgents scenarioIds scenarioClients ! 0) q) = Inr apologyError"
  "fst (generateResponse (specializedAgents scenarioIds scenarioClients ! 1) q)
     = Inr (js ''### Hukum\<newline>\<newline>Wajib.'')"
  "fst (generateResponse (specializedAgents scenarioIds scenarioClients ! 2) q)
     = Inr (js ''### Hukum\<newline>\<newline>Wajib.'')"
  "fst (generateResponse (specializedAgents scenarioIds scenarioClients ! 3) q)
     = Inr (js ''### Hukum\<newline>\<newline>Wajib.'')"
  "fst (generateResponse (specializedAgents scenarioIds scenarioClients ! 4) q)
     = Inr (js ''### Hukum\<newline>\<newline>Wajib.'')"
  by (simp_all add: specializedAgents_def Let_def scenarioClients_def failingClient_def
      answeringClient_def baseGenerateResponse_def createChatCompletion_def js_def)

lemma cleanResponse_scenario: "cleanResponse (js ''### Hukum\<newline>\<newline>Wajib.'') = js ''Wajib.''"
  by (simp add: cleanResponse_def js_def replaceAll_def headerLineMatcher_def
      lineMatcher_def trim_def char_defs)

lemma scenario_perspectives:
  "perspectivesOf
     [(getAgentType 0, apologyError),
      (getAgentType 1, js ''### Hukum\<newline>\<newline>Wajib.''),
      (getAgentType 2, js ''### Hukum\<newline>\<newline>Wajib.''),
      (getAgentType 3, js ''### Hukum\<newline>\<newline>Wajib.''),
      (getAgentType 4, js ''### Hukum\<newline>\<newline>Wajib.'')]
   = js ''Fatwa Perspective:\<newline>'' @ apologyError @
     js ''\<newline>\<newline>Mazhab Analysis:\<newline>Wajib.'' @
     js ''\<newline>\<newline>JAKIM Guidelines:\<newline>Wajib.'' @
     js ''\<newline>\<newline>Malaysian Fatwa Council View:\<newline>Wajib.'' @
     js ''\<newline>\<newline>Islamic Practice Context:\<newline>Wajib.''"
  unfolding perspectivesOf_def
  by (simp add: cleanResponse_scenario cleanResponse_apologyError getAgentType_def agentTypes_def)
     (simp add: js_def)













section \<open>Claims about the responders and the router\<close>

text \<open>
  Claim C6, as the code has it. \<open>shouldRespond\<close> never throws and yields a boolean, not a
  number between 0 and 1. The \<open>OpinionAgent\<close> yields \<open>true\<close> without a call. For a specialist
  the result is fixed by the outcome of the one generation call: when the request fails, or
  the reply has no \<open>choices\<close>, it is \<open>false\<close> and the error is logged; when the reply has
  \<open>choices\<close>, it is \<open>true\<close> exactly when \<open>parseFloat\<close> of the scored text (the content of the
  first choice, \<open>0\<close> when there is none or it is empty) is at least the threshold of the
  responder, and nothing is logged. So a text that does not parse as a number gives \<open>false\<close>,
  and so does a reply without content when the threshold is positive, \<open>parseFloat\<close> of \<open>0\<close>
  being 0.
\<close>

theorem shouldRespond_fails_closed:
  "(\<exists>b. fst (shouldRespond parseFloat a message) = Inr (JSBoolean b)) \<and>
   (agentClass a = OpinionAgent \<longrightarrow>
      shouldRespond parseFloat a message = (Inr (JSBoolean True), [])) \<and>
   (agentClass a \<noteq> OpinionAgent \<longrightarrow>
      (\<forall>e. deepseekClient a [(System, relevancePrompt (agentClass a)), (User, message)] double_0_1 10
             = Inl e \<longrightarrow>
           shouldRespond parseFloat a message
             = (Inr (JSBoolean False),
                [js ''Error calling DeepSeek API:'', js ''Error checking relevance:''])) \<and>
      (deepseekClient a [(System, relevancePrompt (agentClass a)), (User, message)] double_0_1 10
             = Inr None \<longrightarrow>
           shouldRespond parseFloat a message
             = (Inr (JSBoolean False),
                [js ''Error calling DeepSeek API:'', js ''Error checking relevance:''])) \<and>
      (\<forall>choices.
           deepseekClient a [(System, relevancePrompt (agentClass a)), (User, message)] double_0_1 10
             = Inr (Some choices) \<longrightarrow>
           shouldRespond parseFloat a message
             = (Inr (JSBoolean (num_ge (parseFloat (scoredText choices))
                                  (Finite (responseThreshold (config a))))), []) \<and>
           (parseFloat (scoredText choices) = NaN \<longrightarrow>
              shouldRespond parseFloat a message = (Inr (JSBoolean False), [])) \<and>
           (scoredText choices = js ''0'' \<and> parseFloat (js ''0'') = Finite 0 \<and>
            0 < responseThreshold (config a) \<longrightarrow>
              shouldRespond parseFloat a message = (Inr (JSBoolean False), []))))"
proof (intro conjI impI allI)
  show "\<exists>b. fst (shouldRespond parseFloat a message) = Inr (JSBoolean b)"
    by (rule shouldRespond_boolean)
next
  assume "agentClass a = OpinionAgent"
  then show "shouldRespond parseFloat a message = (Inr (JSBoolean True), [])"
    by (simp add: shouldRespond_def)
next
  fix e
  assume "agentClass a \<noteq> OpinionAgent"
    and "deepseekClient a [(System, relevancePrompt (agentClass a)), (User, message)] double_0_1 10 = Inl e"
  then show "shouldRespond parseFloat a message
      = (Inr (JSBoolean False), [js ''Error calling DeepSeek API:'', js ''Error checking relevance:''])"
    by (simp add: shouldRespond_def createChatCompletion_fail)
next
  assume "agentClass a \<noteq> OpinionAgent"
    and "deepseekClient a [(System, relevancePrompt (agentClass a)), (User, message)] double_0_1 10 = Inr None"
  then show "shouldRespond parseFloat a message
      = (Inr (JSBoolean False), [js ''Error calling DeepSeek API:'', js ''Error checking relevance:''])"
    by (simp add: shouldRespond_def createChatCompletion_no_choices)
next
  fix choices
  assume c: "agentClass a \<noteq> OpinionAgent"
    and r: "deepseekClient a [(System, relevancePrompt (agentClass a)), (User, message)] double_0_1 10
             = Inr (Some choices)"
  then show g: "shouldRespond parseFloat a message
      = (Inr (JSBoolean (num_ge (parseFloat (scoredText choices))
                                  (Finite (responseThreshold (config a))))), [])"
    by (simp add: shouldRespond_def createChatCompletion_choices scoredText_alt Let_def)
  {
    assume "parseFloat (scoredText choices) = NaN"
    with g show "shouldRespond parseFloat a message = (Inr (JSBoolean False), [])" by simp
  }
  {
    assume "scoredText choices = js ''0'' \<and> parseFloat (js ''0'') = Finite 0 \<and>
            0 < responseThreshold (config a)"
    with g show "shouldRespond parseFloat a message = (Inr (JSBoolean False), [])" by simp
  }
qed

theorem shouldRespond_fails_closed_witness:
  "shouldRespond scenarioParseFloat
      (Agent FatwaAgent \<lparr> groupIds = scenarioIds, responseThreshold = double_0_7 \<rparr> failingClient [])
      (js ''apa hukum solat jumaat'')
     = (Inr (JSBoolean False), [js ''Error calling DeepSeek API:'', js ''Error checking relevance:'']) \<and>
   shouldRespond scenarioParseFloat
      (Agent FatwaAgent \<lparr> groupIds = scenarioIds, responseThreshold = double_0_7 \<rparr> noChoicesClient [])
      (js ''apa hukum solat jumaat'')
     = (Inr (JSBoolean False), [js ''Error calling DeepSeek API:'', js ''Error checking relevance:'']) \<and>
   shouldRespond scenarioParseFloat
      (Agent FatwaAgent \<lparr> groupIds = scenarioIds, responseThreshold = double_0_7 \<rparr> emptyChoicesClient [])
      (js ''apa hukum solat jumaat'')
     = (Inr (JSBoolean False), []) \<and>
   shouldRespond scenarioParseFloat
      (Agent FatwaAgent \<lparr> groupIds = scenarioIds, responseThreshold = double_0_7 \<rparr>
         (answeringClient (js ''maybe'')) [])
      (js ''apa hukum solat jumaat'')
     = (Inr (JSBoolean False), []) \<and>
   shouldRespond scenarioParseFloat
      (Agent FatwaAgent \<lparr> groupIds = scenarioIds, responseThreshold = double_0_7 \<rparr>
         (answeringClient (js ''0.9'')) [])
      (js ''apa hukum solat jumaat'')
     = (Inr (JSBoolean True), []) \<and>
   shouldRespond scenarioParseFloat
      (Agent OpinionAgent \<lparr> groupIds = scenarioIds, responseThreshold = double_0_3 \<rparr> failingClient [])
      (js ''apa hukum solat jumaat'')
     = (Inr (JSBoolean True), [])"
proof -
  let ?cfg = "\<lparr> groupIds = scenarioIds, responseThreshold = double_0_7 \<rparr>"
  let ?q = "js ''apa hukum solat jumaat''"
  let ?call = "[(System, relevancePrompt FatwaAgent), (User, ?q)]"
  have pos: "0 < double_0_7" by (simp add: double_0_7_def)
  have zero: "scenarioParseFloat (js ''0'') = Finite 0" by (simp add: scenarioParseFloat_def)
  have nan: "scenarioParseFloat (js ''maybe'') = NaN" by (simp add: scenarioParseFloat_def js_def)
  have high: "num_ge (scenarioParseFloat (js ''0.9'')) (Finite double_0_7)"
    by (simp add: scenarioParseFloat_def js_def double_0_7_def)
  have f: "failingClient ?call double_0_1 10 = Inl GenerationError" by (simp add: failingClient_def)
  have n: "noChoicesClient ?call double_0_1 10 = Inr None" by (simp add: noChoicesClient_def)
  have e: "emptyChoicesClient ?call double_0_1 10 = Inr (Some [])" by (simp add: emptyChoicesClient_def)
  have a: "answeringClient (js ''maybe'') ?call double_0_1 10 = Inr (Some [Some (js ''maybe'')])"
    by (simp add: answeringClient_def)
  have b: "answeringClient (js ''0.9'') ?call double_0_1 10 = Inr (Some [Some (js ''0.9'')])"
    by (simp add: answeringClient_def)
  have s0: "scoredText [] = js ''0''" by (simp add: scoredText_def)
  have s1: "scoredText [Some (js ''maybe'')] = js ''maybe''" by (simp add: scoredText_def js_def)
  have s2: "scoredText [Some (js ''0.9'')] = js ''0.9''" by (simp add: scoredText_def js_def)
  from shouldRespond_fails_closed[of scenarioParseFloat "Agent FatwaAgent ?cfg failingClient []" ?q] f
  have 1: "shouldRespond scenarioParseFloat (Agent FatwaAgent ?cfg failingClient []) ?q
     = (Inr (JSBoolean False), [js ''Error calling DeepSeek API:'', js ''Error checking relevance:''])"
    by simp
  from shouldRespond_fails_closed[of scenarioParseFloat "Agent FatwaAgent ?cfg noChoicesClient []" ?q] n
  have 2: "shouldRespond scenarioParseFloat (Agent FatwaAgent ?cfg noChoicesClient []) ?q
     = (Inr (JSBoolean False), [js ''Error calling DeepSeek API:'', js ''Error checking relevance:''])"
    by simp
  from shouldRespond_fails_closed[of scenarioParseFloat "Agent FatwaAgent ?cfg emptyChoicesClient []" ?q]
    e s0 zero pos
  have 3: "shouldRespond scenarioParseFloat (Agent FatwaAgent ?cfg emptyChoicesClient []) ?q
     = (Inr (JSBoolean False), [])"
    by simp
  from shouldRespond_fails_closed[of scenarioParseFloat
      "Agent FatwaAgent ?cfg (answeringClient (js ''maybe'')) []" ?q] a s1 nan
  have 4: "shouldRespond scenarioParseFloat (Agent FatwaAgent ?cfg (answeringClient (js ''maybe'')) []) ?q
     = (Inr (JSBoolean False), [])"
    by simp
  from shouldRespond_fails_closed[of scenarioParseFloat
      "Agent FatwaAgent ?cfg (answeringClient (js ''0.9'')) []" ?q] b s2 high
  have 5: "shouldRespond scenarioParseFloat (Agent FatwaAgent ?cfg (answeringClient (js ''0.9'')) []) ?q
     = (Inr (JSBoolean True), [])"
    by simp
  from shouldRespond_fails_closed[of scenarioParseFloat
      "Agent OpinionAgent \<lparr> groupIds = scenarioIds, responseThreshold = double_0_3 \<rparr> failingClient []" ?q]
  have 6: "shouldRespond scenarioParseFloat
      (Agent OpinionAgent \<lparr> groupIds = scenarioIds, responseThreshold = double_0_3 \<rparr> failingClient []) ?q
     = (Inr (JSBoolean True), [])"
    by simp
  from 1 2 3 4 5 6 show ?thesis by (simp only: simp_thms)
qed

text \<open>The claim as stated fails: on a failed call the result is the boolean \<open>false\<close>, which is
  not a number for \<open>typeof\<close>, and not the number \<open>0.0\<close>.\<close>

theorem shouldRespond_not_a_score:
  "fst (shouldRespond scenarioParseFloat
      (Agent FatwaAgent \<lparr> groupIds = scenarioIds, responseThreshold = double_0_7 \<rparr> failingClient [])
      (js ''apa hukum solat jumaat''))
     = Inr (JSBoolean False) \<and>
   \<not> typeofIsNumber (JSBoolean False) \<and>
   JSBoolean False \<noteq> JSNumber (Finite 0)"
  by (simp add: shouldRespond_def createChatCompletion_def failingClient_def typeofIsNumber_def)




text \<open>
  Claim C2: when the generation call of one of the \<open>otherAgents\<close> fails, the fan-out of
  \<open>OpinionAgent.generateResponse\<close> still has one labelled answer for every agent, in order:
  the answer of each agent is what its own \<open>generateResponse\<close> returns, the one of the failed
  agent being the fixed apology. The request of the synthesis call is built from all of them:
  it holds, for every agent, the label, a colon, a line feed and the cleaned answer. The
  client of the \<open>OpinionAgent\<close> is called with that request, and \<open>generateResponse\<close> returns the
  content of its reply, or one of the fixed apologies when the call fails or the reply has no
  content: a non-empty text in every case.
\<close>

theorem synthesizer_survives_failure:
  assumes "i < length others"
    and "agentClass (others ! i) \<noteq> OpinionAgent"
    and "deepseekClient (others ! i)
           [(System, getSystemPrompt (agentClass (others ! i))), (User, question)] double_0_7 1000 = Inl e"
  shows "\<exists>responses logs request.
           fanOut others question = (Inr responses, logs) \<and>
           length responses = length others \<and>
           (\<forall>j < length others.
              responses ! j
                = (getAgentType j, projr (fst (generateResponse (others ! j) question)))) \<and>
           responses ! i = (getAgentType i, apologyError) \<and>
           request = synthesisRequest question (perspectivesOf responses) \<and>
           (\<forall>j < length others.
              sublist (getAgentType j @ js '':\<newline>'' @ cleanResponse (snd (responses ! j)))
                request) \<and>
           sublist (getAgentType i @ js '':\<newline>'' @ apologyError) request \<and>
           generateResponse (Agent OpinionAgent cfg post others) question
             = (case post [(System, getSystemPrompt OpinionAgent), (User, request)] double_0_7 2000 of
                  Inl e' \<Rightarrow>
                    (Inr apologyError,
                     logs @ [js ''Error calling DeepSeek API:'',
                             js ''Error generating comprehensive opinion:''])
                | Inr None \<Rightarrow>
                    (Inr apologyError,
                     logs @ [js ''Error calling DeepSeek API:'',
                             js ''Error generating comprehensive opinion:''])
                | Inr (Some choices) \<Rightarrow>
                    (Inr (case choices of
                            Some content # _ \<Rightarrow>
                              if content = [] then apologyNoOpinion else content
                          | _ \<Rightarrow> apologyNoOpinion), logs)) \<and>
           (\<exists>s. fst (generateResponse (Agent OpinionAgent cfg post others) question) = Inr s \<and> s \<noteq> [])"
proof -
  from fanOut_all[of others question] obtain responses where
    r: "fst (fanOut others question) = Inr responses" "length responses = length others"
       "\<forall>j < length others.
          responses ! j = (getAgentType j, projr (fst (generateResponse (others ! j) question)))"
    by blast
  obtain logs where f: "fanOut others question = (Inr responses, logs)"
    using r(1) by (cases "fanOut others question") simp
  define request where "request = synthesisRequest question (perspectivesOf responses)"
  have ith: "responses ! i = (getAgentType i, apologyError)"
    using r(3) assms(1) generateResponse_specialist_fail[OF assms(2,3)] by simp
  have blocks: "\<forall>j < length others.
      sublist (getAgentType j @ js '':\<newline>'' @ cleanResponse (snd (responses ! j))) request"
  proof (intro allI impI)
    fix j assume j: "j < length others"
    with r(2) have "sublist (fst (responses ! j) @ js '':\<newline>'' @ cleanResponse (snd (responses ! j)))
        (perspectivesOf responses)" by (intro sublist_perspectivesOf) simp
    moreover from r(3) j have "fst (responses ! j) = getAgentType j" by simp
    ultimately have "sublist (getAgentType j @ js '':\<newline>'' @ cleanResponse (snd (responses ! j)))
        (perspectivesOf responses)" by simp
    then show "sublist (getAgentType j @ js '':\<newline>'' @ cleanResponse (snd (responses ! j))) request"
      unfolding request_def using sublist_synthesisRequest(2) sublist_order.order_trans by blast
  qed
  from blocks assms(1) ith
  have failed: "sublist (getAgentType i @ js '':\<newline>'' @ apologyError) request"
    using cleanResponse_apologyError by fastforce
  have g: "generateResponse (Agent OpinionAgent cfg post others) question
             = (case post [(System, getSystemPrompt OpinionAgent), (User, request)] double_0_7 2000 of
                  Inl e' \<Rightarrow>
                    (Inr apologyError,
                     logs @ [js ''Error calling DeepSeek API:'',
                             js ''Error generating comprehensive opinion:''])
                | Inr None \<Rightarrow>
                    (Inr apologyError,
                     logs @ [js ''Error calling DeepSeek API:'',
                             js ''Error generating comprehensive opinion:''])
                | Inr (Some choices) \<Rightarrow>
                    (Inr (case choices of
                            Some content # _ \<Rightarrow>
                              if content = [] then apologyNoOpinion else content
                          | _ \<Rightarrow> apologyNoOpinion), logs))"
    unfolding request_def using f
    by (simp del: generateResponse.simps add: generateResponse_opinion synthesize_cases
        split: sum.splits option.splits)
  from f r(2,3) ith request_def blocks failed g
    generateResponse_ok[of "Agent OpinionAgent cfg post others" question]
  show ?thesis by blast
qed

theorem synthesizer_survives_failure_witness:
  "0 < length (specializedAgents scenarioIds scenarioClients) \<and>
   length (specializedAgents scenarioIds scenarioClients) = 5 \<and>
   agentClass (specializedAgents scenarioIds scenarioClients ! 0) \<noteq> OpinionAgent \<and>
   deepseekClient (specializedAgents scenarioIds scenarioClients ! 0)
      [(System, getSystemPrompt (agentClass (specializedAgents scenarioIds scenarioClients ! 0))),
       (User, js ''apa hukum solat jumaat'')] double_0_7 1000 = Inl GenerationError \<and>
   fst (generateResponse (opinionAgent scenarioIds scenarioClients) (js ''apa hukum solat jumaat''))
     = Inr (synthesisRequest (js ''apa hukum solat jumaat'')
              (js ''Fatwa Perspective:\<newline>'' @ apologyError @
               js ''\<newline>\<newline>Mazhab Analysis:\<newline>Wajib.'' @
               js ''\<newline>\<newline>JAKIM Guidelines:\<newline>Wajib.'' @
               js ''\<newline>\<newline>Malaysian Fatwa Council View:\<newline>Wajib.'' @
               js ''\<newline>\<newline>Islamic Practice Context:\<newline>Wajib.''))"
proof -
  let ?others = "specializedAgents scenarioIds scenarioClients"
  let ?q = "js ''apa hukum solat jumaat''"
  let ?cfg = "\<lparr> groupIds = scenarioIds, responseThreshold = double_0_7 \<rparr>
                \<lparr> responseThreshold := double_0_3 \<rparr>"
  let ?p = "js ''Fatwa Perspective:\<newline>'' @ apologyError @
               js ''\<newline>\<newline>Mazhab Analysis:\<newline>Wajib.'' @
               js ''\<newline>\<newline>JAKIM Guidelines:\<newline>Wajib.'' @
               js ''\<newline>\<newline>Malaysian Fatwa Council View:\<newline>Wajib.'' @
               js ''\<newline>\<newline>Islamic Practice Context:\<newline>Wajib.''"
  have l: "length ?others = 5" by (rule length_specializedAgents)
  then have l0: "0 < length ?others" by simp
  have c: "agentClass (?others ! 0) \<noteq> OpinionAgent"
    by (simp add: specializedAgents_def Let_def)
  have d: "deepseekClient (?others ! 0) [(System, getSystemPrompt (agentClass (?others ! 0))), (User, ?q)]
      double_0_7 1000 = Inl GenerationError"
    by (simp add: specializedAgents_def Let_def scenarioClients_def failingClient_def)
  have o: "opinionAgent scenarioIds scenarioClients = Agent OpinionAgent ?cfg echoClient ?others"
    by (simp add: opinionAgent_def Let_def scenarioClients_def)
  from synthesizer_survives_failure[OF l0 c d, of ?cfg echoClient]
  obtain responses logs request where
    len: "length responses = length ?others"
    and each: "\<forall>j < length ?others.
        responses ! j = (getAgentType j, projr (fst (generateResponse (?others ! j) ?q)))"
    and req: "request = synthesisRequest ?q (perspectivesOf responses)"
    and g: "generateResponse (Agent OpinionAgent ?cfg echoClient ?others) ?q
             = (case echoClient [(System, getSystemPrompt OpinionAgent), (User, request)] double_0_7 2000 of
                  Inl e' \<Rightarrow>
                    (Inr apologyError,
                     logs @ [js ''Error calling DeepSeek API:'',
                             js ''Error generating comprehensive opinion:''])
                | Inr None \<Rightarrow>
                    (Inr apologyError,
                     logs @ [js ''Error calling DeepSeek API:'',
                             js ''Error generating comprehensive opinion:''])
                | Inr (Some choices) \<Rightarrow>
                    (Inr (case choices of
                            Some content # _ \<Rightarrow>
                              if content = [] then apologyNoOpinion else content
                          | _ \<Rightarrow> apologyNoOpinion), logs))"
    by blast
  from len l have "responses = [responses ! 0, responses ! 1, responses ! 2, responses ! 3, responses ! 4]"
    by (intro list5_eq) simp
  also from each l have "\<dots> = [(getAgentType 0, apologyError),
      (getAgentType 1, js ''### Hukum\<newline>\<newline>Wajib.''),
      (getAgentType 2, js ''### Hukum\<newline>\<newline>Wajib.''),
      (getAgentType 3, js ''### Hukum\<newline>\<newline>Wajib.''),
      (getAgentType 4, js ''### Hukum\<newline>\<newline>Wajib.'')]"
    by (simp add: scenario_specialists del: One_nat_def)
  finally have "perspectivesOf responses = ?p" by (simp only: scenario_perspectives)
  with req have request: "request = synthesisRequest ?q ?p" by simp
  have "request \<noteq> []" unfolding request synthesisRequest_def by (simp add: js_def)
  with g have "fst (generateResponse (Agent OpinionAgent ?cfg echoClient ?others) ?q) = Inr request"
    by (simp add: echoClient_def)
  with request o have "fst (generateResponse (opinionAgent scenarioIds scenarioClients) ?q)
      = Inr (synthesisRequest ?q ?p)" by (simp only:)
  with l0 l c d show ?thesis by blast
qed

text \<open>
  Claim C1 says that the router picks the specialist with the highest relevance score and
  calls its \<open>generateResponse\<close>. \<open>shouldRespond\<close> yields a boolean and the loop keeps a result only
  when its \<open>typeof\<close> is \<open>number\<close>, so \<open>bestAgent\<close> stays \<open>null\<close>: whatever the generation service
  answers, the message \<open>tok ayah, apa hukum solat jumaat\<close> gets the fixed fallback reply and no
  responder is asked to generate.
\<close>

theorem router_never_selects:
  "onMessageText parseFloat [js ''-1001234567890''] (agentsMap [js ''-1001234567890''] clients) []
      scenarioCtx
     = Some (Replied [Reply fallbackReply], js ''TokAyahBot'')"
proof (rule scoring_branch_falls_back)
  show "chatId scenarioCtx = Some (js ''-1001234567890'')" by (simp add: scenarioCtx_def)
  show "js ''-1001234567890'' \<in> set [js ''-1001234567890'']" by simp
  show "replyToMessage scenarioCtx = None" by (simp add: scenarioCtx_def)
  show "js ''TokAyahBot'' = (if [] = [] then meUsername scenarioCtx else [])"
    by (simp add: scenarioCtx_def)
  show "isBotMentioned (js ''TokAyahBot'') (messageText scenarioCtx)"
    using scenario_mentioned by (simp add: scenarioCtx_def)
  show "\<not> prefix (js ''/'') (messageText scenarioCtx)"
    using scenario_flags(1) by (simp add: scenarioCtx_def)
  show "\<not> includesStr (toLowerCase (messageText scenarioCtx)) (js ''getkeywords'')"
    using scenario_flags(2) by (simp add: scenarioCtx_def)
  show "js ''apa hukum solat jumaat'' = removeBotMention (js ''TokAyahBot'') (messageText scenarioCtx)"
    using scenario_residual by (simp add: scenarioCtx_def)
  show "trim (js ''apa hukum solat jumaat'') \<noteq> []" by (rule scenario_flags(3))
  show "isSimpleInteraction (js ''apa hukum solat jumaat'') = None" by (rule scenario_not_simple)
qed

end
